(* ===== verification/Py_Base.thy ===== *)
theory Py_Base
  imports Complex_Main "HOL-Library.AList" "HOL-Library.Sublist"
begin

text \<open>
  The prelude: what every component of the development uses of Python.
  \<^item> an exception is a value of \<open>pyerr\<close>, a call that may raise has a result of type
    \<open>'a res\<close> (\<open>Inl\<close> the exception, \<open>Inr\<close> the value), and statements are sequenced by
    \<open>res_bind\<close>;
  \<^item> \<open>OutOfFuel\<close> is no exception of Python: it stands for a polling loop that ran out of the
    iterations that its model has, and is proved not to happen where the clock moves on;
  \<^item> a \<open>for\<close> loop whose body may raise is \<open>fold_res\<close>, a comprehension is \<open>map_res\<close>;
  \<^item> a \<open>dict\<close> is an association list in insertion order, with \<open>AList.update\<close> for
    \<open>d[k] = v\<close> (an existing key keeps its place) and \<open>AList.delete\<close> for \<open>d.pop(k)\<close>;
  \<^item> the interface of such stores is the locale \<open>keyed_store\<close>, interpreted on the
    association lists.
\<close>

section \<open>Exceptions and results\<close>

datatype pyerr =
    ValueError string
  | KeyError string
  | TypeError string
  | AttributeError string
  | RuntimeError string
  | StopIteration
  | IndexError
  | ZeroDivisionError
  | StatisticsError
  | NotReady string
  | TimeoutError string
  | FileNotFoundError string
  | AssertionError string
  | OtherError string
  | OutOfFuel

type_synonym 'a res = "pyerr + 'a"

named_theorems res_simps \<open>equations that decide which branch a sequenced call takes\<close>

definition res_bind :: "'a res \<Rightarrow> ('a \<Rightarrow> 'b res) \<Rightarrow> 'b res" where
  "res_bind m f = (case m of Inl e \<Rightarrow> Inl e | Inr x \<Rightarrow> f x)"

abbreviation res_map :: "('a \<Rightarrow> 'b) \<Rightarrow> 'a res \<Rightarrow> 'b res" where
  "res_map f m \<equiv> res_bind m (\<lambda>x. Inr (f x))"

lemma res_bind_Inr [simp, res_simps]: "res_bind (Inr x) f = f x"
  by (simp add: res_bind_def)

lemma res_bind_Inl [simp, res_simps]: "res_bind (Inl e) f = Inl e"
  by (simp add: res_bind_def)

lemma res_bind_eq_Inr [res_simps]:
  "(res_bind call k = Inr r) = (\<exists>v. call = Inr v \<and> k v = Inr r)"
  by (cases call) auto

lemma res_bind_eq_Inl [res_simps]:
  "(res_bind call k = Inl e) = (call = Inl e \<or> (\<exists>v. call = Inr v \<and> k v = Inl e))"
  by (cases call) auto

lemma res_bind_assoc: "res_bind (res_bind m f) g = res_bind m (\<lambda>x. res_bind (f x) g)"
  by (cases m) auto

lemma res_not_isl: "\<not> isl m \<Longrightarrow> m = Inr (projr m)"
  by (cases m) auto

text \<open>A loop over a list whose body may raise: the first exception ends it.\<close>

fun fold_res :: "('a \<Rightarrow> 's \<Rightarrow> 's res) \<Rightarrow> 'a list \<Rightarrow> 's \<Rightarrow> 's res" where
  "fold_res f [] s = Inr s"
| "fold_res f (x # xs) s = res_bind (f x s) (fold_res f xs)"

fun map_res :: "('a \<Rightarrow> 'b res) \<Rightarrow> 'a list \<Rightarrow> 'b list res" where
  "map_res f [] = Inr []"
| "map_res f (x # xs) = res_bind (f x) (\<lambda>y. res_bind (map_res f xs) (\<lambda>ys. Inr (y # ys)))"

lemma fold_res_append:
  "fold_res f (xs @ ys) s = res_bind (fold_res f xs s) (fold_res f ys)"
proof (induction xs arbitrary: s)
  case (Cons x xs)
  then show ?case by (cases "f x s") simp_all
qed simp

text \<open>The loop rule: a body that never raises and keeps \<open>P\<close> gives a loop that does.\<close>

lemma fold_res_total:
  assumes "P s" and "\<And>x s. x \<in> set xs \<Longrightarrow> P s \<Longrightarrow> \<exists>s'. f x s = Inr s' \<and> P s'"
  shows "\<exists>s'. fold_res f xs s = Inr s' \<and> P s'"
  using assms
proof (induction xs arbitrary: s)
  case Nil
  then show ?case by simp
next
  case (Cons x xs)
  then obtain s1 where s1: "f x s = Inr s1" "P s1" by force
  have "\<exists>s'. fold_res f xs s1 = Inr s' \<and> P s'"
    by (rule Cons.IH) (use Cons.prems s1 in auto)
  then show ?case using s1 by simp
qed

lemma map_res_Inr: "map_res (\<lambda>x. Inr (f x)) xs = Inr (map f xs)"
  by (induction xs) simp_all

lemma map_res_cong_Inr:
  "(\<And>x. x \<in> set xs \<Longrightarrow> f x = Inr (g x)) \<Longrightarrow> map_res f xs = Inr (map g xs)"
  by (induction xs) simp_all

lemma map_res_keys:
  "(\<And>x. x \<in> set xs \<Longrightarrow> \<exists>y. f x = Inr y \<and> key y = k x) \<Longrightarrow> \<exists>ys. map_res f xs = Inr ys \<and> map key ys = map k xs"
proof (induction xs)
  case (Cons x xs)
  then obtain y ys where "f x = Inr y" "key y = k x" "map_res f xs = Inr ys" "map key ys = map k xs"
    by (metis list.set_intros)
  then show ?case by simp
qed simp

lemma map_res_length: "map_res f xs = Inr ys \<Longrightarrow> length ys = length xs"
  by (induction xs arbitrary: ys) (auto simp: res_bind_eq_Inr)

section \<open>Dictionaries\<close>

type_synonym ('k, 'v) pydict = "('k \<times> 'v) list"

definition dict_wf :: "('k, 'v) pydict \<Rightarrow> bool" where
  "dict_wf d \<longleftrightarrow> distinct (map fst d)"

abbreviation dict_keys :: "('k, 'v) pydict \<Rightarrow> 'k list" where
  "dict_keys d \<equiv> map fst d"

definition dict_get :: "'k \<Rightarrow> 'v \<Rightarrow> ('k, 'v) pydict \<Rightarrow> 'v" where
  "dict_get k v d = (case map_of d k of None \<Rightarrow> v | Some x \<Rightarrow> x)"

text \<open>\<open>d.update(e)\<close>, and \<open>{**d, **e}\<close>: the entries of \<open>e\<close> in order, the later one wins.\<close>

fun dict_update :: "('k, 'v) pydict \<Rightarrow> ('k, 'v) pydict \<Rightarrow> ('k, 'v) pydict" where
  "dict_update d [] = d"
| "dict_update d ((k, v) # e) = dict_update (AList.update k v d) e"

lemma dict_wf_Nil [simp]: "dict_wf []"
  by (simp add: dict_wf_def)

lemma dict_wf_update [simp]: "dict_wf d \<Longrightarrow> dict_wf (AList.update k v d)"
  by (simp add: dict_wf_def distinct_update)

lemma dict_wf_delete [simp]: "dict_wf d \<Longrightarrow> dict_wf (AList.delete k d)"
  by (simp add: dict_wf_def distinct_delete)

lemma set_keys_update [simp]:
  "fst ` set (AList.update k v d) = insert k (fst ` set d)"
  by (simp add: dom_update)

lemma set_update_subset: "set (AList.update k v d) \<subseteq> insert (k, v) (set d)"
  by (induction d) auto

lemma update_fresh: "k \<notin> fst ` set d \<Longrightarrow> AList.update k v d = d @ [(k, v)]"
  by (induction d) auto

lemma delete_filter: "AList.delete k d = filter (\<lambda>e. fst e \<noteq> k) d"
  by (auto simp: AList.delete_eq split_def intro: filter_cong)

lemma delete_absent: "k \<notin> fst ` set d \<Longrightarrow> AList.delete k d = d"
  by simp

lemma delete_snoc_same: "AList.delete k (d @ [(k, v)]) = AList.delete k d"
  by (simp add: delete_filter)

lemma delete_head: "dict_wf ((k, v) # d) \<Longrightarrow> AList.delete k ((k, v) # d) = d"
  by (simp add: dict_wf_def delete_absent)

lemma dict_wf_append_fresh: "dict_wf d \<Longrightarrow> k \<notin> fst ` set d \<Longrightarrow> dict_wf (d @ [(k, v)])"
  by (simp add: dict_wf_def)

lemma delete_key_gone [simp]: "k \<notin> fst ` set (AList.delete k d)"
  by (rule delete_notin_dom)

lemma dict_wf_delete_snoc [simp]: "dict_wf d \<Longrightarrow> dict_wf (AList.delete k d @ [(k, v)])"
  by (rule dict_wf_append_fresh) simp_all

lemma update_snoc_same:
  "k \<notin> fst ` set d \<Longrightarrow> AList.update k v (d @ [(k, w)]) = d @ [(k, v)]"
  by (induction d) auto

lemma suffix_delete: "suffix d e \<Longrightarrow> suffix (AList.delete k d) (AList.delete k e)"
  by (simp add: delete_filter filter_mono_suffix)

lemma dict_update_wf [simp]: "dict_wf d \<Longrightarrow> dict_wf (dict_update d e)"
  by (induction d e rule: dict_update.induct) auto

lemma map_of_dict_update: "map_of (dict_update d e) = map_of d ++ map_of (rev e)"
proof (induction d e rule: dict_update.induct)
  case (2 d k v e)
  then show ?case by (simp add: update_conv' map_add_def fun_eq_iff split: option.split)
qed simp

lemma map_of_dict_update_wf:
  "dict_wf e \<Longrightarrow> map_of (dict_update d e) = map_of d ++ map_of e"
proof -
  assume "dict_wf e"
  then have "map_of (rev e) = map_of e"
    by (intro map_of_inject_set [THEN iffD2]) (auto simp: dict_wf_def rev_map [symmetric])
  then show ?thesis by (simp add: map_of_dict_update)
qed

lemma set_keys_dict_update [simp]:
  "fst ` set (dict_update d e) = fst ` set d \<union> fst ` set e"
  by (induction d e rule: dict_update.induct) auto

definition has_key :: "'k \<Rightarrow> ('k, 'v) pydict \<Rightarrow> bool" where
  "has_key k d \<longleftrightarrow> map_of d k \<noteq> None"

text \<open>\<open>d[k]\<close>, and \<open>d.setdefault(k, v)\<close>.\<close>

definition dict_item :: "string \<Rightarrow> (string, 'v) pydict \<Rightarrow> 'v res" where
  "dict_item k d = (case map_of d k of None \<Rightarrow> Inl (KeyError k) | Some v \<Rightarrow> Inr v)"

definition set_default :: "'k \<times> 'v \<Rightarrow> ('k, 'v) pydict \<Rightarrow> ('k, 'v) pydict" where
  "set_default kv d = (if has_key (fst kv) d then d else d @ [kv])"

lemma has_key_iff [simp]: "has_key k d \<longleftrightarrow> k \<in> fst ` set d"
  by (metis has_key_def map_of_eq_None_iff)

lemma dict_item_eq: "k \<in> fst ` set d \<Longrightarrow> dict_item k d = Inr (the (map_of d k))"
  by (metis dict_item_def has_key_def has_key_iff not_None_eq option.case(2) option.sel)

lemma dict_item_Some [simp]: "map_of d k = Some v \<Longrightarrow> dict_item k d = Inr v"
  by (simp add: dict_item_def)

section \<open>The interface of keyed stores\<close>

text \<open>
  What the code relies on where it keeps a \<open>dict\<close> of things it accumulates: a lookup after
  a store, and the invariant that a key occurs once.
\<close>

locale keyed_store =
  fixes lookup :: "'d \<Rightarrow> 'k \<Rightarrow> 'v option"
    and store :: "'k \<Rightarrow> 'v \<Rightarrow> 'd \<Rightarrow> 'd"
    and remove :: "'k \<Rightarrow> 'd \<Rightarrow> 'd"
    and wf :: "'d \<Rightarrow> bool"
  assumes lookup_store: "lookup (store k v d) = (lookup d)(k \<mapsto> v)"
    and lookup_remove: "lookup (remove k d) = (lookup d)(k := None)"
    and wf_store: "wf d \<Longrightarrow> wf (store k v d)"
    and wf_remove: "wf d \<Longrightarrow> wf (remove k d)"
begin

text \<open>
  Accumulating: \<open>d[k] = f(d.get(k), v)\<close> over a list of pairs. The value of a key is the fold
  of its own values, in their order: other keys do not interfere.
\<close>

definition accumulate :: "('v option \<Rightarrow> 'a \<Rightarrow> 'v) \<Rightarrow> ('k \<times> 'a) list \<Rightarrow> 'd \<Rightarrow> 'd" where
  "accumulate f kvs d = fold (\<lambda>(k, a) d. store k (f (lookup d k) a) d) kvs d"

lemma accumulate_wf: "wf d \<Longrightarrow> wf (accumulate f kvs d)"
  unfolding accumulate_def by (induction kvs arbitrary: d) (auto simp: wf_store)

lemma accumulate_lookup:
  "lookup (accumulate f kvs d) k =
    fold (\<lambda>a s. Some (f s a)) (map snd (filter (\<lambda>p. fst p = k) kvs)) (lookup d k)"
proof (induction kvs arbitrary: d)
  case Nil
  show ?case by (simp add: accumulate_def)
next
  case (Cons p kvs)
  obtain q a where p: "p = (q, a)" by force
  have step: "accumulate f (p # kvs) d = accumulate f kvs (store q (f (lookup d q) a) d)"
    by (simp add: accumulate_def p)
  show ?case unfolding step Cons.IH by (simp add: p lookup_store)
qed

lemma lookup_store_all:
  "lookup (fold (\<lambda>(k, v). store k v) kvs d) k =
    (case map_of (rev kvs) k of None \<Rightarrow> lookup d k | Some v \<Rightarrow> Some v)"
  by (induction kvs arbitrary: d)
    (auto simp: lookup_store map_add_def split: option.splits)

end

interpretation pd: keyed_store map_of AList.update AList.delete dict_wf
  by unfold_locales (simp_all add: update_conv' delete_conv')

end
