(* ===== verification/Lru_Cache.thy ===== *)
theory Lru_Cache
  imports Py_Base
begin

text \<open>
  The class \<open>LruCache\<close> of \<open>study/placement_locality_sim.py\<close>: a size-bounded LRU cache with
  an optional time to live. \<open>lru_entries\<close> is the \<open>OrderedDict\<close>, the least recently used
  entry first; a value is the pair (size, last time stored). Sizes and the capacity are Python
  ints, times are rationals (see the header of the root theory on floats).

  The lemmas show that the accounting of \<open>used_bytes\<close> is exact and the capacity is kept as
  long as a key is always stored with the same size, that one access has the effect of
  \<open>fit\<close> on the recency list, and that a larger cache then holds what a smaller one holds.
  Without that hypothesis the accounting drifts, and \<open>put\<close> may raise \<open>StopIteration\<close>.
\<close>

section \<open>The class\<close>

record 'k lru_cache =
  capacity_bytes :: int
  ttl_seconds :: "rat option"
  lru_entries :: "('k, int \<times> rat) pydict"
  used_bytes :: int

definition new_lru :: "int \<Rightarrow> rat option \<Rightarrow> 'k lru_cache" where
  "new_lru cap ttl =
     \<lparr>capacity_bytes = cap, ttl_seconds = ttl, lru_entries = [], used_bytes = 0\<rparr>"

text \<open>\<open>OrderedDict.move_to_end\<close>, for a key that is present.\<close>

definition move_to_end :: "'k \<Rightarrow> ('k, 'v) pydict \<Rightarrow> ('k, 'v) pydict" where
  "move_to_end k es =
     (case map_of es k of None \<Rightarrow> es | Some v \<Rightarrow> AList.delete k es @ [(k, v)])"

definition lru_evict :: "'k \<Rightarrow> 'k lru_cache \<Rightarrow> 'k lru_cache res" where
  "lru_evict k c =
     (case map_of (lru_entries c) k of
        None \<Rightarrow> Inl (KeyError [])
      | Some (sz, _) \<Rightarrow>
          Inr (c\<lparr>lru_entries := AList.delete k (lru_entries c),
                 used_bytes := used_bytes c - sz\<rparr>))"

definition lru_get :: "'k \<Rightarrow> rat \<Rightarrow> 'k lru_cache \<Rightarrow> (bool \<times> 'k lru_cache) res" where
  "lru_get k now c =
     (case map_of (lru_entries c) k of
        None \<Rightarrow> Inr (False, c)
      | Some (_, last_ts) \<Rightarrow>
          if (case ttl_seconds c of None \<Rightarrow> False | Some ttl \<Rightarrow> ttl < now - last_ts)
          then res_map (\<lambda>c'. (False, c')) (lru_evict k c)
          else Inr (True, c\<lparr>lru_entries := move_to_end k (lru_entries c)\<rparr>))"

text \<open>
  The eviction loop of \<open>put\<close>. \<open>next(iter(self._entries))\<close> raises \<open>StopIteration\<close> on an
  empty dict. Every round removes the first entry, so the loop stops.
\<close>

lemma lru_evict_length:
  assumes "lru_entries c = (k, v) # es" and "lru_evict k c = Inr c'"
  shows "length (lru_entries c') \<le> length es"
proof -
  have "lru_entries c' = AList.delete k (lru_entries c)"
    using assms(2) by (auto simp: lru_evict_def split: option.splits)
  then show ?thesis using length_delete_le [of k es] assms(1) by simp
qed

function lru_make_room :: "int \<Rightarrow> 'k lru_cache \<Rightarrow> 'k lru_cache res" where
  "lru_make_room size_b c =
     (if capacity_bytes c < used_bytes c + size_b
      then (case lru_entries c of
              [] \<Rightarrow> Inl StopIteration
            | (k, _) # _ \<Rightarrow>
                (case lru_evict k c of
                   Inl e \<Rightarrow> Inl e
                 | Inr c' \<Rightarrow> lru_make_room size_b c'))
      else Inr c)"
  by pat_completeness auto
termination
  by (relation "measure (\<lambda>(_, c). length (lru_entries c))") (auto dest: lru_evict_length simp: less_Suc_eq_le)

declare lru_make_room.simps [simp del]

definition lru_put :: "'k \<Rightarrow> int \<Rightarrow> rat \<Rightarrow> 'k lru_cache \<Rightarrow> 'k lru_cache res" where
  "lru_put k size_b now c =
     (if k \<in> fst ` set (lru_entries c)
      then Inr (c\<lparr>lru_entries :=
                    AList.update k (size_b, now) (move_to_end k (lru_entries c))\<rparr>)
      else if capacity_bytes c < size_b then Inr c
      else res_map (\<lambda>c'. c'\<lparr>lru_entries := AList.update k (size_b, now) (lru_entries c'),
                              used_bytes := used_bytes c' + size_b\<rparr>)
             (lru_make_room size_b c))"

text \<open>What both simulators do with a cache for one item: look it up, then store it.\<close>

definition lru_access :: "'k \<Rightarrow> int \<Rightarrow> rat \<Rightarrow> 'k lru_cache \<Rightarrow> (bool \<times> 'k lru_cache) res" where
  "lru_access k size_b now c =
     res_bind (lru_get k now c) (\<lambda>(hit, c1).
       res_map (\<lambda>c2. (hit, c2)) (lru_put k size_b now c1))"

section \<open>The invariant\<close>

definition entry_bytes :: "('k, int \<times> rat) pydict \<Rightarrow> int" where
  "entry_bytes es = sum_list (map (fst \<circ> snd) es)"

definition lru_inv :: "'k lru_cache \<Rightarrow> bool" where
  "lru_inv c \<longleftrightarrow> dict_wf (lru_entries c) \<and> used_bytes c = entry_bytes (lru_entries c) \<and>
     used_bytes c \<le> capacity_bytes c"

text \<open>Every entry has the size the function \<open>sz\<close> gives its key.\<close>

definition sized :: "('k \<Rightarrow> int) \<Rightarrow> ('k, int \<times> rat) pydict \<Rightarrow> bool" where
  "sized sz es \<longleftrightarrow> (\<forall>(k, s, t) \<in> set es. s = sz k)"

lemma entry_bytes_simps [simp]:
  "entry_bytes [] = 0"
  "entry_bytes ((k, s, t) # es) = s + entry_bytes es"
  "entry_bytes (es @ fs) = entry_bytes es + entry_bytes fs"
  by (simp_all add: entry_bytes_def)

lemma entry_bytes_delete:
  "dict_wf es \<Longrightarrow> map_of es k = Some (s, t) \<Longrightarrow>
    entry_bytes (AList.delete k es) = entry_bytes es - s"
proof (induction es)
  case (Cons e es)
  obtain k' s' t' where e: "e = (k', s', t')" by (cases e) auto
  have wf: "dict_wf es" using Cons.prems by (simp add: dict_wf_def)
  show ?case
  proof (cases "k' = k")
    case True
    then have "k \<notin> fst ` set es" using Cons.prems by (auto simp: dict_wf_def e)
    then show ?thesis using True Cons.prems by (simp add: e delete_absent)
  next
    case False
    then show ?thesis using Cons.IH [OF wf] Cons.prems by (simp add: e)
  qed
qed simp

lemma sized_simps [simp]:
  "sized sz []"
  "sized sz ((k, s, t) # es) \<longleftrightarrow> s = sz k \<and> sized sz es"
  "sized sz (es @ fs) \<longleftrightarrow> sized sz es \<and> sized sz fs"
  by (auto simp: sized_def split: prod.splits)

lemma sized_delete [simp]: "sized sz es \<Longrightarrow> sized sz (AList.delete k es)"
  by (auto simp: sized_def delete_filter)

lemma sized_map_of: "sized sz es \<Longrightarrow> map_of es k = Some (s, t) \<Longrightarrow> s = sz k"
  by (auto simp: sized_def dest: map_of_SomeD)


section \<open>One access, as a function of the recency list\<close>

text \<open>
  \<open>fit cap es\<close> drops entries from the least recently used end until the rest fits. An access
  moves or adds the key at the recent end and then fits the list into the capacity: this is
  the abstract cache that \<open>get\<close> followed by \<open>put\<close> refines.
\<close>

fun fit :: "int \<Rightarrow> ('k, int \<times> rat) pydict \<Rightarrow> ('k, int \<times> rat) pydict" where
  "fit cap [] = []"
| "fit cap (e # es) = (if entry_bytes (e # es) \<le> cap then e # es else fit cap es)"

definition lru_fresh :: "'k \<Rightarrow> rat \<Rightarrow> 'k lru_cache \<Rightarrow> bool" where
  "lru_fresh k now c =
     (case map_of (lru_entries c) k of
        None \<Rightarrow> False
      | Some (_, t) \<Rightarrow> (case ttl_seconds c of None \<Rightarrow> True | Some ttl \<Rightarrow> now - t \<le> ttl))"

definition touch :: "'k \<Rightarrow> int \<Rightarrow> rat \<Rightarrow> 'k lru_cache \<Rightarrow> 'k lru_cache" where
  "touch k s now c =
     (let es = fit (capacity_bytes c) (AList.delete k (lru_entries c) @ [(k, s, now)])
      in c\<lparr>lru_entries := es, used_bytes := entry_bytes es\<rparr>)"

lemma fit_id [simp]: "entry_bytes es \<le> cap \<Longrightarrow> fit cap es = es"
  by (cases es) auto

lemma fit_suffix: "suffix (fit cap es) es"
  by (induction es) (auto intro: suffix_ConsI)

lemma fit_subset: "x \<in> set (fit cap es) \<Longrightarrow> x \<in> set es"
  using set_mono_suffix [OF fit_suffix] by blast

lemma fit_snoc_fits:
  "s \<le> cap \<Longrightarrow> \<exists>es'. fit cap (es @ [(k, s, t)]) = es' @ [(k, s, t)] \<and> suffix es' es"
proof (induction es)
  case (Cons e es)
  then obtain es' where es': "fit cap (es @ [(k, s, t)]) = es' @ [(k, s, t)]" "suffix es' es"
    by auto
  show ?case
  proof (cases "entry_bytes (e # es @ [(k, s, t)]) \<le> cap")
    case True
    then show ?thesis by auto
  next
    case False
    then show ?thesis using es' by (auto intro: suffix_ConsI)
  qed
qed simp

lemma fit_snoc_le: "s \<le> cap \<Longrightarrow> entry_bytes (fit cap (es @ [(k, s, t)])) \<le> cap"
  by (induction es) auto

lemma fit_largest:
  assumes "\<And>k s t. (k, s, t) \<in> set es \<Longrightarrow> 0 \<le> s"
    and "suffix fs es" and "entry_bytes fs \<le> cap"
  shows "suffix fs (fit cap es)"
  using assms
proof (induction es)
  case (Cons e es)
  show ?case
  proof (cases "entry_bytes (e # es) \<le> cap")
    case True
    then show ?thesis using Cons.prems(2) by simp
  next
    case False
    then have "fs \<noteq> e # es" using Cons.prems(3) by auto
    then have "suffix fs es" using Cons.prems(2) by (auto simp: suffix_Cons)
    then show ?thesis using False Cons.IH Cons.prems(1,3) by (auto simp del: fit.simps simp: fit.simps(2))
  qed
qed simp

text \<open>The eviction loop computes \<open>fit\<close>, and never finds the dict empty.\<close>

lemma make_room_fit:
  assumes "dict_wf (lru_entries c)" and "used_bytes c = entry_bytes (lru_entries c)"
    and "s \<le> capacity_bytes c"
  shows "\<exists>es'. lru_make_room s c = Inr (c\<lparr>lru_entries := es', used_bytes := entry_bytes es'\<rparr>) \<and>
           fit (capacity_bytes c) (lru_entries c @ [(k, s, t)]) = es' @ [(k, s, t)] \<and>
           suffix es' (lru_entries c)"
  using assms
proof (induction "lru_entries c" arbitrary: c)
  case Nil
  then have "lru_make_room s c = Inr (c\<lparr>lru_entries := [], used_bytes := entry_bytes []\<rparr>)"
    by (subst lru_make_room.simps) simp
  then show ?case using Nil by (metis append_Nil fit_id entry_bytes_simps(1,2) add_0_right suffix_bot.extremum)
next
  case (Cons e es)
  obtain q b u where e: "e = (q, b, u)" by (cases e) auto
  note es = Cons.hyps(2) [symmetric, unfolded e]
  show ?case
  proof (cases "capacity_bytes c < used_bytes c + s")
    case False
    then have "lru_make_room s c = Inr c" by (subst lru_make_room.simps) simp
    moreover have "c = c\<lparr>lru_entries := lru_entries c, used_bytes := entry_bytes (lru_entries c)\<rparr>"
      using Cons.prems(2) by simp
    moreover have "fit (capacity_bytes c) (lru_entries c @ [(k, s, t)]) = lru_entries c @ [(k, s, t)]"
      using False Cons.prems(2) by simp
    ultimately show ?thesis by (metis suffix_order.order_refl)
  next
    case True
    let ?c = "c\<lparr>lru_entries := es, used_bytes := used_bytes c - b\<rparr>"
    have "lru_evict q c = Inr ?c"
      using Cons.prems(1) by (simp add: lru_evict_def es dict_wf_def delete_absent)
    then have step: "lru_make_room s c = lru_make_room s ?c"
      using True by (subst lru_make_room.simps) (simp add: es)
    have "dict_wf es" "used_bytes ?c = entry_bytes es"
      using Cons.prems by (simp_all add: es dict_wf_def)
    then obtain es' where es': "lru_make_room s ?c = Inr (?c\<lparr>lru_entries := es', used_bytes := entry_bytes es'\<rparr>)"
        "fit (capacity_bytes c) (es @ [(k, s, t)]) = es' @ [(k, s, t)]" "suffix es' es"
      using Cons.hyps(1) [of ?c] Cons.prems(3) by auto
    moreover have "fit (capacity_bytes c) (lru_entries c @ [(k, s, t)]) = es' @ [(k, s, t)]"
      using True es'(2) Cons.prems(2) by (simp add: es)
    ultimately show ?thesis using step by (auto simp: es intro: suffix_ConsI)
  qed
qed

section \<open>Lookup and store\<close>

definition stored_as :: "'k \<Rightarrow> int \<Rightarrow> 'k lru_cache \<Rightarrow> bool" where
  "stored_as k s c \<longleftrightarrow> (case map_of (lru_entries c) k of None \<Rightarrow> True | Some (s', _) \<Rightarrow> s' = s)"

lemma lru_inv_new [simp]: "0 \<le> cap \<Longrightarrow> lru_inv (new_lru cap ttl)"
  by (simp add: lru_inv_def new_lru_def)

lemma lru_put_absent:
  assumes "dict_wf (lru_entries c)" and "used_bytes c = entry_bytes (lru_entries c)"
    and "k \<notin> fst ` set (lru_entries c)" and "s \<le> capacity_bytes c"
  shows "lru_put k s now c = Inr (touch k s now c)"
proof -
  obtain es' where es': "lru_make_room s c = Inr (c\<lparr>lru_entries := es', used_bytes := entry_bytes es'\<rparr>)"
      "fit (capacity_bytes c) (lru_entries c @ [(k, s, now)]) = es' @ [(k, s, now)]"
      "suffix es' (lru_entries c)"
    using make_room_fit [OF assms(1,2,4)] by blast
  have "k \<notin> fst ` set es'" using assms(3) set_mono_suffix [OF es'(3)] by auto
  then show ?thesis
    using es' assms(3,4) by (simp add: lru_put_def touch_def Let_def update_fresh delete_absent)
qed

lemma lru_put_too_big:
  "k \<notin> fst ` set (lru_entries c) \<Longrightarrow> capacity_bytes c < s \<Longrightarrow> lru_put k s now c = Inr c"
  by (simp add: lru_put_def)

lemma entry_bytes_move:
  "dict_wf es \<Longrightarrow> map_of es k = Some (s, t) \<Longrightarrow>
    entry_bytes (AList.delete k es @ [(k, s, now)]) = entry_bytes es"
  by (simp add: entry_bytes_delete)

lemma touch_present:
  assumes "lru_inv c" and "map_of (lru_entries c) k = Some (s, t)"
  shows "touch k s now c = c\<lparr>lru_entries := AList.delete k (lru_entries c) @ [(k, s, now)]\<rparr>"
proof -
  have "entry_bytes (AList.delete k (lru_entries c) @ [(k, s, now)]) = used_bytes c"
    using entry_bytes_move [OF _ assms(2)] assms(1) by (simp add: lru_inv_def)
  then show ?thesis using assms(1) by (simp add: touch_def lru_inv_def Let_def)
qed

lemma lru_put_present:
  assumes "map_of (lru_entries c) k = Some v"
  shows "lru_put k s now c =
           Inr (c\<lparr>lru_entries := AList.delete k (lru_entries c) @ [(k, s, now)]\<rparr>)"
proof -
  have "k \<in> fst ` set (lru_entries c)"
    using assms by (force dest: map_of_SomeD)
  then show ?thesis
    by (simp add: lru_put_def move_to_end_def assms update_snoc_same)
qed

lemma lru_get_absent: "map_of (lru_entries c) k = None \<Longrightarrow> lru_get k now c = Inr (False, c)"
  by (simp add: lru_get_def)

lemma lru_get_fresh:
  "map_of (lru_entries c) k = Some (s, t) \<Longrightarrow> lru_fresh k now c \<Longrightarrow>
    lru_get k now c =
      Inr (True, c\<lparr>lru_entries := AList.delete k (lru_entries c) @ [(k, s, t)]\<rparr>)"
  by (auto simp: lru_get_def lru_fresh_def move_to_end_def split: option.splits)

lemma lru_get_stale:
  "map_of (lru_entries c) k = Some (s, t) \<Longrightarrow> \<not> lru_fresh k now c \<Longrightarrow>
    lru_get k now c =
      Inr (False, c\<lparr>lru_entries := AList.delete k (lru_entries c), used_bytes := used_bytes c - s\<rparr>)"
  by (auto simp: lru_get_def lru_fresh_def lru_evict_def split: option.splits)

text \<open>An access of an item that fits refines \<open>touch\<close>, and hits exactly a fresh entry.\<close>

lemma lru_access_touch:
  assumes inv: "lru_inv c" and same: "stored_as k s c" and fits: "s \<le> capacity_bytes c"
  shows "lru_access k s now c = Inr (lru_fresh k now c, touch k s now c)"
proof (cases "map_of (lru_entries c) k")
  case None
  then have absent: "k \<notin> fst ` set (lru_entries c)" by (simp add: map_of_eq_None_iff)
  then show ?thesis
    using None inv fits
    by (simp add: lru_access_def lru_get_absent lru_put_absent lru_inv_def lru_fresh_def)
next
  case (Some v)
  obtain t where v: "map_of (lru_entries c) k = Some (s, t)"
    using Some same by (cases v) (auto simp: stored_as_def)
  show ?thesis
  proof (cases "lru_fresh k now c")
    case True
    let ?c = "c\<lparr>lru_entries := AList.delete k (lru_entries c) @ [(k, s, t)]\<rparr>"
    have "map_of (lru_entries ?c) k = Some (s, t)"
      by (simp add: map_add_def delete_conv')
    then have "lru_put k s now ?c = Inr (touch k s now c)"
      by (simp add: lru_put_present touch_present [OF inv v] delete_snoc_same)
    then show ?thesis
      using True by (simp add: lru_access_def lru_get_fresh [OF v])
  next
    case False
    let ?c = "c\<lparr>lru_entries := AList.delete k (lru_entries c), used_bytes := used_bytes c - s\<rparr>"
    have "entry_bytes (AList.delete k (lru_entries c)) = used_bytes c - s"
      using entry_bytes_delete [OF _ v] inv by (simp add: lru_inv_def)
    then have "lru_put k s now ?c = Inr (touch k s now ?c)"
      using inv fits by (intro lru_put_absent) (simp_all add: lru_inv_def)
    moreover have "touch k s now ?c = touch k s now c"
      by (simp add: touch_def Let_def)
    ultimately show ?thesis
      using False by (simp add: lru_access_def lru_get_stale [OF v])
  qed
qed

lemma lru_access_too_big:
  "map_of (lru_entries c) k = None \<Longrightarrow> capacity_bytes c < s \<Longrightarrow>
    lru_access k s now c = Inr (False, c)"
  by (simp add: lru_access_def lru_get_absent lru_put_too_big map_of_eq_None_iff)

section \<open>Preservation of the invariant\<close>

lemma touch_inv:
  assumes "lru_inv c" and "s \<le> capacity_bytes c"
  shows "lru_inv (touch k s now c)"
proof -
  let ?es = "AList.delete k (lru_entries c) @ [(k, s, now)]"
  have "dict_wf (fit (capacity_bytes c) ?es)"
  proof -
    have "dict_wf (lru_entries c)" using assms(1) by (simp add: lru_inv_def)
    then have "dict_wf ?es" by (rule dict_wf_delete_snoc)
    then show ?thesis
      unfolding dict_wf_def by (rule distinct_suffix) (rule map_mono_suffix, rule fit_suffix)
  qed
  moreover have "entry_bytes (fit (capacity_bytes c) ?es) \<le> capacity_bytes c"
    by (rule fit_snoc_le) (rule assms(2))
  ultimately show ?thesis by (simp add: touch_def lru_inv_def Let_def)
qed


lemma touch_fields [simp]:
  "capacity_bytes (touch k s now c) = capacity_bytes c"
  "ttl_seconds (touch k s now c) = ttl_seconds c"
  by (simp_all add: touch_def Let_def)

lemma touch_sized:
  assumes "sized sz (lru_entries c)"
  shows "sized sz (lru_entries (touch k (sz k) now c))"
proof -
  have "sized sz (AList.delete k (lru_entries c) @ [(k, sz k, now)])"
    using assms by simp
  then show ?thesis
    unfolding touch_def Let_def sized_def by (fastforce dest: fit_subset)
qed

lemma sized_stored_as: "sized sz (lru_entries c) \<Longrightarrow> stored_as k (sz k) c"
  by (auto simp: stored_as_def split: option.splits dest: sized_map_of)

text \<open>
  The invariant of a cache whose keys have the sizes \<open>sz\<close>, which are not negative: the
  accounting is exact and the capacity kept.
\<close>

definition cache_ok :: "('k \<Rightarrow> int) \<Rightarrow> 'k lru_cache \<Rightarrow> bool" where
  "cache_ok sz c \<longleftrightarrow> lru_inv c \<and> sized sz (lru_entries c)"

lemma cache_ok_new [simp]: "0 \<le> cap \<Longrightarrow> cache_ok sz (new_lru cap ttl)"
  by (simp add: cache_ok_def) (simp add: new_lru_def)

lemma entry_bytes_nonneg: "(\<And>k. 0 \<le> sz k) \<Longrightarrow> sized sz es \<Longrightarrow> 0 \<le> entry_bytes es"
  by (induction es) (auto split: prod.splits)

lemma entry_le_bytes:
  assumes "\<And>k. 0 \<le> sz k" and "sized sz es" and "k \<in> fst ` set es"
  shows "sz k \<le> entry_bytes es"
  using assms(2,3)
proof (induction es)
  case (Cons e es)
  then show ?case
    using assms(1) [of "fst e"] entry_bytes_nonneg [of sz es, OF assms(1)]
    by (cases e) (auto, force)
qed simp

text \<open>An access never raises; it keeps the invariant, and the capacity and the limits.\<close>

lemma lru_access_ok:
  assumes nonneg: "\<And>k. 0 \<le> sz k" and ok: "cache_ok sz c"
  shows "\<exists>c'. lru_access k (sz k) now c = Inr (lru_fresh k now c, c') \<and> cache_ok sz c' \<and>
           capacity_bytes c' = capacity_bytes c \<and> ttl_seconds c' = ttl_seconds c"
proof (cases "sz k \<le> capacity_bytes c")
  case True
  then show ?thesis
    using ok lru_access_touch [of c k "sz k" now] touch_inv [of c "sz k" k now]
    by (auto simp: cache_ok_def sized_stored_as touch_sized)
next
  case False
  have "k \<notin> fst ` set (lru_entries c)"
    using entry_le_bytes [of sz "lru_entries c" k, OF nonneg] ok False
    by (auto simp: cache_ok_def lru_inv_def)
  then have "map_of (lru_entries c) k = None" by (simp add: map_of_eq_None_iff)
  then show ?thesis
    using ok False by (simp add: lru_access_too_big lru_fresh_def)
qed

section \<open>Inclusion: a larger cache holds what a smaller one holds\<close>

text \<open>
  The recency lists of two caches that saw the same accesses: the smaller one's is a suffix
  of the larger one's, as long as every item fits in the smaller cache.
\<close>

definition included :: "'k lru_cache \<Rightarrow> 'k lru_cache \<Rightarrow> bool" where
  "included c d \<longleftrightarrow> suffix (lru_entries c) (lru_entries d) \<and>
     capacity_bytes c \<le> capacity_bytes d \<and> ttl_seconds c = ttl_seconds d"

lemma included_map_of:
  assumes "included c d" and "dict_wf (lru_entries d)"
    and "map_of (lru_entries c) k = Some v"
  shows "map_of (lru_entries d) k = Some v"
proof -
  have "(k, v) \<in> set (lru_entries d)"
    using assms(1,3) set_mono_suffix by (fastforce simp: included_def dest: map_of_SomeD)
  then show ?thesis using assms(2) by (simp add: dict_wf_def)
qed

lemma included_fresh:
  assumes "included c d" and "dict_wf (lru_entries d)" and "lru_fresh k now c"
  shows "lru_fresh k now d"
proof -
  obtain v where v: "map_of (lru_entries c) k = Some v"
    using assms(3) by (cases "map_of (lru_entries c) k") (auto simp: lru_fresh_def)
  then show ?thesis
    using included_map_of [OF assms(1,2) v] assms(1,3) by (simp add: lru_fresh_def included_def)
qed

lemma included_touch:
  assumes inc: "included c d" and "cache_ok sz d" and nonneg: "\<And>k. 0 \<le> sz k"
    and fits: "sz k \<le> capacity_bytes c"
  shows "included (touch k (sz k) now c) (touch k (sz k) now d)"
proof -
  let ?x = "[(k, sz k, now)]"
  let ?ec = "AList.delete k (lru_entries c) @ ?x" and ?ed = "AList.delete k (lru_entries d) @ ?x"
  have suf: "suffix ?ec ?ed"
    using inc by (simp add: included_def suffix_delete)
  have "suffix (fit (capacity_bytes c) ?ec) ?ed"
    using fit_suffix suf by (rule suffix_order.order_trans)
  moreover have "entry_bytes (fit (capacity_bytes c) ?ec) \<le> capacity_bytes d"
    using fit_snoc_le [OF fits] inc unfolding included_def by (meson order_trans)
  moreover have "0 \<le> s" if "(q, s, t) \<in> set ?ed" for q s t
    using that assms(2) nonneg by (auto simp: cache_ok_def sized_def delete_filter)
  ultimately have "suffix (fit (capacity_bytes c) ?ec) (fit (capacity_bytes d) ?ed)"
    by (intro fit_largest) auto
  then show ?thesis using inc by (simp add: included_def touch_def Let_def)
qed


section \<open>What the entries record\<close>

text \<open>
  With no hypothesis on sizes: every entry of a cache was stored by some \<open>put\<close> of its key at
  its time, and a hit is of an entry that is still fresh.
\<close>

definition recorded_entries :: "'k lru_cache \<Rightarrow> ('k \<times> rat) set" where
  "recorded_entries c = (\<lambda>(k, s, t). (k, t)) ` set (lru_entries c)"

definition live :: "'k lru_cache \<Rightarrow> rat \<Rightarrow> rat \<Rightarrow> bool" where
  "live c now t \<longleftrightarrow> (case ttl_seconds c of None \<Rightarrow> True | Some ttl \<Rightarrow> now - t \<le> ttl)"

definition records_at_most :: "('k \<times> rat) set \<Rightarrow> 'k lru_cache \<Rightarrow> 'k lru_cache \<Rightarrow> bool" where
  "records_at_most new c c' \<longleftrightarrow> recorded_entries c' \<subseteq> new \<union> recorded_entries c \<and> ttl_seconds c' = ttl_seconds c"

lemma records_at_mostI:
  assumes "set (lru_entries c') \<subseteq> X \<union> set (lru_entries c)" and "ttl_seconds c' = ttl_seconds c"
    and "(\<lambda>(k, s, t). (k, t)) ` X \<subseteq> new"
  shows "records_at_most new c c'"
  using image_mono [OF assms(1), of "\<lambda>(k, s, t). (k, t)"] assms(2,3)
  unfolding records_at_most_def recorded_entries_def image_Un by blast

lemma records_at_most_trans:
  "records_at_most A c d \<Longrightarrow> records_at_most B d e \<Longrightarrow> records_at_most (A \<union> B) c e"
  by (auto simp: records_at_most_def)

lemma lru_evict_records: "lru_evict k c = Inr c' \<Longrightarrow> records_at_most {} c c'"
  by (rule records_at_mostI [where X = "{}"])
    (auto simp: lru_evict_def delete_filter split: option.splits)

lemma lru_make_room_records: "lru_make_room s c = Inr c' \<Longrightarrow> records_at_most {} c c'"
proof (induction s c rule: lru_make_room.induct)
  case (1 s c)
  show ?case
  proof (cases "capacity_bytes c < used_bytes c + s")
    case False
    then show ?thesis using "1.prems" by (auto simp: lru_make_room.simps [of s c] records_at_most_def)
  next
    case True
    then obtain k v es d where d: "lru_entries c = (k, v) # es" "lru_evict k c = Inr d"
        "lru_make_room s d = Inr c'"
      using "1.prems" by (auto simp: lru_make_room.simps [of s c] split: list.splits sum.splits)
    then have "records_at_most {} d c'" using "1.IH" [OF True] by auto
    then show ?thesis using records_at_most_trans [OF lru_evict_records [OF d(2)]] by simp
  qed
qed

lemma move_to_end_set: "set (move_to_end k es) \<subseteq> set es"
  by (auto simp: move_to_end_def delete_filter split: option.splits dest: map_of_SomeD)

lemma lru_get_records: "lru_get k now c = Inr (h, c') \<Longrightarrow> records_at_most {} c c'"
proof -
  assume *: "lru_get k now c = Inr (h, c')"
  consider "c' = c" | "lru_evict k c = Inr c'"
    | "c' = c\<lparr>lru_entries := move_to_end k (lru_entries c)\<rparr>"
    using * by (auto simp: lru_get_def res_bind_eq_Inr split: option.splits if_splits)
  then show ?thesis
  proof cases
    case 2
    then show ?thesis by (rule lru_evict_records)
  next
    case 3
    then show ?thesis
      using move_to_end_set [of k "lru_entries c"]
      by (intro records_at_mostI [where X = "{}"]) simp_all
  qed (simp add: records_at_most_def)
qed

lemma lru_put_records: "lru_put k s now c = Inr c' \<Longrightarrow> records_at_most {(k, now)} c c'"
proof -
  assume *: "lru_put k s now c = Inr c'"
  consider "c' = c\<lparr>lru_entries := AList.update k (s, now) (move_to_end k (lru_entries c))\<rparr>"
    | "c' = c"
    | d where "lru_make_room s c = Inr d"
        "c' = d\<lparr>lru_entries := AList.update k (s, now) (lru_entries d), used_bytes := used_bytes d + s\<rparr>"
    using * by (auto simp: lru_put_def res_bind_eq_Inr split: if_splits)
  then show ?thesis
  proof cases
    case 1
    then show ?thesis
      using set_update_subset [of k "(s, now)" "move_to_end k (lru_entries c)"]
        move_to_end_set [of k "lru_entries c"]
      by (intro records_at_mostI [where X = "{(k, s, now)}"]) auto
  next
    case (3 d)
    have "records_at_most {(k, now)} d c'"
      using set_update_subset [of k "(s, now)" "lru_entries d"]
      by (intro records_at_mostI [where X = "{(k, s, now)}"]) (auto simp: 3(2))
    then show ?thesis
      using records_at_most_trans [OF lru_make_room_records [OF 3(1)]] by simp
  qed (auto simp: records_at_most_def)
qed

lemma lru_access_records:
  assumes "lru_access k s now c = Inr (h, c')"
  shows "records_at_most {(k, now)} c c'" and "h \<Longrightarrow> \<exists>t. (k, t) \<in> recorded_entries c \<and> live c now t"
proof -
  obtain d where d: "lru_get k now c = Inr (h, d)" "lru_put k s now d = Inr c'"
    using assms by (auto simp: lru_access_def res_bind_eq_Inr)
  show "records_at_most {(k, now)} c c'"
    using records_at_most_trans [OF lru_get_records [OF d(1)] lru_put_records [OF d(2)]] by simp
  assume h
  then obtain b t where "map_of (lru_entries c) k = Some (b, t)" "live c now t"
    using d(1) by (auto simp: lru_get_def live_def res_bind_eq_Inr split: option.splits if_splits)
  then show "\<exists>t. (k, t) \<in> recorded_entries c \<and> live c now t"
    by (force simp: recorded_entries_def dest: map_of_SomeD)
qed

section \<open>What happens when a key comes back with another size\<close>

text \<open>
  \<open>put\<close> of a present key stores the new size but leaves \<open>used_bytes\<close> alone: the counter is
  then off by the difference.
\<close>

lemma lru_put_resize:
  assumes "lru_inv c" and "map_of (lru_entries c) k = Some (s, t)"
    and "lru_put k s' now c = Inr c'"
  shows "used_bytes c' - entry_bytes (lru_entries c') = s - s'"
proof -
  have c': "lru_entries c' = AList.delete k (lru_entries c) @ [(k, s', now)]"
      "used_bytes c' = used_bytes c"
    using assms(3) by (auto simp: lru_put_present [OF assms(2)])
  then show ?thesis
    using assms(1) entry_bytes_delete [OF _ assms(2)] by (simp add: lru_inv_def)
qed

end
