(* ===== verification/Replay.thy ===== *)
theory Replay
  imports Lru_Cache
begin

text \<open>
  Both simulators replay a log through one cache per node, each made the first time its node
  occurs. \<open>run_nodes\<close> is that loop over any cache. The locale \<open>replay_cache\<close> states what the
  loop needs of a cache (an access that keeps its invariant, and monotonicity in an order on
  caches), and proves once that the loop never raises, that a node sees only its own part of
  the log, and that a larger cache loses no hit. It is interpreted on the LRU cache.
\<close>

type_synonym ('n, 'k) item = "'n \<times> 'k \<times> int \<times> rat"

definition node_cache :: "'c \<Rightarrow> ('n \<rightharpoonup> 'c) \<Rightarrow> 'n \<Rightarrow> 'c" where
  "node_cache new caches n = (case caches n of None \<Rightarrow> new | Some c \<Rightarrow> c)"

fun run_nodes ::
  "('k \<Rightarrow> int \<Rightarrow> rat \<Rightarrow> 'c \<Rightarrow> (bool \<times> 'c) res) \<Rightarrow> 'c \<Rightarrow> ('n, 'k) item list \<Rightarrow> ('n \<rightharpoonup> 'c) \<Rightarrow> bool list res"
where
  "run_nodes access new [] caches = Inr []"
| "run_nodes access new ((n, k, s, t) # items) caches =
     res_bind (access k s t (node_cache new caches n)) (\<lambda>(hit, c).
       res_map (\<lambda>hs. hit # hs) (run_nodes access new items (caches(n \<mapsto> c))))"

text \<open>One cache, and the part of the log that is its own.\<close>

fun run_one ::
  "('k \<Rightarrow> int \<Rightarrow> rat \<Rightarrow> 'c \<Rightarrow> (bool \<times> 'c) res) \<Rightarrow> ('k \<times> int \<times> rat) list \<Rightarrow> 'c \<Rightarrow> bool list res"
where
  "run_one access [] c = Inr []"
| "run_one access ((k, s, t) # items) c =
     res_bind (access k s t c) (\<lambda>(hit, c'). res_map (\<lambda>hs. hit # hs) (run_one access items c'))"

definition own_items :: "'n \<Rightarrow> ('n, 'k) item list \<Rightarrow> ('k \<times> int \<times> rat) list" where
  "own_items n items = map snd (filter (\<lambda>i. fst i = n) items)"

definition own_hits :: "'n \<Rightarrow> ('n, 'k) item list \<Rightarrow> bool list \<Rightarrow> bool list" where
  "own_hits n items hs = map snd (filter (\<lambda>(i, h). fst i = n) (zip items hs))"

text \<open>Every item has the size that \<open>sz\<close> gives its key.\<close>

definition sized_items :: "('k \<Rightarrow> int) \<Rightarrow> ('n, 'k) item list \<Rightarrow> bool" where
  "sized_items sz items \<longleftrightarrow> (\<forall>(n, k, s, t) \<in> set items. s = sz k)"

definition fitting :: "int \<Rightarrow> ('n, 'k) item list \<Rightarrow> bool" where
  "fitting cap items \<longleftrightarrow> (\<forall>(n, k, s, t) \<in> set items. s \<le> cap)"

lemma node_cache_upd: "node_cache new (caches(n \<mapsto> c)) m = (if m = n then c else node_cache new caches m)"
  by (simp add: node_cache_def)

lemma own_simps:
  "own_items n [] = []"
  "own_items n ((m, i) # items) = (if m = n then i # own_items n items else own_items n items)"
  "own_hits n [] hs = []"
  "own_hits n ((m, i) # items) (h # hs) =
     (if m = n then h # own_hits n items hs else own_hits n items hs)"
  by (simp_all add: own_items_def own_hits_def)

lemma run_nodes_length: "run_nodes access new items caches = Inr hs \<Longrightarrow> length hs = length items"
  by (induction access new items caches arbitrary: hs rule: run_nodes.induct)
    (auto simp: res_bind_eq_Inr split: prod.splits)

text \<open>Nodes do not interfere: the hits of a node are those of its own cache on its own items.\<close>

lemma run_nodes_own:
  assumes "run_nodes access new items caches = Inr hs"
  shows "run_one access (own_items n items) (node_cache new caches n) = Inr (own_hits n items hs)"
  using assms
proof (induction access new items caches arbitrary: hs rule: run_nodes.induct)
  case (1 access new caches)
  then show ?case by (simp add: own_simps)
next
  case (2 access new m k s t items caches)
  obtain hit c where hit: "access k s t (node_cache new caches m) = Inr (hit, c)"
    using "2.prems" by (auto simp: res_bind_eq_Inr)
  obtain hs' where hs': "run_nodes access new items (caches(m \<mapsto> c)) = Inr hs'" "hs = hit # hs'"
    using "2.prems" hit by (auto simp: res_bind_eq_Inr)
  have "run_one access (own_items n items) (node_cache new (caches(m \<mapsto> c)) n) = Inr (own_hits n items hs')"
    by (rule "2.IH" [OF hs'(1)])
  then show ?case
    using hit hs'(2) by (cases "m = n") (simp_all add: own_simps node_cache_upd)
qed

locale replay_cache =
  fixes access :: "'k \<Rightarrow> int \<Rightarrow> rat \<Rightarrow> 'c \<Rightarrow> (bool \<times> 'c) res"
    and ok :: "('k \<Rightarrow> int) \<Rightarrow> 'c \<Rightarrow> bool"
    and below :: "'c \<Rightarrow> 'c \<Rightarrow> bool"
    and room :: "'c \<Rightarrow> int"
  assumes access_ok: "(\<And>k. 0 \<le> sz k) \<Longrightarrow> ok sz c \<Longrightarrow>
      \<exists>h c'. access k (sz k) t c = Inr (h, c') \<and> ok sz c' \<and> room c' = room c"
    and access_below: "(\<And>k. 0 \<le> sz k) \<Longrightarrow> ok sz c \<Longrightarrow> ok sz d \<Longrightarrow> below c d \<Longrightarrow> sz k \<le> room c \<Longrightarrow>
      access k (sz k) t c = Inr (h, c') \<Longrightarrow> access k (sz k) t d = Inr (h', d') \<Longrightarrow>
      (h \<longrightarrow> h') \<and> below c' d'"
begin

lemma run_nodes_total:
  assumes nonneg: "\<And>k. 0 \<le> sz k" and "sized_items sz items" and "\<And>n. ok sz (node_cache new caches n)"
  shows "\<exists>hs. run_nodes access new items caches = Inr hs"
  using assms(2,3)
proof (induction items arbitrary: caches)
  case Nil
  show ?case by simp
next
  case (Cons i items)
  obtain n k s t where i: "i = (n, k, s, t)" by (cases i) auto
  have s: "s = sz k" using Cons.prems(1) by (simp add: sized_items_def i)
  obtain h c where step: "access k s t (node_cache new caches n) = Inr (h, c)" "ok sz c"
    using access_ok [OF nonneg Cons.prems(2) [of n], of k t] unfolding s by blast
  have "\<exists>hs. run_nodes access new items (caches(n \<mapsto> c)) = Inr hs"
    by (rule Cons.IH) (use Cons.prems step in \<open>auto simp: sized_items_def node_cache_upd simp del: fun_upd_apply\<close>)
  then show ?case using step by (auto simp: i)
qed

lemma run_nodes_below:
  assumes nonneg: "\<And>k. 0 \<le> sz k" and "sized_items sz items"
    and "\<And>n. ok sz (node_cache new caches n)" and "\<And>n. ok sz (node_cache new' caches' n)"
    and "\<And>n. below (node_cache new caches n) (node_cache new' caches' n)"
    and "\<And>n. room (node_cache new caches n) = cap" and "fitting cap items"
    and "run_nodes access new items caches = Inr hs" and "run_nodes access new' items caches' = Inr hs'"
  shows "list_all2 (\<longrightarrow>) hs hs'"
  using assms(2-)
proof (induction items arbitrary: caches caches' hs hs')
  case Nil
  then show ?case by simp
next
  case (Cons i items)
  obtain n k s t where i: "i = (n, k, s, t)" by (cases i) auto
  have s: "s = sz k" using Cons.prems(1) by (simp add: sized_items_def i)
  obtain h c where c: "access k (sz k) t (node_cache new caches n) = Inr (h, c)" "ok sz c" "room c = cap"
    using access_ok [OF nonneg Cons.prems(2) [of n], of k t] Cons.prems(5) [of n] by auto
  obtain h' d where d: "access k (sz k) t (node_cache new' caches' n) = Inr (h', d)" "ok sz d"
    using access_ok [OF nonneg Cons.prems(3) [of n], of k t] by blast
  have "sz k \<le> room (node_cache new caches n)"
    using Cons.prems(5) [of n] Cons.prems(6) s by (simp add: i fitting_def)
  then have mono: "h \<longrightarrow> h'" "below c d"
    using access_below [OF nonneg Cons.prems(2,3,4) _ c(1) d(1)] by simp_all
  obtain r where r: "run_nodes access new items (caches(n \<mapsto> c)) = Inr r" "hs = h # r"
    using Cons.prems(7) c(1) by (auto simp: i s res_bind_eq_Inr)
  obtain r' where r': "run_nodes access new' items (caches'(n \<mapsto> d)) = Inr r'" "hs' = h' # r'"
    using Cons.prems(8) d(1) by (auto simp: i s res_bind_eq_Inr)
  have "list_all2 (\<longrightarrow>) r r'"
    by (rule Cons.IH [OF _ _ _ _ _ _ r(1) r'(1)])
      (use Cons.prems c d mono in \<open>auto simp: sized_items_def fitting_def node_cache_upd i simp del: fun_upd_apply\<close>)
  then show ?case using mono r r' by simp
qed

end

interpretation lru: replay_cache lru_access cache_ok included capacity_bytes
proof unfold_locales
  fix sz :: "'a \<Rightarrow> int" and c k t
  assume "\<And>k. 0 \<le> sz k" and "cache_ok sz c"
  then show "\<exists>h c'. lru_access k (sz k) t c = Inr (h, c') \<and> cache_ok sz c' \<and> capacity_bytes c' = capacity_bytes c"
    using lru_access_ok [of sz c k t] by blast
next
  fix sz :: "'a \<Rightarrow> int" and c d k t h c' h' d'
  assume nonneg: "\<And>k. 0 \<le> sz k" and ok: "cache_ok sz c" "cache_ok sz d" and inc: "included c d"
    and fits: "sz k \<le> capacity_bytes c"
    and c': "lru_access k (sz k) t c = Inr (h, c')" and d': "lru_access k (sz k) t d = Inr (h', d')"
  have fits': "sz k \<le> capacity_bytes d" using fits inc by (simp add: included_def)
  have "h = lru_fresh k t c" "c' = touch k (sz k) t c" "h' = lru_fresh k t d" "d' = touch k (sz k) t d"
    using c' d' ok fits fits' by (auto simp: cache_ok_def sized_stored_as lru_access_touch)
  then show "(h \<longrightarrow> h') \<and> included c' d'"
    using included_fresh [OF inc] included_touch [OF inc ok(2) nonneg fits] ok(2)
    by (simp add: cache_ok_def lru_inv_def)
qed

text \<open>
  What a hit tells of the log: the item was recorded by an earlier access of the same key
  at the same node, and is still live.
\<close>

locale sound_cache =
  fixes access :: "'k \<Rightarrow> int \<Rightarrow> rat \<Rightarrow> 'c \<Rightarrow> (bool \<times> 'c) res"
    and known :: "'c \<Rightarrow> ('k \<times> rat) set"
    and alive :: "'c \<Rightarrow> rat \<Rightarrow> rat \<Rightarrow> bool"
  assumes hit_known: "access k s now c = Inr (True, c') \<Longrightarrow> \<exists>t. (k, t) \<in> known c \<and> alive c now t"
    and known_step: "access k s now c = Inr (h, c') \<Longrightarrow> known c' \<subseteq> insert (k, now) (known c)"
    and alive_step: "access k s now c = Inr (h, c') \<Longrightarrow> alive c' = alive c"
begin

lemma run_nodes_sound:
  assumes "run_nodes access new items caches = Inr hs"
    and "\<And>n k t. (k, t) \<in> known (node_cache new caches n) \<Longrightarrow> (n, k, t) \<in> past"
    and "\<And>n. alive (node_cache new caches n) = live_at"
    and "i < length items" and "hs ! i" and "items ! i = (n, k, s, now)"
  shows "\<exists>t. live_at now t \<and>
    ((n, k, t) \<in> past \<or> (\<exists>j < i. \<exists>s'. items ! j = (n, k, s', t)))"
  using assms
proof (induction items arbitrary: caches hs past i)
  case Nil
  then show ?case by simp
next
  case (Cons x items)
  obtain m q b u where x: "x = (m, q, b, u)" by (cases x) auto
  obtain h c r where c: "access q b u (node_cache new caches m) = Inr (h, c)"
      and r: "run_nodes access new items (caches(m \<mapsto> c)) = Inr r" "hs = h # r"
    using Cons.prems(1) by (auto simp: x res_bind_eq_Inr)
  show ?case
  proof (cases i)
    case 0
    then have "access k s now (node_cache new caches n) = Inr (True, c)"
      using c r(2) Cons.prems(5,6) by (simp add: x)
    then obtain t where "(k, t) \<in> known (node_cache new caches n)" "live_at now t"
      using hit_known Cons.prems(3) by metis
    then show ?thesis using Cons.prems(2) by blast
  next
    case (Suc i')
    have "\<exists>t. live_at now t \<and> ((n, k, t) \<in> insert (m, q, u) past \<or>
            (\<exists>j < i'. \<exists>s'. items ! j = (n, k, s', t)))"
    proof (rule Cons.IH [OF r(1)])
      fix n' k' t'
      assume "(k', t') \<in> known (node_cache new (caches(m \<mapsto> c)) n')"
      then show "(n', k', t') \<in> insert (m, q, u) past"
        using known_step [OF c] Cons.prems(2) by (auto simp: node_cache_upd split: if_splits)
    next
      fix n'
      show "alive (node_cache new (caches(m \<mapsto> c)) n') = live_at"
        using alive_step [OF c] Cons.prems(3) by (simp add: node_cache_upd)
    qed (use Cons.prems Suc r(2) in auto)
    then show ?thesis unfolding Suc by (force simp: x nth_Cons split: nat.splits)
  qed
qed

end

interpretation lru: sound_cache lru_access recorded_entries live
proof unfold_locales
  fix k :: 'a and s now c h c'
  assume acc: "lru_access k s now c = Inr (h, c')"
  show "recorded_entries c' \<subseteq> insert (k, now) (recorded_entries c)"
    using lru_access_records(1) [OF acc] by (auto simp: records_at_most_def)
  show "live c' = live c"
    using lru_access_records(1) [OF acc] by (auto simp: records_at_most_def live_def fun_eq_iff)
qed (rule lru_access_records(2) [OF _ TrueI])

text \<open>The bundle the simulators use.\<close>

lemma included_new: "cap \<le> cap' \<Longrightarrow> included (new_lru cap ttl) (new_lru cap' ttl)"
  by (simp add: included_def new_lru_def)

lemma node_cache_empty [simp]: "node_cache new Map.empty n = new"
  by (simp add: node_cache_def)

lemmas lru_replay = lru.run_nodes_total lru.run_nodes_below run_nodes_own run_nodes_length

end
