(* ===== verification/Py_Stats.thy ===== *)
theory Py_Stats
  imports Py_Base
begin

text \<open>
  The numeric built-ins and \<open>statistics\<close> functions the code uses, over the rationals:
  \<open>round\<close> (half to even), \<open>statistics.median\<close>, the index of the 95th percentile, means. A
  Python float is modelled by the rational it stands for; the rounding of each operation to
  53 bits is not modelled.
\<close>

section \<open>Rounding\<close>

definition round_half_even :: "rat \<Rightarrow> int" where
  "round_half_even x =
     (let f = \<lfloor>x\<rfloor>; d = x - of_int f
      in if d < 1 / 2 then f else if 1 / 2 < d then f + 1 else if even f then f else f + 1)"

definition py_round :: "nat \<Rightarrow> rat \<Rightarrow> rat" where
  "py_round n x = of_int (round_half_even (x * 10 ^ n)) / 10 ^ n"

lemma round_half_even_bounds:
  "of_int (round_half_even x) - 1 / 2 \<le> x \<and> x \<le> of_int (round_half_even x) + 1 / 2"
proof -
  have "0 \<le> x - of_int \<lfloor>x\<rfloor>" "x - of_int \<lfloor>x\<rfloor> < 1" by linarith+
  then show ?thesis unfolding round_half_even_def Let_def by (simp; linarith)
qed

lemma round_half_even_int [simp]: "round_half_even (of_int n) = n"
  by (simp add: round_half_even_def)

lemma round_half_even_nat [simp]: "round_half_even (of_nat n) = int n"
  using round_half_even_int [of "int n"] by simp

lemma round_half_even_mono:
  assumes "x \<le> y"
  shows "round_half_even x \<le> round_half_even y"
proof -
  have "\<lfloor>x\<rfloor> \<le> \<lfloor>y\<rfloor>" using assms by (rule floor_mono)
  moreover have "round_half_even x \<le> \<lfloor>x\<rfloor> + 1" "\<lfloor>y\<rfloor> \<le> round_half_even y"
    by (auto simp: round_half_even_def Let_def)
  ultimately show ?thesis
  proof (cases "\<lfloor>x\<rfloor> = \<lfloor>y\<rfloor>")
    case True
    then show ?thesis using assms by (auto simp: round_half_even_def Let_def)
  qed linarith
qed

lemma py_round_mono: "x \<le> y \<Longrightarrow> py_round n x \<le> py_round n y"
  by (auto simp: py_round_def divide_right_mono round_half_even_mono)

lemma py_round_int [simp]: "py_round n (of_int k) = of_int k"
proof -
  have "(of_int k :: rat) * 10 ^ n = of_int (k * 10 ^ n)" by simp
  then have "round_half_even ((of_int k :: rat) * 10 ^ n) = k * 10 ^ n"
    by (metis round_half_even_int)
  then show ?thesis by (simp add: py_round_def)
qed

lemma py_round_0 [simp]: "py_round n 0 = 0" and py_round_1 [simp]: "py_round n 1 = 1"
  using py_round_int [of n 0] py_round_int [of n 1] by simp_all

lemma py_round_nonneg: "0 \<le> x \<Longrightarrow> 0 \<le> py_round n x"
  using py_round_mono [of 0 x n] by simp

lemma py_round_le_1: "x \<le> 1 \<Longrightarrow> py_round n x \<le> 1"
  using py_round_mono [of x 1 n] by simp

section \<open>Median and percentile\<close>

text \<open>\<open>statistics.median\<close>: it sorts its argument, and raises on an empty one.\<close>

definition py_median :: "rat list \<Rightarrow> rat res" where
  "py_median xs =
     (let s = sort xs; n = length s
      in if n = 0 then Inl StatisticsError
         else if odd n then Inr (s ! (n div 2))
         else Inr ((s ! (n div 2 - 1) + s ! (n div 2)) / 2))"

text \<open>\<open>max(0, round(0.95 * n) - 1)\<close>.\<close>

definition p95_index :: "nat \<Rightarrow> int" where
  "p95_index n = max 0 (round_half_even (19 / 20 * of_nat n) - 1)"

text \<open>\<open>xs[i]\<close>: a negative index counts from the end, one out of range raises.\<close>

definition py_index :: "nat \<Rightarrow> int \<Rightarrow> nat option" where
  "py_index len i =
     (if 0 \<le> i \<and> nat i < len then Some (nat i)
      else if i < 0 \<and> nat (- i) \<le> len then Some (len - nat (- i))
      else None)"

definition py_nth :: "'a list \<Rightarrow> int \<Rightarrow> 'a res" where
  "py_nth xs i = (case py_index (length xs) i of None \<Rightarrow> Inl IndexError | Some p \<Rightarrow> Inr (xs ! p))"

lemma py_nth_nonneg: "0 \<le> i \<Longrightarrow> i < int (length xs) \<Longrightarrow> py_nth xs i = Inr (xs ! nat i)"
  by (simp add: py_nth_def py_index_def nat_less_iff)

lemma p95_index_bounds:
  assumes "0 < n"
  shows "0 \<le> p95_index n" and "p95_index n < int n"
proof -
  have "round_half_even (19 / 20 * of_nat n) \<le> round_half_even (of_nat n)"
    by (rule round_half_even_mono) simp
  then show "p95_index n < int n" using assms by (simp add: p95_index_def)
qed (simp add: p95_index_def)

lemma p95_index_ge_half:
  assumes "0 < n"
  shows "int (n div 2) \<le> p95_index n"
proof (cases "n = 1")
  case False
  with assms have "2 \<le> n" by simp
  then have n: "(2 :: rat) \<le> of_nat n" using of_nat_mono [of 2 n, where 'a = rat] by simp
  have "of_nat (2 * (n div 2)) \<le> (of_nat n :: rat)" by (rule of_nat_mono) simp
  moreover have "19 / 20 * of_nat n \<le> of_int (round_half_even (19 / 20 * of_nat n :: rat)) + (1 / 2 :: rat)"
    using round_half_even_bounds by blast
  ultimately have "(of_int (int (n div 2)) :: rat) < of_int (round_half_even (19 / 20 * of_nat n))"
    using n by simp
  then have "int (n div 2) < round_half_even (19 / 20 * of_nat n)" by (simp only: of_int_less_iff)
  then show ?thesis by (simp add: p95_index_def)
qed (simp add: p95_index_def)

lemma py_median_total: "xs \<noteq> [] \<Longrightarrow> \<exists>m. py_median xs = Inr m"
proof -
  assume "xs \<noteq> []"
  then have "length (sort xs) \<noteq> 0" by simp
  then show ?thesis unfolding py_median_def Let_def by (metis (full_types))
qed

text \<open>The median lies between the least element and every element of the upper half.\<close>

lemma py_median_bounds:
  assumes m: "py_median xs = Inr m" and i: "length xs div 2 \<le> i" "i < length xs"
  shows "sort xs ! 0 \<le> m" and "m \<le> sort xs ! i"
proof -
  let ?s = "sort xs" and ?h = "length xs div 2"
  have le: "?s ! a \<le> ?s ! b" if "a \<le> b" "b < length xs" for a b
    using that by (simp add: sorted_nth_mono)
  have "m = ?s ! ?h \<or> m = (?s ! (?h - 1) + ?s ! ?h) / 2"
    using m by (auto simp: py_median_def Let_def split: if_splits)
  moreover have "?s ! 0 \<le> ?s ! (?h - 1)" "?s ! (?h - 1) \<le> ?s ! ?h" "?s ! ?h \<le> ?s ! i"
    using i by (auto intro!: le)
  ultimately show "?s ! 0 \<le> m" and "m \<le> ?s ! i" by (auto simp: field_simps)
qed

section \<open>Means\<close>

definition py_mean :: "rat list \<Rightarrow> rat" where
  "py_mean xs = sum_list xs / of_nat (length xs)"

lemma py_mean_between:
  assumes "xs \<noteq> []" and "\<And>x. x \<in> set xs \<Longrightarrow> 0 \<le> x \<and> x \<le> 1"
  shows "0 \<le> py_mean xs \<and> py_mean xs \<le> 1"
proof -
  have "0 \<le> sum_list xs" using assms(2) by (intro sum_list_nonneg) simp
  moreover have "sum_list xs \<le> of_nat (length xs)"
    using assms(2) by (induction xs) (auto, fastforce)
  ultimately show ?thesis using assms(1) by (simp add: py_mean_def)
qed

end
