(* ===== verification/Locality_Sim.thy ===== *)
theory Locality_Sim
  imports Replay Py_Stats
begin

text \<open>
  The placement-locality study, \<open>study/placement_locality_sim.py\<close>: the worker-start log, the
  tier 1 and tier 2 replays through one \<open>LruCache\<close> per node, the random-placement baseline,
  the summaries and the sweep of \<open>main\<close>. A pandas frame is the list of its columns and of its
  rows; an optional column that the list does not name is absent, whatever the rows hold.
\<close>

section \<open>The log\<close>

record event =
  ev_ts :: rat
  ev_repo_id :: string
  ev_revision :: string
  ev_host_id :: string
  ev_gpu_type :: string
  ev_datacenter :: string
  ev_model_size_bytes :: int
  ev_cold_pull_bytes :: int
  ev_pull_duration_s :: rat
  ev_rack_id :: string

record 'r frame =
  frame_columns :: "string list"
  frame_rows :: "'r list"

definition GIB :: int where
  "GIB = 1024 ^ 3"

definition REQUIRED_COLUMNS :: "string list" where
  "REQUIRED_COLUMNS =
     [''ts'', ''repo_id'', ''revision'', ''host_id'', ''gpu_type'', ''datacenter'',
      ''model_size_bytes'']"

text \<open>\<open>load_events\<close>, from the frame that the reader returns; \<open>sort_values\<close> orders by time.\<close>

definition load_events :: "event frame \<Rightarrow> event frame res" where
  "load_events f =
     (let missing = filter (\<lambda>c. c \<notin> set (frame_columns f)) REQUIRED_COLUMNS
      in if missing \<noteq> [] then Inl (ValueError (''event log missing required columns: '' @ concat missing))
         else Inr (f\<lparr>frame_rows := sort_key ev_ts (frame_rows f)\<rparr>))"

definition scope_key :: "string list \<Rightarrow> event \<Rightarrow> string \<Rightarrow> string res" where
  "scope_key cols row scope =
     (if scope = ''host'' then Inr (ev_host_id row)
      else if scope = ''rack'' then
        Inr (if ''rack_id'' \<in> set cols then ev_rack_id row else ev_host_id row)
      else if scope = ''datacenter'' then Inr (ev_datacenter row)
      else Inl (ValueError (''unknown scope: '' @ scope)))"

section \<open>Tier 1: whole models\<close>

type_synonym model_key = "string \<times> string"

definition event_model :: "event \<Rightarrow> model_key" where
  "event_model e = (ev_repo_id e, ev_revision e)"

text \<open>The loop of \<open>simulate\<close>: the hit flags, in the order of the events.\<close>

fun simulate_loop ::
  "string list \<Rightarrow> string \<Rightarrow> int \<Rightarrow> rat option \<Rightarrow> event list \<Rightarrow> (string \<rightharpoonup> model_key lru_cache) \<Rightarrow> bool list res"
where
  "simulate_loop cols scope cap ttl [] caches = Inr []"
| "simulate_loop cols scope cap ttl (row # rest) caches =
     res_bind (scope_key cols row scope) (\<lambda>sk.
       let node = ev_gpu_type row @ ''::'' @ sk;
           model = (ev_repo_id row, ev_revision row);
           now = ev_ts row;
           cache = (case caches node of None \<Rightarrow> new_lru cap ttl | Some c \<Rightarrow> c)
       in res_bind (lru_get model now cache) (\<lambda>(hit, cache1).
            res_bind (lru_put model (ev_model_size_bytes row) now cache1) (\<lambda>cache2.
              res_map (\<lambda>hits. hit # hits)
                (simulate_loop cols scope cap ttl rest (caches(node \<mapsto> cache2))))))"

definition simulate :: "event frame \<Rightarrow> string \<Rightarrow> int \<Rightarrow> rat option \<Rightarrow> (event \<times> bool) frame res" where
  "simulate events scope cap ttl =
     res_map (\<lambda>hits. \<lparr>frame_columns = frame_columns events @ [''hit''],
                      frame_rows = zip (frame_rows events) hits\<rparr>)
       (simulate_loop (frame_columns events) scope cap ttl (frame_rows events) Map.empty)"

section \<open>The random-placement baseline\<close>

type_synonym pool = "string \<times> string"

text \<open>The columns the loop reads: pool, repository, revision, node and time of each start.\<close>

type_synonym start = "pool \<times> string \<times> string \<times> string \<times> rat"

definition baseline_starts :: "event frame \<Rightarrow> string \<Rightarrow> start list res" where
  "baseline_starts events scope =
     map_res (\<lambda>r. res_map (\<lambda>node.
         ((ev_gpu_type r, ev_datacenter r), ev_repo_id r, ev_revision r, node, ev_ts r))
       (scope_key (frame_columns events) r scope)) (frame_rows events)"

definition candidate :: "start list \<Rightarrow> pool \<Rightarrow> nat" where
  "candidate starts p =
     length (remdups (map (\<lambda>(_, _, _, node, _). node) (filter (\<lambda>(q, _). q = p) starts)))"

type_synonym warm_map = "pool \<times> string \<times> string \<rightharpoonup> (string, rat) pydict"

definition drop_stale :: "rat option \<Rightarrow> rat \<Rightarrow> (string, rat) pydict \<Rightarrow> (string, rat) pydict" where
  "drop_stale ttl now seen =
     (case ttl of None \<Rightarrow> seen | Some s \<Rightarrow> filter (\<lambda>(n, t). now - t \<le> s) seen)"

fun baseline_loop ::
  "(pool \<Rightarrow> nat) \<Rightarrow> rat option \<Rightarrow> start list \<Rightarrow> warm_map \<Rightarrow> rat list"
where
  "baseline_loop cand ttl [] warm = []"
| "baseline_loop cand ttl ((p, repo, rvn, node, now) # rest) warm =
     (let seen = drop_stale ttl now (case warm (p, repo, rvn) of None \<Rightarrow> [] | Some d \<Rightarrow> d)
      in min 1 (of_nat (length seen) / of_nat (cand p))
         # baseline_loop cand ttl rest (warm((p, repo, rvn) \<mapsto> AList.update node now seen)))"

definition random_placement_baseline :: "event frame \<Rightarrow> string \<Rightarrow> rat option \<Rightarrow> rat res" where
  "random_placement_baseline events scope ttl =
     res_map (\<lambda>starts.
         let expectations = baseline_loop (candidate starts) ttl starts Map.empty
         in if expectations \<noteq> [] then py_mean expectations else 0)
       (baseline_starts events scope)"

section \<open>Tier 2: xorbs\<close>

record xorb_row =
  xr_repo_id :: string
  xr_revision :: string
  xr_hash :: string
  xr_size_bytes :: int

definition XORB_MAP_COLUMNS :: "string list" where
  "XORB_MAP_COLUMNS = [''repo_id'', ''revision'', ''xorb_hash'', ''xorb_size_bytes'']"

type_synonym xorb_map = "(model_key, (string \<times> int) list) pydict"

definition add_xorb :: "xorb_row \<Rightarrow> xorb_map \<Rightarrow> xorb_map" where
  "add_xorb row m =
     (let key = (xr_repo_id row, xr_revision row)
      in AList.update key (dict_get key [] m @ [(xr_hash row, xr_size_bytes row)]) m)"

definition load_xorb_map :: "xorb_row frame \<Rightarrow> xorb_map res" where
  "load_xorb_map f =
     (let missing = filter (\<lambda>c. c \<notin> set (frame_columns f)) XORB_MAP_COLUMNS
      in if missing \<noteq> [] then Inl (ValueError (''xorb map missing required columns: '' @ concat missing))
         else Inr (fold add_xorb (frame_rows f) []))"

text \<open>The inner loop of \<open>simulate_tier2\<close>, over the xorbs of one start.\<close>

fun tier2_start ::
  "(string \<times> int) list \<Rightarrow> rat \<Rightarrow> string lru_cache \<Rightarrow> (int \<times> int \<times> string lru_cache) res"
where
  "tier2_start [] now cache = Inr (0, 0, cache)"
| "tier2_start ((h, sz) # xorbs) now cache =
     res_bind (lru_get h now cache) (\<lambda>(hit, c1).
       res_bind (lru_put h sz now c1) (\<lambda>c2.
         res_map (\<lambda>(hit_bytes, total_bytes, c).
             ((if hit then sz else 0) + hit_bytes, sz + total_bytes, c))
           (tier2_start xorbs now c2)))"

fun simulate_tier2_loop ::
  "string list \<Rightarrow> xorb_map \<Rightarrow> string \<Rightarrow> int \<Rightarrow> rat option \<Rightarrow> event list \<Rightarrow>
     (string \<rightharpoonup> string lru_cache) \<Rightarrow> (int \<times> int) list res"
where
  "simulate_tier2_loop cols xm scope cap ttl [] caches = Inr []"
| "simulate_tier2_loop cols xm scope cap ttl (row # rest) caches =
     res_bind (scope_key cols row scope) (\<lambda>node.
       let cache = (case caches node of None \<Rightarrow> new_lru cap ttl | Some c \<Rightarrow> c);
           xorbs = dict_get (ev_repo_id row, ev_revision row) [] xm
       in res_bind (tier2_start xorbs (ev_ts row) cache) (\<lambda>(hit_bytes, total_bytes, cache1).
            res_map (\<lambda>r. (hit_bytes, total_bytes) # r)
              (simulate_tier2_loop cols xm scope cap ttl rest (caches(node \<mapsto> cache1)))))"

definition simulate_tier2 ::
  "event frame \<Rightarrow> xorb_map \<Rightarrow> string \<Rightarrow> int \<Rightarrow> rat option \<Rightarrow> (event \<times> int \<times> int) frame res"
where
  "simulate_tier2 events xm scope cap ttl =
     res_map (\<lambda>hits. \<lparr>frame_columns = frame_columns events @ [''hit_bytes'', ''total_bytes''],
                      frame_rows = zip (frame_rows events) hits\<rparr>)
       (simulate_tier2_loop (frame_columns events) xm scope cap ttl (frame_rows events) Map.empty)"

section \<open>Summaries and the sweep\<close>

record summary =
  sm_starts :: nat
  sm_hit_rate :: rat
  sm_wan_gib_saved :: rat
  sm_cold_start_hours_saved :: rat

definition summarize :: "(event \<times> bool) frame \<Rightarrow> summary" where
  "summarize result =
     (let total = length (frame_rows result);
          hit_rate = (if total \<noteq> 0
            then py_mean (map (\<lambda>(_, hit). of_bool hit) (frame_rows result)) else 0);
          hits = map fst (filter snd (frame_rows result));
          saved_bytes = (if ''cold_pull_bytes'' \<in> set (frame_columns result)
            then sum_list (map ev_cold_pull_bytes hits) else 0);
          saved_seconds = (if ''pull_duration_s'' \<in> set (frame_columns result)
            then sum_list (map ev_pull_duration_s hits) else 0)
      in \<lparr>sm_starts = total, sm_hit_rate = py_round 4 hit_rate,
          sm_wan_gib_saved = py_round 1 (of_int saved_bytes / of_int GIB),
          sm_cold_start_hours_saved = py_round 1 (saved_seconds / 3600)\<rparr>)"

record summary2 =
  sm2_starts :: nat
  sm2_hit_rate :: rat
  sm2_wan_gib_saved :: rat
  sm2_unmapped_starts :: nat

definition summarize_tier2 :: "(event \<times> int \<times> int) frame \<Rightarrow> summary2" where
  "summarize_tier2 result =
     (let total = sum_list (map (\<lambda>(_, _, t). t) (frame_rows result));
          hit = sum_list (map (\<lambda>(_, h, _). h) (frame_rows result));
          unmapped = length (filter (\<lambda>(_, _, t). t = 0) (frame_rows result))
      in \<lparr>sm2_starts = length (frame_rows result),
          sm2_hit_rate = (if total \<noteq> 0 then py_round 4 (of_int hit / of_int total) else 0),
          sm2_wan_gib_saved = py_round 1 (of_int hit / of_int GIB),
          sm2_unmapped_starts = unmapped\<rparr>)"

text \<open>\<open>float("inf")\<close> is \<open>None\<close> in \<open>t1_stickiness_x\<close>.\<close>

record tier1_row = summary +
  t1_random_baseline :: rat
  t1_stickiness_x :: "rat option"
  t1_scope :: string
  t1_cache_gib :: int

definition ttl_arg :: "rat option \<Rightarrow> rat option" where
  "ttl_arg ttl_hours =
     (case ttl_hours of None \<Rightarrow> None | Some h \<Rightarrow> if h = 0 then None else Some (h * 3600))"

definition tier1_point :: "event frame \<Rightarrow> rat option \<Rightarrow> string \<Rightarrow> rat \<Rightarrow> int \<Rightarrow> tier1_row res" where
  "tier1_point events ttl scope baseline size_gib =
     res_map (\<lambda>result. let s = summarize result in
         \<lparr>sm_starts = sm_starts s, sm_hit_rate = sm_hit_rate s,
          sm_wan_gib_saved = sm_wan_gib_saved s,
          sm_cold_start_hours_saved = sm_cold_start_hours_saved s,
          t1_random_baseline = py_round 4 baseline,
          t1_stickiness_x =
            (if baseline \<noteq> 0 then Some (py_round 2 (sm_hit_rate s / baseline)) else None),
          t1_scope = scope, t1_cache_gib = size_gib\<rparr>)
       (simulate events scope (size_gib * GIB) ttl)"

definition tier1_sweep :: "event frame \<Rightarrow> rat option \<Rightarrow> string list \<Rightarrow> int list \<Rightarrow> tier1_row list res" where
  "tier1_sweep events ttl_hours scopes sizes =
     (let ttl = ttl_arg ttl_hours
      in res_map concat (map_res (\<lambda>scope.
           res_bind (random_placement_baseline events scope ttl) (\<lambda>baseline.
             map_res (tier1_point events ttl scope baseline) sizes)) scopes))"

definition tier2_sweep ::
  "event frame \<Rightarrow> xorb_map \<Rightarrow> rat option \<Rightarrow> string list \<Rightarrow> int list \<Rightarrow> (summary2 \<times> string \<times> int) list res"
where
  "tier2_sweep events xm ttl_hours scopes sizes =
     (let ttl = ttl_arg ttl_hours
      in res_map concat (map_res (\<lambda>scope.
           map_res (\<lambda>size_gib.
             res_map (\<lambda>result. (summarize_tier2 result, scope, size_gib))
               (simulate_tier2 events xm scope (size_gib * GIB) ttl)) sizes) scopes))"


section \<open>The command\<close>

record sim_args =
  sa_tier2 :: bool
  sa_xorb_map :: "string option"
  sa_scopes :: "string list"
  sa_cache_sizes :: "int list"
  sa_ttl_hours :: "rat option"

definition default_args :: sim_args where
  "default_args = \<lparr>sa_tier2 = False, sa_xorb_map = None, sa_scopes = [''host'', ''rack'', ''datacenter''],
     sa_cache_sizes = [200, 500, 1000, 2000, 4000], sa_ttl_hours = None\<rparr>"

text \<open>What is printed; \<open>read_events\<close> and \<open>read_xorbs\<close> read the frame of a path.\<close>

datatype sim_table = Tier1_table "tier1_row list" | Tier2_table "(summary2 \<times> string \<times> int) list"

definition sim_main ::
  "(string \<Rightarrow> event frame res) \<Rightarrow> (string \<Rightarrow> xorb_row frame res) \<Rightarrow> string \<Rightarrow> sim_args \<Rightarrow> sim_table res" where
  "sim_main read_events read_xorbs path args =
    res_bind (res_bind (read_events path) load_events) (\<lambda>events.
      if sa_tier2 args
      then (case sa_xorb_map args of
              None \<Rightarrow> Inl (OtherError ''--mode tier2 requires --xorb-map'')
            | Some p \<Rightarrow> res_bind (res_bind (read_xorbs p) load_xorb_map) (\<lambda>xm.
                res_map Tier2_table (tier2_sweep events xm (sa_ttl_hours args) (sa_scopes args) (sa_cache_sizes args))))
      else res_map Tier1_table (tier1_sweep events (sa_ttl_hours args) (sa_scopes args) (sa_cache_sizes args)))"

text \<open>The scope and the cache size of each line of the table.\<close>

definition table_points :: "sim_table \<Rightarrow> (string \<times> int) list" where
  "table_points t = (case t of
      Tier1_table rows \<Rightarrow> map (\<lambda>r. (t1_scope r, t1_cache_gib r)) rows
    | Tier2_table rows \<Rightarrow> map snd rows)"

lemma sweep_points:
  assumes "\<And>x. x \<in> set xs \<Longrightarrow> \<exists>rows. f x = Inr rows \<and> map key rows = map (Pair x) ys"
  shows "\<exists>rss. map_res f xs = Inr rss \<and> map key (concat rss) = List.product xs ys"
proof -
  obtain rss where "map_res f xs = Inr rss" "map (map key) rss = map (\<lambda>x. map (Pair x) ys) xs"
    using map_res_keys [of xs f "map key" "\<lambda>x. map (Pair x) ys"] assms by blast
  then show ?thesis by (auto simp: map_concat product_concat_map)
qed

lemma tier1_sweep_points:
  assumes "\<And>scope. scope \<in> set scs \<Longrightarrow> \<exists>b. random_placement_baseline events scope (ttl_arg hours) = Inr b"
    and "\<And>scope size_gib. scope \<in> set scs \<Longrightarrow> size_gib \<in> set sizes \<Longrightarrow>
      \<exists>hits. simulate events scope (size_gib * GIB) (ttl_arg hours) = Inr hits"
  shows "\<exists>rows. tier1_sweep events hours scs sizes = Inr rows \<and> table_points (Tier1_table rows) = List.product scs sizes"
proof -
  let ?key = "\<lambda>r. (t1_scope r, t1_cache_gib r)" and ?ttl = "ttl_arg hours"
  let ?f = "\<lambda>scope. res_bind (random_placement_baseline events scope ?ttl) (\<lambda>baseline.
    map_res (tier1_point events ?ttl scope baseline) sizes)"
  have "\<exists>rows. ?f scope = Inr rows \<and> map ?key rows = map (Pair scope) sizes" if scope: "scope \<in> set scs" for scope
  proof -
    obtain b where b: "random_placement_baseline events scope ?ttl = Inr b" using assms(1) [OF scope] by blast
    have "\<exists>row. tier1_point events ?ttl scope b size_gib = Inr row \<and> ?key row = (scope, size_gib)"
      if size_in: "size_gib \<in> set sizes" for size_gib
      using assms(2) [OF scope size_in] by (auto simp: tier1_point_def Let_def)
    then show ?thesis using map_res_keys [of sizes "tier1_point events ?ttl scope b" ?key "Pair scope"] b by simp
  qed
  from sweep_points [of scs ?f ?key sizes, OF this] show ?thesis
    by (auto simp: tier1_sweep_def Let_def table_points_def)
qed

lemma tier2_sweep_points:
  assumes "\<And>scope size_gib. scope \<in> set scs \<Longrightarrow> size_gib \<in> set sizes \<Longrightarrow>
      \<exists>result. simulate_tier2 events xm scope (size_gib * GIB) (ttl_arg hours) = Inr result"
  shows "\<exists>rows. tier2_sweep events xm hours scs sizes = Inr rows \<and> table_points (Tier2_table rows) = List.product scs sizes"
proof -
  let ?point = "\<lambda>scope size_gib. res_map (\<lambda>result. (summarize_tier2 result, scope, size_gib))
    (simulate_tier2 events xm scope (size_gib * GIB) (ttl_arg hours))"
  have "\<exists>rows. map_res (?point scope) sizes = Inr rows \<and> map snd rows = map (Pair scope) sizes"
    if scope: "scope \<in> set scs" for scope
    by (rule map_res_keys) (use assms [OF scope] in fastforce)
  from sweep_points [of scs "\<lambda>scope. map_res (?point scope) sizes" snd sizes, OF this] show ?thesis
    by (auto simp: tier2_sweep_def Let_def table_points_def)
qed

section \<open>Tier 1 as a replay of items\<close>

definition scopes :: "string list" where
  "scopes = [''host'', ''rack'', ''datacenter'']"

definition scope_node :: "string list \<Rightarrow> string \<Rightarrow> event \<Rightarrow> string" where
  "scope_node cols scope row =
     (case scope_key cols row scope of Inl _ \<Rightarrow> [] | Inr n \<Rightarrow> n)"

lemma scope_key_ok: "scope \<in> set scopes \<Longrightarrow> scope_key cols row scope = Inr (scope_node cols scope row)"
  by (auto simp: scopes_def scope_node_def scope_key_def)

lemma scope_key_unknown: "scope \<notin> set scopes \<Longrightarrow> \<exists>m. scope_key cols row scope = Inl (ValueError m)"
  by (auto simp: scopes_def scope_key_def)

definition tier1_node :: "string list \<Rightarrow> string \<Rightarrow> event \<Rightarrow> string" where
  "tier1_node cols scope row = ev_gpu_type row @ ''::'' @ scope_node cols scope row"

definition tier1_items :: "string list \<Rightarrow> string \<Rightarrow> event list \<Rightarrow> (string, model_key) item list" where
  "tier1_items cols scope events =
     map (\<lambda>e. (tier1_node cols scope e, event_model e, ev_model_size_bytes e, ev_ts e)) events"

lemma lru_access_unfold:
  "res_bind (lru_get k now c) (\<lambda>(hit, c1). res_bind (lru_put k s now c1) (\<lambda>c2. f hit c2)) =
   res_bind (lru_access k s now c) (\<lambda>(hit, c2). f hit c2)"
  by (auto simp: lru_access_def res_bind_def split: sum.split prod.split)

lemma simulate_loop_run:
  assumes "scope \<in> set scopes"
  shows "simulate_loop cols scope cap ttl events caches =
           run_nodes lru_access (new_lru cap ttl) (tier1_items cols scope events) caches"
proof (induction events arbitrary: caches)
  case Nil
  show ?case by (simp add: tier1_items_def)
next
  case (Cons e events)
  show ?case
    unfolding simulate_loop.simps scope_key_ok [OF assms] res_bind_Inr Let_def lru_access_unfold
    using Cons.IH
    by (simp add: tier1_items_def tier1_node_def event_model_def node_cache_def del: fun_upd_apply)
qed

text \<open>The log gives every model one size, and no negative one.\<close>

definition model_sizes :: "(model_key \<Rightarrow> int) \<Rightarrow> event list \<Rightarrow> bool" where
  "model_sizes sz events \<longleftrightarrow> (\<forall>e \<in> set events. ev_model_size_bytes e = sz (event_model e))"

lemma model_sizes_items: "model_sizes sz events \<Longrightarrow> sized_items sz (tier1_items cols scope events)"
  by (auto simp: model_sizes_def sized_items_def tier1_items_def)

definition sim_hits :: "(event \<times> bool) frame \<Rightarrow> bool list" where
  "sim_hits result = map snd (frame_rows result)"

lemma simulate_eq_Inr:
  assumes "scope \<in> set scopes" and "simulate events scope cap ttl = Inr result"
  shows "run_nodes lru_access (new_lru cap ttl)
           (tier1_items (frame_columns events) scope (frame_rows events)) Map.empty = Inr (sim_hits result)"
    and "frame_rows result = zip (frame_rows events) (sim_hits result)"
    and "length (sim_hits result) = length (frame_rows events)"
proof -
  let ?items = "tier1_items (frame_columns events) scope (frame_rows events)"
  obtain hs where hs: "run_nodes lru_access (new_lru cap ttl) ?items Map.empty = Inr hs"
      "frame_rows result = zip (frame_rows events) hs"
    using assms(2) by (auto simp: simulate_def simulate_loop_run [OF assms(1)] res_bind_eq_Inr)
  have len: "length hs = length (frame_rows events)"
    using run_nodes_length [OF hs(1)] by (simp add: tier1_items_def)
  then have hits: "sim_hits result = hs" by (simp add: sim_hits_def hs(2))
  show "run_nodes lru_access (new_lru cap ttl) ?items Map.empty = Inr (sim_hits result)"
    using hs(1) hits by simp
  show "frame_rows result = zip (frame_rows events) (sim_hits result)" using hs(2) hits by simp
  show "length (sim_hits result) = length (frame_rows events)" using len hits by simp
qed

section \<open>Properties of the tier 1 replay\<close>

text \<open>The tier 1 replay of a log that gives each model one size raises nothing, neither
  for the scope nor inside the eviction loop, and marks every start.\<close>

theorem simulate_never_raises:
  assumes "scope \<in> set scopes" and "0 \<le> cap" and "\<And>m. 0 \<le> sz m"
    and "model_sizes sz (frame_rows events)"
  shows "\<exists>result. simulate events scope cap ttl = Inr result \<and>
           map fst (frame_rows result) = frame_rows events \<and>
           frame_columns result = frame_columns events @ [''hit'']"
proof -
  have "\<exists>hs. run_nodes lru_access (new_lru cap ttl)
          (tier1_items (frame_columns events) scope (frame_rows events)) Map.empty = Inr hs"
    by (rule lru.run_nodes_total [of sz]) (use assms in \<open>simp_all add: model_sizes_items\<close>)
  then obtain result where r: "simulate events scope cap ttl = Inr result"
      "frame_columns result = frame_columns events @ [''hit'']"
    using simulate_loop_run [OF assms(1)] by (force simp: simulate_def)
  then show ?thesis using simulate_eq_Inr [OF assms(1) r(1)] by simp
qed

text \<open>The flags decide the hit rate.\<close>

lemma mean_of_bool_mono:
  assumes "list_all2 (\<longrightarrow>) hs hs'"
  shows "py_mean (map of_bool hs) \<le> py_mean (map of_bool hs')"
proof -
  have "sum_list (map of_bool hs) \<le> (sum_list (map of_bool hs') :: rat)"
    using assms by (induction rule: list_all2_induct) (auto intro: add_mono)
  then show ?thesis
    using list_all2_lengthD [OF assms] by (simp add: py_mean_def divide_right_mono)
qed

lemma summarize_hit_rate:
  "sm_hit_rate (summarize result) =
     py_round 4 (if sim_hits result \<noteq> [] then py_mean (map of_bool (sim_hits result)) else 0)"
  by (simp add: summarize_def Let_def sim_hits_def comp_def split_def)

text \<open>C12: More cache never loses a hit: when every model fits in the smaller cache, each start
  that hits with the smaller capacity also hits with the larger one, at the same scope and
  with the same time to live. The hit rate of the sweep is then monotone in the cache size.\<close>

theorem simulate_hits_monotone:
  assumes scope: "scope \<in> set scopes" and cap: "0 \<le> cap" "cap \<le> cap'" and nonneg: "\<And>m. 0 \<le> sz m"
    and sizes: "model_sizes sz (frame_rows events)"
    and fits: "\<forall>e \<in> set (frame_rows events). ev_model_size_bytes e \<le> cap"
    and small: "simulate events scope cap ttl = Inr small"
    and large: "simulate events scope cap' ttl = Inr large"
  shows "list_all2 (\<longrightarrow>) (sim_hits small) (sim_hits large) \<and>
           sm_hit_rate (summarize small) \<le> sm_hit_rate (summarize large)"
proof -
  let ?items = "tier1_items (frame_columns events) scope (frame_rows events)"
  have "fitting cap ?items" using fits by (auto simp: fitting_def tier1_items_def)
  then have mono: "list_all2 (\<longrightarrow>) (sim_hits small) (sim_hits large)"
    using simulate_eq_Inr(1) [OF scope small] simulate_eq_Inr(1) [OF scope large] cap
    by (intro lru.run_nodes_below [OF nonneg model_sizes_items [OF sizes]])
      (auto simp: included_new, simp add: new_lru_def)
  moreover have "sim_hits small = [] \<longleftrightarrow> sim_hits large = []"
    using list_all2_lengthD [OF mono] by force
  ultimately show ?thesis
    by (auto simp: summarize_hit_rate intro: py_round_mono mean_of_bool_mono)
qed

lemma own_hits_tier1:
  "length hs = length events \<Longrightarrow>
    own_hits n (tier1_items cols scope events) hs =
    map snd (filter (\<lambda>(e, hit). tier1_node cols scope e = n) (zip events hs))"
  by (induction hs events rule: list_induct2) (auto simp: own_simps tier1_items_def)

text \<open>C13: Nodes are independent: the hit flags of the starts on a node are those of one cache
  that replays only these starts, in their order. The GPU type is part of the node.\<close>

theorem simulate_segments_by_node:
  assumes "scope \<in> set scopes" and "simulate events scope cap ttl = Inr result"
  shows "run_one lru_access
           (map (\<lambda>e. (event_model e, ev_model_size_bytes e, ev_ts e))
             (filter (\<lambda>e. tier1_node (frame_columns events) scope e = n) (frame_rows events)))
           (new_lru cap ttl) =
         Inr (map snd (filter (\<lambda>(e, hit). tier1_node (frame_columns events) scope e = n) (frame_rows result)))"
proof -
  let ?node = "tier1_node (frame_columns events) scope" and ?rows = "frame_rows events"
  let ?items = "tier1_items (frame_columns events) scope ?rows"
  have "own_items n ?items = map (\<lambda>e. (event_model e, ev_model_size_bytes e, ev_ts e))
      (filter (\<lambda>e. ?node e = n) ?rows)"
    by (simp add: own_items_def tier1_items_def filter_map comp_def)
  then show ?thesis
    using run_nodes_own [OF simulate_eq_Inr(1) [OF assms], of n] simulate_eq_Inr(2,3) [OF assms]
    by (simp add: own_hits_tier1)
qed

text \<open>C14: A hit is sound: a start that is marked a hit has an earlier start of the same model
  on the same node, not longer ago than the time to live, whatever the sizes in the log.\<close>

theorem simulate_hit_sound:
  assumes "scope \<in> set scopes" and "simulate events scope cap ttl = Inr result"
    and "i < length (frame_rows events)" and "frame_rows result ! i = (e, True)"
  shows "\<exists>j < i. \<exists>e'. frame_rows events ! j = e' \<and> event_model e' = event_model e \<and>
           tier1_node (frame_columns events) scope e' = tier1_node (frame_columns events) scope e \<and>
           (case ttl of None \<Rightarrow> True | Some s \<Rightarrow> ev_ts e - ev_ts e' \<le> s)"
proof -
  let ?node = "tier1_node (frame_columns events) scope" and ?rows = "frame_rows events"
  have run: "run_nodes lru_access (new_lru cap ttl) (tier1_items (frame_columns events) scope ?rows)
      Map.empty = Inr (sim_hits result)"
    and rows: "frame_rows result = zip ?rows (sim_hits result)" "length (sim_hits result) = length ?rows"
    using simulate_eq_Inr [OF assms(1,2)] by simp_all
  have e: "?rows ! i = e" "sim_hits result ! i" using assms(3,4) rows by auto
  have "\<exists>t. live (new_lru cap ttl :: model_key lru_cache) (ev_ts e) t \<and>
      ((?node e, event_model e, t) \<in> {} \<or>
       (\<exists>j < i. \<exists>s'. tier1_items (frame_columns events) scope ?rows ! j = (?node e, event_model e, s', t)))"
    by (rule lru.run_nodes_sound [OF run])
      (use assms(3) e in \<open>auto simp: recorded_entries_def tier1_items_def\<close>, auto simp: new_lru_def)
  then show ?thesis
    using assms(3) by (auto simp: live_def new_lru_def tier1_items_def)
qed


section \<open>The baseline\<close>

text \<open>The expectations without the clamp at 1.\<close>

fun warm_fractions :: "(pool \<Rightarrow> nat) \<Rightarrow> rat option \<Rightarrow> start list \<Rightarrow> warm_map \<Rightarrow> rat list" where
  "warm_fractions cand ttl [] warm = []"
| "warm_fractions cand ttl ((p, repo, rvn, node, now) # rest) warm =
     (let seen = drop_stale ttl now (case warm (p, repo, rvn) of None \<Rightarrow> [] | Some d \<Rightarrow> d)
      in of_nat (length seen) / of_nat (cand p)
         # warm_fractions cand ttl rest (warm((p, repo, rvn) \<mapsto> AList.update node now seen)))"

definition pool_nodes :: "start list \<Rightarrow> pool \<Rightarrow> string set" where
  "pool_nodes starts p = {node. \<exists>repo rvn t. (p, repo, rvn, node, t) \<in> set starts}"

definition warm_ok :: "start list \<Rightarrow> warm_map \<Rightarrow> bool" where
  "warm_ok starts warm \<longleftrightarrow>
     (\<forall>p r v d. warm (p, r, v) = Some d \<longrightarrow> dict_wf d \<and> fst ` set d \<subseteq> pool_nodes starts p)"

lemma candidate_card: "candidate starts p = card (pool_nodes starts p)"
proof -
  have "set (map (\<lambda>(_, _, _, node, _). node) (filter (\<lambda>(q, _). q = p) starts)) = pool_nodes starts p"
    by (force simp: pool_nodes_def)
  then show ?thesis unfolding candidate_def by (metis length_remdups_card_conv)
qed

lemma warm_ok_old:
  assumes "warm_ok starts warm"
  shows "dict_wf (case warm (p, r, v) of None \<Rightarrow> [] | Some d \<Rightarrow> d) \<and>
    fst ` set (case warm (p, r, v) of None \<Rightarrow> [] | Some d \<Rightarrow> d) \<subseteq> pool_nodes starts p"
proof (cases "warm (p, r, v)")
  case (Some d)
  then show ?thesis using assms unfolding warm_ok_def by (simp only: option.case)
qed simp

lemma pool_nodes_finite [simp]: "finite (pool_nodes starts p)"
proof -
  have "pool_nodes starts p \<subseteq> (\<lambda>(_, _, _, node, _). node) ` set starts"
    by (force simp: pool_nodes_def)
  then show ?thesis by (rule finite_subset) simp
qed

lemma candidate_pos:
  assumes "(p, repo, rvn, node, t) \<in> set starts"
  shows "0 < candidate starts p"
proof -
  have "node \<in> pool_nodes starts p" using assms by (auto simp: pool_nodes_def)
  then have "0 < card (pool_nodes starts p)"
    by (intro card_gt_0_iff [THEN iffD2] conjI pool_nodes_finite) auto
  then show ?thesis by (simp add: candidate_card)
qed

lemma length_le_candidate:
  assumes "dict_wf d" and "fst ` set d \<subseteq> pool_nodes starts p"
  shows "length d \<le> candidate starts p"
proof -
  have "length d = card (fst ` set d)"
    using assms(1) distinct_card [of "map fst d"] by (simp add: dict_wf_def)
  then show ?thesis
    using card_mono [OF _ assms(2)] by (simp add: candidate_card)
qed

lemma drop_stale_subset: "set (drop_stale ttl now seen) \<subseteq> set seen"
  by (auto simp: drop_stale_def split: option.splits)

lemma drop_stale_wf: "dict_wf seen \<Longrightarrow> dict_wf (drop_stale ttl now seen)"
  by (auto simp: drop_stale_def dict_wf_def distinct_map_filter split: option.splits)

lemma baseline_loop_unclamped:
  assumes "warm_ok starts warm" and "set rest \<subseteq> set starts"
  shows "baseline_loop (candidate starts) ttl rest warm = warm_fractions (candidate starts) ttl rest warm \<and>
           (\<forall>x \<in> set (warm_fractions (candidate starts) ttl rest warm). 0 \<le> x \<and> x \<le> 1)"
  using assms
proof (induction rest arbitrary: warm)
  case Nil
  show ?case by simp
next
  case (Cons x rest)
  obtain p repo rvn node now where x: "x = (p, repo, rvn, node, now)" by (cases x) auto
  let ?old = "case warm (p, repo, rvn) of None \<Rightarrow> [] | Some d \<Rightarrow> d"
  let ?seen = "drop_stale ttl now ?old"
  let ?warm = "warm((p, repo, rvn) \<mapsto> AList.update node now ?seen)"
  have "dict_wf ?old \<and> fst ` set ?old \<subseteq> pool_nodes starts p"
    by (rule warm_ok_old [OF Cons.prems(1)])
  then have seen: "dict_wf ?seen" "fst ` set ?seen \<subseteq> pool_nodes starts p"
    using drop_stale_wf drop_stale_subset [of ttl now ?old] by (simp, blast)
  have node: "node \<in> pool_nodes starts p"
    using Cons.prems(2) by (auto simp: pool_nodes_def x)
  have pos: "0 < candidate starts p"
    by (rule candidate_pos [of _ repo rvn node now]) (use Cons.prems(2) in \<open>simp add: x\<close>)
  have frac: "0 \<le> (of_nat (length ?seen) / of_nat (candidate starts p) :: rat)"
      "(of_nat (length ?seen) / of_nat (candidate starts p) :: rat) \<le> 1"
    using length_le_candidate [OF seen] pos by simp_all
  have "warm_ok starts ?warm"
    using Cons.prems(1) seen node by (auto simp: warm_ok_def)
  then have "baseline_loop (candidate starts) ttl rest ?warm = warm_fractions (candidate starts) ttl rest ?warm \<and>
      (\<forall>x \<in> set (warm_fractions (candidate starts) ttl rest ?warm). 0 \<le> x \<and> x \<le> 1)"
    by (rule Cons.IH) (use Cons.prems(2) in simp)
  then show ?case using frac by (simp add: x Let_def del: fun_upd_apply)
qed

lemma map_res_nth:
  "map_res f xs = Inr ys \<Longrightarrow> i < length xs \<Longrightarrow> f (xs ! i) = Inr (ys ! i)"
proof (induction xs arbitrary: ys i)
  case (Cons x xs)
  then show ?case by (cases i) (auto simp: res_bind_eq_Inr)
qed simp

lemma baseline_total: "scope \<in> set scopes \<Longrightarrow> \<exists>b. random_placement_baseline events scope ttl = Inr b"
  by (simp add: random_placement_baseline_def baseline_starts_def scope_key_ok map_res_Inr Let_def)

text \<open>C16: The random-placement baseline is a probability. The warm nodes of a model are always
  among the nodes of the pool that the log names, so the clamp to 1 never applies and the
  division is never by zero.\<close>

theorem baseline_is_probability:
  assumes "random_placement_baseline events scope ttl = Inr b"
    and "baseline_starts events scope = Inr starts"
  shows "0 \<le> b \<and> b \<le> 1 \<and>
           baseline_loop (candidate starts) ttl starts Map.empty =
             warm_fractions (candidate starts) ttl starts Map.empty \<and>
           list_all (\<lambda>s. 0 < candidate starts (fst s)) starts"
proof -
  let ?xs = "baseline_loop (candidate starts) ttl starts Map.empty"
  have "warm_ok starts Map.empty" by (simp add: warm_ok_def)
  then have loop: "?xs = warm_fractions (candidate starts) ttl starts Map.empty"
      "\<And>x. x \<in> set ?xs \<Longrightarrow> 0 \<le> x \<and> x \<le> 1"
    using baseline_loop_unclamped [of starts Map.empty starts ttl] by auto
  have "b = (if ?xs \<noteq> [] then py_mean ?xs else 0)"
    using assms by (simp add: random_placement_baseline_def Let_def)
  then have "0 \<le> b \<and> b \<le> 1" using py_mean_between [of ?xs] loop(2) by auto
  moreover have "0 < candidate starts (fst s)" if "s \<in> set starts" for s
  proof -
    obtain p repo rvn node t where "s = (p, repo, rvn, node, t)" by (metis prod_cases5)
    then show ?thesis using that candidate_pos by simp
  qed
  ultimately show ?thesis using loop(1) by (simp add: list_all_iff)
qed


section \<open>The tier 2 replay\<close>

definition xorb_bytes :: "(string \<times> int) list \<Rightarrow> int" where
  "xorb_bytes xorbs = sum_list (map snd xorbs)"

definition event_xorbs :: "xorb_map \<Rightarrow> event \<Rightarrow> (string \<times> int) list" where
  "event_xorbs xm e = dict_get (event_model e) [] xm"

definition xorbs_nonneg :: "xorb_map \<Rightarrow> bool" where
  "xorbs_nonneg xm \<longleftrightarrow> (\<forall>(m, xorbs) \<in> set xm. \<forall>(h, s) \<in> set xorbs. 0 \<le> s)"

text \<open>Every row of the map gives a hash the size \<open>sz\<close> gives it.\<close>

definition xorb_sizes :: "(string \<Rightarrow> int) \<Rightarrow> xorb_map \<Rightarrow> bool" where
  "xorb_sizes sz xm \<longleftrightarrow> (\<forall>(m, xorbs) \<in> set xm. \<forall>(h, s) \<in> set xorbs. s = sz h)"

lemma event_xorbs_in: "x \<in> set (event_xorbs xm e) \<Longrightarrow> \<exists>m xorbs. (m, xorbs) \<in> set xm \<and> x \<in> set xorbs"
proof -
  assume x: "x \<in> set (event_xorbs xm e)"
  show ?thesis
  proof (cases "map_of xm (event_model e)")
    case (Some xorbs)
    then have "x \<in> set xorbs" using x by (simp add: event_xorbs_def dict_get_def)
    then show ?thesis using map_of_SomeD [OF Some] by blast
  qed (use x in \<open>simp add: event_xorbs_def dict_get_def\<close>)
qed

lemma event_xorbs_nonneg: "xorbs_nonneg xm \<Longrightarrow> (h, s) \<in> set (event_xorbs xm e) \<Longrightarrow> 0 \<le> s"
  using event_xorbs_in [of "(h, s)" xm e] by (fastforce simp: xorbs_nonneg_def)

lemma event_xorbs_sizes: "xorb_sizes sz xm \<Longrightarrow> (h, s) \<in> set (event_xorbs xm e) \<Longrightarrow> s = sz h"
  using event_xorbs_in [of "(h, s)" xm e] by (fastforce simp: xorb_sizes_def)

lemma tier2_start_bytes:
  assumes "\<And>h s. (h, s) \<in> set xorbs \<Longrightarrow> 0 \<le> s" and "tier2_start xorbs now c = Inr (hb, tb, c')"
  shows "0 \<le> hb \<and> hb \<le> tb \<and> tb = xorb_bytes xorbs"
  using assms
proof (induction xorbs now c arbitrary: hb tb c' rule: tier2_start.induct)
  case (1 now c)
  then show ?case by (simp add: xorb_bytes_def)
next
  case (2 h sz xorbs now c)
  obtain hit c1 c2 hb' tb' where c: "lru_get h now c = Inr (hit, c1)" "lru_put h sz now c1 = Inr c2"
      "tier2_start xorbs now c2 = Inr (hb', tb', c')"
      "hb = (if hit then sz else 0) + hb'" "tb = sz + tb'"
    using "2.prems"(2) by (auto simp: res_bind_eq_Inr)
  have "0 \<le> hb' \<and> hb' \<le> tb' \<and> tb' = xorb_bytes xorbs"
    using "2.IH" [OF _ c(3)] "2.prems"(1) by auto
  moreover have "0 \<le> sz" using "2.prems"(1) [of h sz] by simp
  ultimately show ?case using c(4,5) by (auto simp: xorb_bytes_def)
qed

lemma tier2_start_total:
  assumes nonneg: "\<And>h. 0 \<le> sz h" and "cache_ok sz c" and "\<And>h s. (h, s) \<in> set xorbs \<Longrightarrow> s = sz h"
  shows "\<exists>hb tb c'. tier2_start xorbs now c = Inr (hb, tb, c') \<and> cache_ok sz c'"
  using assms(2,3)
proof (induction xorbs arbitrary: c)
  case Nil
  then show ?case by simp
next
  case (Cons x xorbs)
  obtain h s where x: "x = (h, s)" by force
  have s: "s = sz h" using Cons.prems(2) by (simp add: x)
  obtain c2 where c2: "lru_access h (sz h) now c = Inr (lru_fresh h now c, c2)" "cache_ok sz c2"
    using lru_access_ok [of sz c h now, OF nonneg Cons.prems(1)] by blast
  obtain hb tb c' where "tier2_start xorbs now c2 = Inr (hb, tb, c')" "cache_ok sz c'"
    using Cons.IH [OF c2(2)] Cons.prems(2) by auto
  then show ?case using c2(1) by (simp add: x s lru_access_unfold)
qed

lemma simulate_tier2_loop_rows:
  assumes "xorbs_nonneg xm" and "simulate_tier2_loop cols xm scope cap ttl events caches = Inr r"
  shows "list_all2 (\<lambda>e (hb, tb). 0 \<le> hb \<and> hb \<le> tb \<and> tb = xorb_bytes (event_xorbs xm e)) events r"
  using assms(2)
proof (induction events arbitrary: caches r)
  case Nil
  then show ?case by simp
next
  case (Cons e events)
  obtain n hb tb c' r' where r:
      "tier2_start (event_xorbs xm e) (ev_ts e)
         (case caches n of None \<Rightarrow> new_lru cap ttl | Some c \<Rightarrow> c) = Inr (hb, tb, c')"
      "simulate_tier2_loop cols xm scope cap ttl events (caches(n \<mapsto> c')) = Inr r'" "r = (hb, tb) # r'"
    using Cons.prems by (auto simp: res_bind_eq_Inr Let_def event_xorbs_def event_model_def
        simp del: fun_upd_apply)
  have "0 \<le> hb \<and> hb \<le> tb \<and> tb = xorb_bytes (event_xorbs xm e)"
    using event_xorbs_nonneg [OF assms(1)] r(1) by (rule tier2_start_bytes)
  then show ?case using Cons.IH [OF r(2)] r(3) by simp
qed

lemma simulate_tier2_loop_total:
  assumes "scope \<in> set scopes" and nonneg: "\<And>h. 0 \<le> sz h" and "xorb_sizes sz xm"
    and "\<And>n. cache_ok sz (node_cache (new_lru cap ttl) caches n)"
  shows "\<exists>r. simulate_tier2_loop cols xm scope cap ttl events caches = Inr r"
  using assms(4)
proof (induction events arbitrary: caches)
  case Nil
  show ?case by simp
next
  case (Cons e events)
  let ?n = "scope_node cols scope e"
  obtain hb tb c' where c': "tier2_start (event_xorbs xm e) (ev_ts e) (node_cache (new_lru cap ttl) caches ?n)
        = Inr (hb, tb, c')" "cache_ok sz c'"
    using tier2_start_total [of sz "node_cache (new_lru cap ttl) caches ?n" "event_xorbs xm e" "ev_ts e"]
      nonneg Cons.prems event_xorbs_sizes [OF assms(3)] by blast
  have "\<exists>r. simulate_tier2_loop cols xm scope cap ttl events (caches(?n \<mapsto> c')) = Inr r"
    by (rule Cons.IH) (use Cons.prems c'(2) in \<open>simp add: node_cache_upd del: fun_upd_apply\<close>)
  then show ?case
    using c'(1) by (auto simp: scope_key_ok [OF assms(1)] Let_def event_xorbs_def event_model_def
        node_cache_def simp del: fun_upd_apply)
qed

text \<open>C15: The tier 2 replay with a map that gives each xorb one size raises nothing, and every
  start is charged the bytes of its model in the map, of which between none and all hit.
  The summary's hit rate is a fraction.\<close>

theorem simulate_tier2_bytes:
  assumes "scope \<in> set scopes" and "0 \<le> cap" and "\<And>h. 0 \<le> sz h" and "xorb_sizes sz xm"
  shows "\<exists>result. simulate_tier2 events xm scope cap ttl = Inr result \<and>
           map fst (frame_rows result) = frame_rows events \<and>
           list_all (\<lambda>(e, hb, tb). 0 \<le> hb \<and> hb \<le> tb \<and> tb = xorb_bytes (event_xorbs xm e))
             (frame_rows result) \<and>
           0 \<le> sm2_hit_rate (summarize_tier2 result) \<and> sm2_hit_rate (summarize_tier2 result) \<le> 1"
proof -
  have "cache_ok sz (node_cache (new_lru cap ttl) Map.empty n)" for n :: string
    using assms(2) by simp
  then obtain r where r: "simulate_tier2_loop (frame_columns events) xm scope cap ttl (frame_rows events) Map.empty = Inr r"
    using simulate_tier2_loop_total [OF assms(1,3,4)] by metis
  let ?rows = "zip (frame_rows events) r"
  have "xorbs_nonneg xm" using assms(3,4) by (fastforce simp: xorbs_nonneg_def xorb_sizes_def)
  note all = simulate_tier2_loop_rows [OF this r]
  have rows: "\<forall>(e, hb, tb) \<in> set ?rows. 0 \<le> hb \<and> hb \<le> tb \<and> tb = xorb_bytes (event_xorbs xm e)"
    using all by (fastforce simp: list_all2_iff)
  have "0 \<le> sum_list (map (\<lambda>(_, h, _). h) ?rows)"
    using rows by (intro sum_list_nonneg) auto
  moreover have "sum_list (map (\<lambda>(_, h, _). h) ?rows) \<le> sum_list (map (\<lambda>(_, _, t). t) ?rows)"
    using rows by (intro sum_list_mono) auto
  ultimately have "0 \<le> sm2_hit_rate (summarize_tier2 \<lparr>frame_columns = cs, frame_rows = ?rows\<rparr>) \<and>
      sm2_hit_rate (summarize_tier2 \<lparr>frame_columns = cs, frame_rows = ?rows\<rparr>) \<le> 1" for cs
    by (auto simp: summarize_tier2_def Let_def intro!: py_round_nonneg py_round_le_1 divide_nonneg_nonneg)
  then show ?thesis
    using r rows list_all2_lengthD [OF all] by (simp add: simulate_tier2_def list_all_iff)
qed


section \<open>The xorb map\<close>

definition append_to :: "'a list option \<Rightarrow> 'a \<Rightarrow> 'a list" where
  "append_to old x = (case old of None \<Rightarrow> [] | Some xs \<Rightarrow> xs) @ [x]"

lemma fold_append_to:
  "fold (\<lambda>x s. Some (append_to s x)) xs s =
    (if xs = [] then s else Some ((case s of None \<Rightarrow> [] | Some ys \<Rightarrow> ys) @ xs))"
  by (induction xs arbitrary: s) (simp_all add: append_to_def)

lemma fold_add_xorb:
  "fold add_xorb rws m =
    pd.accumulate append_to
      (map (\<lambda>r. ((xr_repo_id r, xr_revision r), (xr_hash r, xr_size_bytes r))) rws) m"
  unfolding pd.accumulate_def
  by (induction rws arbitrary: m)
    (simp_all add: add_xorb_def Let_def append_to_def dict_get_def)

text \<open>Loading the xorb map groups its rows by model without loss: the xorbs of a model are
  exactly its rows, in file order, and a model with no rows has none.\<close>

theorem load_xorb_map_groups:
  assumes "load_xorb_map f = Inr xm"
  shows "event_xorbs xm e =
           map (\<lambda>r. (xr_hash r, xr_size_bytes r))
             (filter (\<lambda>r. (xr_repo_id r, xr_revision r) = event_model e) (frame_rows f))"
proof -
  have xm: "xm = pd.accumulate append_to
      (map (\<lambda>r. ((xr_repo_id r, xr_revision r), (xr_hash r, xr_size_bytes r))) (frame_rows f)) []"
    using assms by (auto simp: load_xorb_map_def Let_def fold_add_xorb split: if_splits)
  show ?thesis
    unfolding event_xorbs_def dict_get_def xm pd.accumulate_lookup
    by (simp add: fold_append_to filter_map comp_def)
qed

section \<open>A size that changes\<close>

text \<open>The accounting error of \<open>put\<close>: storing a present key with another size leaves
  \<open>used_bytes\<close> off by exactly the difference of the two sizes.\<close>

theorem put_resize_drifts:
  assumes "lru_inv c" and "map_of (lru_entries c) k = Some (s, t)"
    and "lru_put k s' now c = Inr c'"
  shows "used_bytes c' - entry_bytes (lru_entries c') = s - s'"
  using assms by (rule lru_put_resize)

definition demo_start :: "rat \<Rightarrow> string \<Rightarrow> string \<Rightarrow> int \<Rightarrow> event" where
  "demo_start ts repo host sz =
     \<lparr>ev_ts = ts, ev_repo_id = repo, ev_revision = ''r1'', ev_host_id = host, ev_gpu_type = ''H100'',
      ev_datacenter = ''US-CA-1'', ev_model_size_bytes = sz, ev_cold_pull_bytes = sz,
      ev_pull_duration_s = 8, ev_rack_id = ''rack-0''\<rparr>"

definition demo_log :: "event frame" where
  "demo_log =
     \<lparr>frame_columns = REQUIRED_COLUMNS @ [''cold_pull_bytes''],
      frame_rows = [demo_start 0 ''a'' ''h0'' 4, demo_start 1 ''b'' ''h0'' 6,
                    demo_start 2 ''a'' ''h0'' 4, demo_start 3 ''a'' ''h1'' 4]\<rparr>"

text \<open>The error is reachable and fatal: a map that gives one xorb two sizes in two revisions
  makes the tier 2 replay raise \<open>StopIteration\<close> out of the eviction loop, because the
  counter says that bytes are used when no entry is left.\<close>

theorem tier2_resize_crashes:
  "simulate_tier2
     \<lparr>frame_columns = REQUIRED_COLUMNS,
      frame_rows = [demo_start 0 ''a'' ''h'' 0, demo_start 1 ''b'' ''h'' 0, demo_start 2 ''c'' ''h'' 0]\<rparr>
     [((''a'', ''r1''), [(''X'', 10)]), ((''b'', ''r1''), [(''X'', 1)]), ((''c'', ''r1''), [(''Y'', 5)])]
     ''host'' 10 None = Inl StopIteration"
  by code_simp

section \<open>Witnesses\<close>

definition demo_sizes :: "model_key \<Rightarrow> int" where
  "demo_sizes m = (if fst m = ''a'' then 4 else 6)"

lemma demo_model_sizes: "model_sizes demo_sizes (frame_rows demo_log)"
  by (simp add: model_sizes_def demo_log_def demo_start_def demo_sizes_def event_model_def)

lemma demo_sizes_nonneg: "0 \<le> demo_sizes m"
  by (simp add: demo_sizes_def)

theorem simulate_never_raises_witness:
  "\<exists>result. simulate demo_log ''host'' 10 (Some 5) = Inr result \<and>
     map fst (frame_rows result) = frame_rows demo_log \<and>
     frame_columns result = frame_columns demo_log @ [''hit'']"
  by (rule simulate_never_raises [OF _ _ demo_sizes_nonneg demo_model_sizes])
    (simp_all add: scopes_def)

lemma demo_run: "simulate demo_log ''host'' 6 None = Inr (projr (simulate demo_log ''host'' 6 None))"
  "simulate demo_log ''host'' 10 None = Inr (projr (simulate demo_log ''host'' 10 None))"
  by (rule res_not_isl, code_simp)+

lemma demo_hits:
  "sim_hits (projr (simulate demo_log ''host'' 6 None)) = [False, False, False, False]"
  "sim_hits (projr (simulate demo_log ''host'' 10 None)) = [False, False, True, False]"
  by code_simp+

theorem simulate_hits_monotone_witness:
  "list_all2 (\<longrightarrow>) (sim_hits (projr (simulate demo_log ''host'' 6 None)))
     (sim_hits (projr (simulate demo_log ''host'' 10 None))) \<and>
   sim_hits (projr (simulate demo_log ''host'' 10 None)) = [False, False, True, False]"
  using simulate_hits_monotone [OF _ _ _ demo_sizes_nonneg demo_model_sizes _ demo_run] demo_hits(2)
  by (simp add: scopes_def demo_log_def demo_start_def)

theorem simulate_segments_by_node_witness:
  "run_one lru_access
     (map (\<lambda>e. (event_model e, ev_model_size_bytes e, ev_ts e))
       (filter (\<lambda>e. tier1_node (frame_columns demo_log) ''host'' e = ''H100::h0'') (frame_rows demo_log)))
     (new_lru 10 None) =
   Inr (map snd (filter (\<lambda>(e, hit). tier1_node (frame_columns demo_log) ''host'' e = ''H100::h0'')
     (frame_rows (projr (simulate demo_log ''host'' 10 None)))))"
  by (rule simulate_segments_by_node [OF _ demo_run(2)]) (simp add: scopes_def)

lemma demo_row: "frame_rows (projr (simulate demo_log ''host'' 10 None)) ! 2 = (demo_start 2 ''a'' ''h0'' 4, True)"
  by code_simp

theorem simulate_hit_sound_witness:
  "\<exists>j < 2. \<exists>e'. frame_rows demo_log ! j = e' \<and> event_model e' = event_model (demo_start 2 ''a'' ''h0'' 4) \<and>
     tier1_node (frame_columns demo_log) ''host'' e' =
       tier1_node (frame_columns demo_log) ''host'' (demo_start 2 ''a'' ''h0'' 4) \<and>
     (case (None :: rat option) of None \<Rightarrow> True | Some s \<Rightarrow> ev_ts (demo_start 2 ''a'' ''h0'' 4) - ev_ts e' \<le> s)"
  by (rule simulate_hit_sound [OF _ demo_run(2) _ demo_row]) (simp_all add: scopes_def demo_log_def)

definition demo_starts :: "start list" where
  "demo_starts =
     [((''H100'', ''US-CA-1''), ''a'', ''r1'', ''h0'', 0), ((''H100'', ''US-CA-1''), ''b'', ''r1'', ''h0'', 1),
      ((''H100'', ''US-CA-1''), ''a'', ''r1'', ''h0'', 2), ((''H100'', ''US-CA-1''), ''a'', ''r1'', ''h1'', 3)]"

lemma demo_baseline:
  "random_placement_baseline demo_log ''host'' None = Inr (1 / 4)"
  "baseline_starts demo_log ''host'' = Inr demo_starts"
  by code_simp+

theorem baseline_is_probability_witness:
  "0 \<le> (1 / 4 :: rat) \<and> (1 / 4 :: rat) \<le> 1 \<and>
   baseline_loop (candidate demo_starts) None demo_starts Map.empty =
     warm_fractions (candidate demo_starts) None demo_starts Map.empty \<and>
   list_all (\<lambda>s. 0 < candidate demo_starts (fst s)) demo_starts"
  by (rule baseline_is_probability [OF demo_baseline])

theorem simulate_tier2_bytes_witness:
  "\<exists>result. simulate_tier2 demo_log [((''a'', ''r1''), [(''X'', 3), (''Y'', 2)])] ''rack'' 4 (Some 1) = Inr result \<and>
     map fst (frame_rows result) = frame_rows demo_log \<and>
     list_all (\<lambda>(e, hb, tb). 0 \<le> hb \<and> hb \<le> tb \<and>
         tb = xorb_bytes (event_xorbs [((''a'', ''r1''), [(''X'', 3), (''Y'', 2)])] e)) (frame_rows result) \<and>
     0 \<le> sm2_hit_rate (summarize_tier2 result) \<and> sm2_hit_rate (summarize_tier2 result) \<le> 1"
  by (rule simulate_tier2_bytes [where sz = "\<lambda>h. if h = ''X'' then 3 else 2"])
    (simp_all add: scopes_def xorb_sizes_def)

definition demo_xorb_rows :: "xorb_row frame" where
  "demo_xorb_rows =
     \<lparr>frame_columns = XORB_MAP_COLUMNS,
      frame_rows = [\<lparr>xr_repo_id = ''a'', xr_revision = ''r1'', xr_hash = ''X'', xr_size_bytes = 3\<rparr>,
                    \<lparr>xr_repo_id = ''b'', xr_revision = ''r1'', xr_hash = ''Z'', xr_size_bytes = 9\<rparr>,
                    \<lparr>xr_repo_id = ''a'', xr_revision = ''r1'', xr_hash = ''Y'', xr_size_bytes = 2\<rparr>]\<rparr>"

lemma demo_load: "load_xorb_map demo_xorb_rows =
    Inr [((''a'', ''r1''), [(''X'', 3), (''Y'', 2)]), ((''b'', ''r1''), [(''Z'', 9)])]"
  by code_simp

theorem load_xorb_map_groups_witness:
  "event_xorbs [((''a'', ''r1''), [(''X'', 3), (''Y'', 2)]), ((''b'', ''r1''), [(''Z'', 9)])] (demo_start 0 ''a'' ''h0'' 4) =
     map (\<lambda>r. (xr_hash r, xr_size_bytes r))
       (filter (\<lambda>r. (xr_repo_id r, xr_revision r) = event_model (demo_start 0 ''a'' ''h0'' 4)) (frame_rows demo_xorb_rows))"
  by (rule load_xorb_map_groups [OF demo_load])

definition demo_cache :: "string lru_cache" where
  "demo_cache = \<lparr>capacity_bytes = 10, ttl_seconds = None, lru_entries = [(''X'', 10, 0)], used_bytes = 10\<rparr>"

theorem put_resize_drifts_witness:
  "used_bytes (projr (lru_put ''X'' 1 5 demo_cache)) -
     entry_bytes (lru_entries (projr (lru_put ''X'' 1 5 demo_cache))) = 10 - 1"
proof -
  have "lru_put ''X'' 1 5 demo_cache = Inr (projr (lru_put ''X'' 1 5 demo_cache))"
    by (rule res_not_isl) code_simp
  then show ?thesis
    by (intro put_resize_drifts [of demo_cache "''X''" 10 0])
      (simp_all add: lru_inv_def demo_cache_def dict_wf_def)
qed

end
