(* ===== verification/Recency.thy ===== *)
theory Recency
  imports Locality_Sim
begin

text \<open>
  What the simulator promises of its cache, without eviction loops, byte counters and dicts: a
  list of keys with the times they were last seen, the most recent last, of which a cache keeps
  the longest end that fits. The LRU cache of the code refines it, access by access and over a
  whole replay.
\<close>

section \<open>The abstract cache\<close>

type_synonym 'k recency = "('k \<times> rat) list"

definition weight :: "('k \<Rightarrow> int) \<Rightarrow> 'k recency \<Rightarrow> int" where
  "weight sz es = sum_list (map (\<lambda>(k, t). sz k) es)"

text \<open>The longest end of the list that weighs at most \<open>cap\<close>.\<close>

definition longest_fit :: "('k \<Rightarrow> int) \<Rightarrow> int \<Rightarrow> 'k recency \<Rightarrow> 'k recency" where
  "longest_fit sz cap es =
    (case filter (\<lambda>i. weight sz (drop i es) \<le> cap) [0..<length es] of
       [] \<Rightarrow> []
     | i # _ \<Rightarrow> drop i es)"

definition seen_fresh :: "rat option \<Rightarrow> 'k \<Rightarrow> rat \<Rightarrow> 'k recency \<Rightarrow> bool" where
  "seen_fresh ttl k now es \<longleftrightarrow>
    list_ex (\<lambda>(k', t). k' = k \<and> (case ttl of None \<Rightarrow> True | Some s \<Rightarrow> now - t \<le> s)) es"

definition see ::
  "('k \<Rightarrow> int) \<Rightarrow> int \<Rightarrow> rat option \<Rightarrow> 'k \<Rightarrow> rat \<Rightarrow> 'k recency \<Rightarrow> bool \<times> 'k recency" where
  "see sz cap ttl k now es =
    (seen_fresh ttl k now es,
     if cap < sz k then es else longest_fit sz cap (filter (\<lambda>(k', t). k' \<noteq> k) es @ [(k, now)]))"

fun see_all ::
  "('k \<Rightarrow> int) \<Rightarrow> int \<Rightarrow> rat option \<Rightarrow> ('k \<times> rat) list \<Rightarrow> 'k recency \<Rightarrow> bool list" where
  "see_all sz cap ttl [] es = []"
| "see_all sz cap ttl ((k, now) # items) es =
    fst (see sz cap ttl k now es) # see_all sz cap ttl items (snd (see sz cap ttl k now es))"

section \<open>The code's cache refines it\<close>

definition recency_of :: "'k lru_cache \<Rightarrow> 'k recency" where
  "recency_of c = map (\<lambda>(k, s, t). (k, t)) (lru_entries c)"

lemma weight_entries:
  "sized sz es \<Longrightarrow> weight sz (map (\<lambda>(k, s, t). (k, t)) es) = entry_bytes es"
  by (induction es) (auto simp: weight_def)

lemma longest_fit_Cons:
  "longest_fit sz cap (e # es) = (if weight sz (e # es) \<le> cap then e # es else longest_fit sz cap es)"
proof -
  have upt: "[0..<length (e # es)] = 0 # map Suc [0..<length es]"
    by (simp add: upt_conv_Cons map_Suc_upt del: upt_Suc)
  have tail: "filter (\<lambda>i. weight sz (drop i (e # es)) \<le> cap) (map Suc [0..<length es]) =
      map Suc (filter (\<lambda>i. weight sz (drop i es) \<le> cap) [0..<length es])"
    by (simp add: filter_map comp_def)
  show ?thesis
    unfolding longest_fit_def upt filter.simps drop_0 tail by (simp split: list.split)
qed

lemma fit_is_longest:
  "sized sz es \<Longrightarrow>
    map (\<lambda>(k, s, t). (k, t)) (fit cap es) = longest_fit sz cap (map (\<lambda>(k, s, t). (k, t)) es)"
proof (induction es)
  case Nil
  show ?case by (simp add: longest_fit_def)
next
  case (Cons e es)
  then show ?case
    using weight_entries [OF Cons.prems] by (cases e) (simp add: longest_fit_Cons)
qed

lemma recency_delete:
  "map (\<lambda>(k, s, t). (k, t)) (AList.delete k es) = filter (\<lambda>(k', t). k' \<noteq> k) (map (\<lambda>(k, s, t). (k, t)) es)"
  by (induction es) auto

lemma seen_fresh_lru:
  "lru_inv c \<Longrightarrow> lru_fresh k now c = seen_fresh (ttl_seconds c) k now (recency_of c)"
proof -
  assume "lru_inv c"
  then have wf: "distinct (map fst (lru_entries c))" by (simp add: lru_inv_def dict_wf_def)
  show ?thesis
  proof (cases "map_of (lru_entries c) k")
    case None
    then have "(k, v) \<notin> set (lru_entries c)" for v by (force simp: map_of_eq_None_iff)
    then show ?thesis
      using None by (auto simp: lru_fresh_def seen_fresh_def recency_of_def list_ex_iff)
  next
    case (Some v)
    obtain s t where v: "v = (s, t)" by force
    have "(k, s', t') \<in> set (lru_entries c) \<longleftrightarrow> (s', t') = (s, t)" for s' t'
      using Some v wf map_of_eq_Some_iff [OF wf, of k "(s', t')"] by auto
    then show ?thesis
      using Some v by (force simp: lru_fresh_def seen_fresh_def recency_of_def list_ex_iff)
  qed
qed

lemma access_refines:
  assumes "\<And>k. 0 \<le> sz k" and "cache_ok sz c"
  obtains c' where "lru_access k (sz k) now c =
      Inr (fst (see sz (capacity_bytes c) (ttl_seconds c) k now (recency_of c)), c')"
    and "recency_of c' = snd (see sz (capacity_bytes c) (ttl_seconds c) k now (recency_of c))"
    and "cache_ok sz c'" and "capacity_bytes c' = capacity_bytes c" and "ttl_seconds c' = ttl_seconds c"
proof -
  have inv: "lru_inv c" "sized sz (lru_entries c)" using assms(2) by (simp_all add: cache_ok_def)
  obtain c' where c': "lru_access k (sz k) now c = Inr (lru_fresh k now c, c')" "cache_ok sz c'"
      "capacity_bytes c' = capacity_bytes c" "ttl_seconds c' = ttl_seconds c"
    using lru_access_ok [of sz c k now, OF assms(1,2)] by blast
  have "recency_of c' = snd (see sz (capacity_bytes c) (ttl_seconds c) k now (recency_of c))"
  proof (cases "sz k \<le> capacity_bytes c")
    case True
    have "c' = touch k (sz k) now c"
      using lru_access_touch [OF inv(1) sized_stored_as [OF inv(2)] True] c'(1) by simp
    moreover have "sized sz (AList.delete k (lru_entries c) @ [(k, sz k, now)])"
      using inv(2) by simp
    ultimately show ?thesis
      using True by (simp add: see_def recency_of_def touch_def Let_def fit_is_longest recency_delete)
  next
    case False
    have "k \<notin> fst ` set (lru_entries c)"
      using entry_le_bytes [of sz "lru_entries c" k, OF assms(1)] inv False by (auto simp: lru_inv_def)
    then have "map_of (lru_entries c) k = None" by (simp add: map_of_eq_None_iff)
    then have "c' = c" using c'(1) False lru_access_too_big [of c k "sz k" now] by simp
    then show ?thesis using False by (simp add: see_def)
  qed
  then show thesis using that c' seen_fresh_lru [OF inv(1), of k now] by (simp add: see_def)
qed

lemma run_refines:
  assumes "\<And>k. 0 \<le> sz k" and "cache_ok sz c" and "\<forall>(k, s, t) \<in> set items. s = sz k"
  shows "run_one lru_access items c =
    Inr (see_all sz (capacity_bytes c) (ttl_seconds c) (map (\<lambda>(k, s, t). (k, t)) items) (recency_of c))"
  using assms(2,3)
proof (induction items arbitrary: c)
  case (Cons item items)
  obtain k now where item: "item = (k, sz k, now)" using Cons.prems(2) by (cases item) auto
  obtain c' where "lru_access k (sz k) now c =
      Inr (fst (see sz (capacity_bytes c) (ttl_seconds c) k now (recency_of c)), c')"
    and "recency_of c' = snd (see sz (capacity_bytes c) (ttl_seconds c) k now (recency_of c))"
    and "cache_ok sz c'" and "capacity_bytes c' = capacity_bytes c" and "ttl_seconds c' = ttl_seconds c"
    using access_refines [of sz c k now, OF assms(1) Cons.prems(1)] by blast
  then show ?case using Cons.IH [of c'] Cons.prems(2) item by simp
qed simp

lemma recency_new [simp]: "recency_of (new_lru cap ttl) = []"
    "capacity_bytes (new_lru cap ttl) = cap" "ttl_seconds (new_lru cap ttl) = ttl"
  by (simp_all add: recency_of_def new_lru_def)

text \<open>C11: The simulator refines the abstract cache: when every model has one size, the hit flags of the starts on
  a node are those of a list of the models seen there, most recent last, of which the cache holds
  the longest end that fits.\<close>

theorem simulate_refines_recency:
  assumes "scope \<in> set scopes" and "simulate events scope cap ttl = Inr result" and "0 \<le> cap"
    and "\<And>m. 0 \<le> sz m"
    and "model_sizes sz (frame_rows events)"
  shows "map snd (filter (\<lambda>(e, hit). tier1_node (frame_columns events) scope e = n) (frame_rows result)) =
    see_all sz cap ttl (map (\<lambda>e. (event_model e, ev_ts e))
      (filter (\<lambda>e. tier1_node (frame_columns events) scope e = n) (frame_rows events))) []"
proof -
  let ?node = "tier1_node (frame_columns events) scope" and ?rows = "frame_rows events"
  let ?own = "map (\<lambda>e. (event_model e, ev_model_size_bytes e, ev_ts e)) (filter (\<lambda>e. ?node e = n) ?rows)"
  have "own_items n (tier1_items (frame_columns events) scope ?rows) = ?own"
    by (simp add: own_items_def tier1_items_def filter_map comp_def)
  then have "run_one lru_access ?own (new_lru cap ttl) =
      Inr (map snd (filter (\<lambda>(e, hit). ?node e = n) (frame_rows result)))"
    using run_nodes_own [OF simulate_eq_Inr(1) [OF assms(1,2)], of n] simulate_eq_Inr(2,3) [OF assms(1,2)]
    by (simp add: own_hits_tier1)
  moreover have "run_one lru_access ?own (new_lru cap ttl) = Inr (see_all sz cap ttl
      (map (\<lambda>e. (event_model e, ev_ts e)) (filter (\<lambda>e. ?node e = n) ?rows)) [])"
    using run_refines [of sz "new_lru cap ttl" ?own, OF assms(4) cache_ok_new [OF assms(3)]] assms(5)
    by (simp add: model_sizes_def comp_def recency_new)
  ultimately show ?thesis by simp
qed

theorem simulate_refines_recency_witness:
  "see_all demo_sizes 10 None [((''a'', ''r1''), 0), ((''b'', ''r1''), 1), ((''a'', ''r1''), 2)] [] =
    map snd (filter (\<lambda>(e, hit). tier1_node (frame_columns demo_log) ''host'' e = ''H100::h0'')
      (frame_rows (projr (simulate demo_log ''host'' 10 None))))"
proof -
  have own: "map (\<lambda>e. (event_model e, ev_ts e)) (filter (\<lambda>e. tier1_node (frame_columns demo_log) ''host'' e = ''H100::h0'')
      (frame_rows demo_log)) = [((''a'', ''r1''), 0), ((''b'', ''r1''), 1), ((''a'', ''r1''), 2)]"
    by code_simp
  show ?thesis
    using simulate_refines_recency [OF _ demo_run(2) _ demo_sizes_nonneg demo_model_sizes, of "''H100::h0''"]
    unfolding own by (simp add: scopes_def)
qed

end
