(* ===== verification/Py_Text.thy ===== *)
theory Py_Text
  imports Py_Base
begin

text \<open>
  The text operations of Python that the program uses, on strings as lists of (UTF-8) bytes:
  \<open>sep.join\<close>, \<open>split\<close> on one character, \<open>partition\<close>, \<open>rsplit(c, 1)[-1]\<close>, \<open>replace\<close> of one
  character, \<open>lower\<close>, \<open>strip\<close>, \<open>startswith\<close> and \<open>in\<close>, \<open>str\<close> and \<open>int\<close> of integers,
  \<open>repr\<close>. The round trips that the environment variables rely on are proved here; a text
  encoding that is handed over in an environment variable is the locale \<open>text_codec\<close>.
\<close>

section \<open>Joining and splitting\<close>

fun join_text :: "string \<Rightarrow> string list \<Rightarrow> string" where
  "join_text sep [] = []"
| "join_text sep [s] = s"
| "join_text sep (s # t # ts) = s @ sep @ join_text sep (t # ts)"

fun split_text :: "char \<Rightarrow> string \<Rightarrow> string list" where
  "split_text c [] = [[]]"
| "split_text c (x # s) =
    (if x = c then [] # split_text c s
     else (case split_text c s of [] \<Rightarrow> [[x]] | t # ts \<Rightarrow> (x # t) # ts))"

lemma split_text_not_Nil [simp]: "split_text c s \<noteq> []"
  by (cases s) (auto split: list.split)

lemma split_text_no_sep: "c \<notin> set s \<Longrightarrow> split_text c s = [s]"
  by (induction s) auto

lemma split_text_append: "c \<notin> set s \<Longrightarrow> split_text c (s @ c # t) = s # split_text c t"
  by (induction s) auto

lemma split_join:
  "ts \<noteq> [] \<Longrightarrow> list_all (\<lambda>t. c \<notin> set t) ts \<Longrightarrow> split_text c (join_text [c] ts) = ts"
  by (induction "[c]" ts rule: join_text.induct)
    (auto simp: split_text_no_sep split_text_append)

lemma join_split: "join_text [c] (split_text c s) = s"
proof (induction s)
  case (Cons x s)
  obtain t ts where "split_text c s = t # ts" by (cases "split_text c s") auto
  with Cons show ?case by (cases ts) auto
qed simp

lemma split_text_pieces: "t \<in> set (split_text c s) \<Longrightarrow> c \<notin> set t"
proof (induction s arbitrary: t)
  case (Cons x s)
  then show ?case by (auto split: if_splits list.splits)
qed simp

text \<open>\<open>s.partition(c)\<close>, as the parts before and after: without \<open>c\<close> all of \<open>s\<close> is before.\<close>

definition before_char :: "char \<Rightarrow> string \<Rightarrow> string" where
  "before_char c s = takeWhile (\<lambda>x. x \<noteq> c) s"

definition after_char :: "char \<Rightarrow> string \<Rightarrow> string" where
  "after_char c s = tl (dropWhile (\<lambda>x. x \<noteq> c) s)"

text \<open>\<open>s.rsplit(c, 1)[-1]\<close>.\<close>

definition after_last :: "char \<Rightarrow> string \<Rightarrow> string" where
  "after_last c s = rev (takeWhile (\<lambda>x. x \<noteq> c) (rev s))"

lemma takeWhile_absent: "c \<notin> set s \<Longrightarrow> takeWhile (\<lambda>x. x \<noteq> c) s = s"
  by (induction s) auto

lemma takeWhile_upto: "c \<notin> set s \<Longrightarrow> takeWhile (\<lambda>x. x \<noteq> c) (s @ c # t) = s"
  by (induction s) auto

lemma dropWhile_upto: "c \<notin> set s \<Longrightarrow> dropWhile (\<lambda>x. x \<noteq> c) (s @ c # t) = c # t"
  by (induction s) auto

lemma dropWhile_absent: "c \<notin> set s \<Longrightarrow> dropWhile (\<lambda>x. x \<noteq> c) s = []"
  by (induction s) auto

lemma before_char_append [simp]: "c \<notin> set s \<Longrightarrow> before_char c (s @ c # t) = s"
  by (simp add: before_char_def takeWhile_upto)

lemma after_char_append [simp]: "c \<notin> set s \<Longrightarrow> after_char c (s @ c # t) = t"
  by (simp add: after_char_def dropWhile_upto)

lemma before_char_none [simp]: "c \<notin> set s \<Longrightarrow> before_char c s = s"
  by (simp add: before_char_def takeWhile_absent)

lemma after_char_none [simp]: "c \<notin> set s \<Longrightarrow> after_char c s = []"
  by (simp add: after_char_def dropWhile_absent)

lemma after_last_append [simp]: "c \<notin> set t \<Longrightarrow> after_last c (s @ c # t) = t"
  using takeWhile_upto [of c "rev t" "rev s"] by (simp add: after_last_def)

lemma after_last_none [simp]: "c \<notin> set t \<Longrightarrow> after_last c t = t"
  unfolding after_last_def using takeWhile_absent [of c "rev t"]
  by (simp del: takeWhile_eq_all_conv)

definition replace_char :: "char \<Rightarrow> char \<Rightarrow> string \<Rightarrow> string" where
  "replace_char a b s = map (\<lambda>x. if x = a then b else x) s"

definition has_text :: "string \<Rightarrow> string \<Rightarrow> bool" where
  "has_text needle s \<longleftrightarrow> sublist needle s"

definition starts_with :: "string \<Rightarrow> string \<Rightarrow> bool" where
  "starts_with p s \<longleftrightarrow> prefix p s"

definition lower_char :: "char \<Rightarrow> char" where
  "lower_char x = (let n = of_char x :: nat in if 65 \<le> n \<and> n \<le> 90 then char_of (n + 32) else x)"

definition lower_text :: "string \<Rightarrow> string" where
  "lower_text s = map lower_char s"

definition is_space :: "char \<Rightarrow> bool" where
  "is_space x = (let n = of_char x :: nat in n = 32 \<or> (9 \<le> n \<and> n \<le> 13) \<or> (28 \<le> n \<and> n \<le> 31))"

definition strip_text :: "string \<Rightarrow> string" where
  "strip_text s = rev (dropWhile is_space (rev (dropWhile is_space s)))"

lemma lower_char_idem [simp]: "lower_char (lower_char x) = lower_char x"
  by (simp add: lower_char_def Let_def)

lemma lower_text_idem [simp]: "lower_text (lower_text s) = lower_text s"
  by (simp add: lower_text_def)

lemma strip_text_id:
  "s \<noteq> [] \<Longrightarrow> \<not> is_space (hd s) \<Longrightarrow> \<not> is_space (last s) \<Longrightarrow> strip_text s = s"
proof -
  assume s: "s \<noteq> []" "\<not> is_space (hd s)" "\<not> is_space (last s)"
  have "dropWhile is_space s = s" using s by (cases s) auto
  moreover have "dropWhile is_space (rev s) = rev s" using s by (cases s rule: rev_cases) auto
  ultimately show ?thesis by (simp add: strip_text_def)
qed

section \<open>Messages\<close>

definition digit_char :: "nat \<Rightarrow> char" where
  "digit_char d = char_of (48 + d)"

text \<open>\<open>repr\<close> of a text, and of a list or tuple of texts.\<close>

definition hex_digit :: "nat \<Rightarrow> char" where
  "hex_digit d = (if d < 10 then digit_char d else char_of (87 + d))"

definition repr_char :: "char \<Rightarrow> char \<Rightarrow> string" where
  "repr_char quote x =
    (let n = of_char x :: nat; bs = CHR 0x5C
     in if x = quote \<or> x = bs then [bs, x]
        else if n = 10 then [bs, CHR ''n''] else if n = 13 then [bs, CHR ''r'']
        else if n = 9 then [bs, CHR ''t'']
        else if n < 32 \<or> n = 127 then [bs, CHR ''x'', hex_digit (n div 16), hex_digit (n mod 16)]
        else [x])"

definition py_repr :: "string \<Rightarrow> string" where
  "py_repr s =
    (let q = (if CHR 0x27 \<in> set s \<and> CHR 0x22 \<notin> set s then CHR 0x22 else CHR 0x27)
     in [q] @ concat (map (repr_char q) s) @ [q])"

definition repr_list :: "string list \<Rightarrow> string" where
  "repr_list xs = ''['' @ join_text '', '' (map py_repr xs) @ '']''"

text \<open>The em dash of the messages, as its bytes.\<close>

definition em_dash :: string where
  "em_dash = map char_of [226, 128, 148 :: nat]"

section \<open>Integers as text\<close>

definition digit_val :: "char \<Rightarrow> nat option" where
  "digit_val x = (let n = of_char x :: nat in if 48 \<le> n \<and> n \<le> 57 then Some (n - 48) else None)"

text \<open>\<open>str(n)\<close>.\<close>

fun str_nat :: "nat \<Rightarrow> string" where
  "str_nat n = (if n < 10 then [digit_char n] else str_nat (n div 10) @ [digit_char (n mod 10)])"

declare str_nat.simps [simp del]

definition str_int :: "int \<Rightarrow> string" where
  "str_int i = (if i < 0 then CHR ''-'' # str_nat (nat (- i)) else str_nat (nat i))"

text \<open>
  \<open>int(text)\<close>: surrounding white space, one sign, decimal digits, single underscores between
  digits. The flag says whether the character before was a digit.
\<close>

fun parse_digits :: "bool \<Rightarrow> nat \<Rightarrow> string \<Rightarrow> nat option" where
  "parse_digits after_digit acc [] = (if after_digit then Some acc else None)"
| "parse_digits after_digit acc (x # s) =
    (case digit_val x of
       Some d \<Rightarrow> parse_digits True (10 * acc + d) s
     | None \<Rightarrow> if after_digit \<and> x = CHR ''_'' then parse_digits False acc s else None)"

definition parse_int :: "string \<Rightarrow> int option" where
  "parse_int text =
    (case strip_text text of
       [] \<Rightarrow> None
     | x # s \<Rightarrow>
         if x = CHR ''-'' then map_option (\<lambda>n. - int n) (parse_digits False 0 s)
         else if x = CHR ''+'' then map_option int (parse_digits False 0 s)
         else map_option int (parse_digits False 0 (x # s)))"

lemma digit_val_char [simp]: "d < 10 \<Longrightarrow> digit_val (digit_char d) = Some d"
  by (simp add: digit_val_def digit_char_def)

lemma digit_char_values:
  "digit_char 0 = CHR ''0''"
  "digit_char 1 = CHR ''1''"
  "digit_char 2 = CHR ''2''"
  "digit_char 3 = CHR ''3''"
  "digit_char 4 = CHR ''4''"
  "digit_char 5 = CHR ''5''"
  "digit_char 6 = CHR ''6''"
  "digit_char 7 = CHR ''7''"
  "digit_char 8 = CHR ''8''"
  "digit_char 9 = CHR ''9''"
  "digit_char (Suc 0) = CHR ''1''"
  by code_simp+

lemma digit_not_space [simp]: "d < 10 \<Longrightarrow> \<not> is_space (digit_char d)"
  by (simp add: is_space_def digit_char_def)

lemma digit_char_neq:
  "d < 10 \<Longrightarrow> digit_val x = None \<Longrightarrow> digit_char d \<noteq> x"
  by auto

lemma str_nat_not_Nil [simp]: "str_nat n \<noteq> []"
  by (subst str_nat.simps) simp

lemma str_nat_digits: "x \<in> set (str_nat n) \<Longrightarrow> \<exists>d < 10. x = digit_char d"
proof (induction n rule: str_nat.induct)
  case (1 n)
  have "\<exists>d < 10. digit_char (n mod 10) = digit_char d" by (rule exI [of _ "n mod 10"]) simp
  with 1 show ?case by (subst (asm) (2) str_nat.simps) (auto split: if_splits)
qed

lemma str_nat_no [simp]: "digit_val x = None \<Longrightarrow> x \<notin> set (str_nat n)"
  using digit_char_neq str_nat_digits by blast

lemma parse_digits_str_nat:
  "parse_digits b acc (str_nat n @ s) = parse_digits True (acc * 10 ^ length (str_nat n) + n) s"
proof (induction n arbitrary: b acc s rule: str_nat.induct)
  case (1 n)
  show ?case
  proof (cases "n < 10")
    case True
    then show ?thesis by (simp add: str_nat.simps [of n] algebra_simps)
  next
    case False
    have "str_nat n = str_nat (n div 10) @ [digit_char (n mod 10)]"
      using False by (simp add: str_nat.simps [of n])
    moreover have "10 * (n div 10) + n mod 10 = n" by simp
    ultimately show ?thesis using 1 [OF False] by (simp add: algebra_simps)
  qed
qed

lemma parse_digits_str_nat_all: "parse_digits b 0 (str_nat n) = Some n"
  using parse_digits_str_nat [of b 0 n "[]"] by simp

lemma hd_str_nat_not_sign:
  "digit_val x = None \<Longrightarrow> hd (str_nat n) \<noteq> x"
  by (metis hd_in_set str_nat_no str_nat_not_Nil)

lemma str_nat_ends: "\<not> is_space (hd (str_nat n)) \<and> \<not> is_space (last (str_nat n))"
  by (metis digit_not_space hd_in_set last_in_set str_nat_digits str_nat_not_Nil)

lemma parse_int_str_nat: "parse_int (str_nat n) = Some (int n)"
proof -
  have strip: "strip_text (str_nat n) = str_nat n"
    using str_nat_ends by (intro strip_text_id) auto
  obtain x s where xs: "str_nat n = x # s" by (cases "str_nat n") auto
  have "x \<noteq> CHR ''-''" "x \<noteq> CHR ''+''"
    using hd_str_nat_not_sign [of "CHR ''-''" n] hd_str_nat_not_sign [of "CHR ''+''" n] xs
    by (simp_all add: digit_val_def)
  then show ?thesis
    using parse_digits_str_nat_all [of False n] strip
    by (simp add: parse_int_def xs del: parse_digits.simps)
qed

lemma parse_int_str_int: "parse_int (str_int i) = Some i"
proof (cases "i < 0")
  case True
  let ?n = "nat (- i)"
  have "strip_text (CHR ''-'' # str_nat ?n) = CHR ''-'' # str_nat ?n"
    using str_nat_ends [of ?n] by (intro strip_text_id) (auto simp: is_space_def)
  then show ?thesis
    using True parse_digits_str_nat_all [of False ?n] by (simp add: parse_int_def str_int_def)
next
  case False
  then show ?thesis using parse_int_str_nat [of "nat i"] by (simp add: str_int_def)
qed

lemma str_nat_inject [simp]: "(str_nat n = str_nat k) = (n = k)"
  using parse_int_str_nat by (metis of_nat_eq_iff option.inject)

lemma str_int_no:
  "digit_val x = None \<Longrightarrow> x \<noteq> CHR ''-'' \<Longrightarrow> x \<notin> set (str_int i)"
  by (simp add: str_int_def)

definition invalid_int :: "string \<Rightarrow> string" where
  "invalid_int text = ''invalid literal for int() with base 10: '' @ py_repr text"

definition int_of_text :: "string \<Rightarrow> int res" where
  "int_of_text text =
    (case parse_int text of None \<Rightarrow> Inl (ValueError (invalid_int text)) | Some i \<Rightarrow> Inr i)"

lemma int_of_text_str_int [simp]: "int_of_text (str_int i) = Inr i"
  by (simp add: int_of_text_def parse_int_str_int)

section \<open>Values handed over as text\<close>

text \<open>
  A value that one process writes as text under a key of an environment and another reads
  back. The law is the round trip on the values the encoding is good for.
\<close>

locale text_codec =
  fixes enc :: "'a \<Rightarrow> string" and dec :: "string \<Rightarrow> 'a res" and good :: "'a \<Rightarrow> bool"
  assumes roundtrip: "good x \<Longrightarrow> dec (enc x) = Inr x"
begin

lemma enc_injective: "good x \<Longrightarrow> good y \<Longrightarrow> enc x = enc y \<Longrightarrow> x = y"
  using roundtrip by (metis sum.inject(2))

lemma through_env:
  assumes "map_of e k = Some (enc x)" and "good x"
  shows "dec (dict_get k d e) = Inr x"
  using assms by (simp add: dict_get_def roundtrip)

end

interpretation int_codec: text_codec str_int int_of_text "\<lambda>_. True"
  by unfold_locales simp

text \<open>\<open>','.join(xs)\<close>, read back by \<open>[x for x in text.split(',') if x]\<close>.\<close>

definition join_commas :: "string list \<Rightarrow> string" where
  "join_commas xs = join_text '','' xs"

definition split_commas :: "string \<Rightarrow> string list" where
  "split_commas text = filter (\<lambda>x. x \<noteq> []) (split_text CHR '','' text)"

definition comma_items :: "string list \<Rightarrow> bool" where
  "comma_items xs \<longleftrightarrow> list_all (\<lambda>x. x \<noteq> [] \<and> CHR '','' \<notin> set x) xs"

lemma split_join_commas: "comma_items xs \<Longrightarrow> split_commas (join_commas xs) = xs"
proof (cases xs)
  case Nil
  then show ?thesis by (simp add: split_commas_def join_commas_def)
next
  case (Cons y ys)
  assume ok: "comma_items xs"
  then have "list_all (\<lambda>t. CHR '','' \<notin> set t) xs"
    by (auto simp: comma_items_def list_all_iff)
  then have "split_text CHR '','' (join_text '','' xs) = xs"
    using Cons by (intro split_join) auto
  moreover have "filter (\<lambda>x. x \<noteq> []) xs = xs"
    using ok by (auto simp: comma_items_def list_all_iff filter_id_conv)
  ultimately show ?thesis by (simp add: split_commas_def join_commas_def)
qed

interpretation list_codec: text_codec join_commas "\<lambda>s. Inr (split_commas s)" comma_items
  by unfold_locales (simp add: split_join_commas)

end
