(* ===== verification/Testbed_Config.thy ===== *)
theory Testbed_Config
  imports Py_Text "HOL-Library.List_Lexorder" "HOL-Library.Char_ord"
begin

text \<open>
  \<open>runpod_testbed/config.py\<close>: from the document that \<open>tomllib.loads\<close> returns to a checked
  \<open>Config\<close>. The document is a dictionary of \<open>toml\<close> values. A value of another type than the
  data class declares is reported as \<open>ill_typed\<close> when the record is built (Python would keep
  it and fail, or not, where it is used).
\<close>

section \<open>Documents\<close>

datatype toml =
    TStr string
  | TInt int
  | TFloat rat
  | TBool bool
  | TArr "toml list"
  | TTab "(string \<times> toml) list"

type_synonym document = "(string, toml) pydict"

definition ill_typed :: "string \<Rightarrow> pyerr" where
  "ill_typed what = OtherError (''not of the declared type: '' @ what)"

definition as_str :: "toml \<Rightarrow> string res" where
  "as_str v = (case v of TStr s \<Rightarrow> Inr s | _ \<Rightarrow> Inl (ill_typed ''str''))"

definition as_int :: "toml \<Rightarrow> int res" where
  "as_int v = (case v of TInt i \<Rightarrow> Inr i | _ \<Rightarrow> Inl (ill_typed ''int''))"

definition as_strs :: "toml \<Rightarrow> string list res" where
  "as_strs v = (case v of TArr vs \<Rightarrow> map_res as_str vs | _ \<Rightarrow> Inl (ill_typed ''list[str]''))"

definition as_table :: "toml \<Rightarrow> document res" where
  "as_table v = (case v of TTab d \<Rightarrow> Inr d | _ \<Rightarrow> Inl (ill_typed ''dict''))"

definition as_dict :: "(toml \<Rightarrow> 'a res) \<Rightarrow> toml \<Rightarrow> (string, 'a) pydict res" where
  "as_dict value v =
    res_bind (as_table v) (map_res (\<lambda>(k, x). res_bind (value x) (\<lambda>y. Inr (k, y))))"

text \<open>\<open>int(v)\<close> of a value of the document.\<close>

definition toml_int :: "toml \<Rightarrow> int res" where
  "toml_int v =
    (case v of
       TInt i \<Rightarrow> Inr i
     | TFloat x \<Rightarrow> Inr (if 0 \<le> x then \<lfloor>x\<rfloor> else \<lceil>x\<rceil>)
     | TBool b \<Rightarrow> Inr (if b then 1 else 0)
     | TStr s \<Rightarrow> int_of_text s
     | _ \<Rightarrow> Inl (TypeError ''int() argument must be a string, a bytes-like object or a real number''))"

section \<open>The configuration\<close>

record config =
  cfg_dc :: string
  cfg_registry :: string
  cfg_cache_image :: string
  cfg_worker_cpu :: string
  cfg_worker_deps :: "string list"
  cfg_models :: "string list"
  cfg_overlap :: "(string, string list) pydict"
  cfg_burst :: int
  cfg_max_pods :: int
  cfg_max_burst :: int
  cfg_pod_instance_id :: string
  cfg_container_disk_gb :: int
  cfg_scrape_interval_s :: int
  cfg_job_timeout_s :: int
  cfg_mechanism :: string
  cfg_volume_gb :: int
  cfg_modelstore_endpoints :: "(string, string) pydict"
  cfg_worker_gpu :: string

definition SUPPORTED_MECHANISMS :: "string list" where
  "SUPPORTED_MECHANISMS = [''shim'', ''volumecache'', ''modelstore'']"

definition SHARED :: "string list" where
  "SHARED = [''dc'', ''worker_cpu'', ''worker_deps'', ''models'', ''burst'', ''max_burst'',
     ''container_disk_gb'', ''scrape_interval_s'', ''job_timeout_s'', ''worker_gpu'']"

definition SHIM :: "string list" where
  "SHIM = [''registry'', ''cache_image'', ''overlap'', ''max_pods'', ''pod_instance_id'']"

definition SHIM_ABSENT :: document where
  "SHIM_ABSENT = [(''registry'', TStr []), (''cache_image'', TStr []), (''overlap'', TTab []),
     (''max_pods'', TInt 0), (''pod_instance_id'', TStr [])]"

definition DEFAULTS :: document where
  "DEFAULTS = [(''dc'', TStr ''EU-RO-1''), (''job_timeout_s'', TInt 600), (''worker_gpu'', TStr [])]"

text \<open>\<open>_shim_section\<close>: the subtable, completed by keys of the same name at the top level.\<close>

definition shim_section :: "document \<Rightarrow> document res" where
  "shim_section raw =
    res_bind (as_table (dict_get ''shim'' (TTab []) raw)) (\<lambda>shim.
      Inr (fold (\<lambda>key shim. case map_of raw key of
                    Some v \<Rightarrow> if has_key key shim then shim else AList.update key v shim
                  | None \<Rightarrow> shim) SHIM shim))"

definition mechanism_fields :: "document \<Rightarrow> string \<Rightarrow> document res" where
  "mechanism_fields raw mechanism =
    (if mechanism \<notin> set SUPPORTED_MECHANISMS
     then Inl (ValueError (''unknown mechanism '' @ py_repr mechanism @ ''; expected one of ('' @
            join_text '', '' (map py_repr SUPPORTED_MECHANISMS) @ '')''))
     else res_bind (shim_section raw) (\<lambda>shim.
       let missing = filter (\<lambda>k. \<not> has_key k shim) SHIM in
       if mechanism = ''shim'' \<and> missing \<noteq> []
       then Inl (ValueError (''config missing [shim] keys: '' @ repr_list missing))
       else res_bind (if mechanism = ''shim''
                      then map_res (\<lambda>k. res_bind (dict_item k shim) (\<lambda>v. Inr (k, v))) SHIM
                      else Inr SHIM_ABSENT) (\<lambda>own.
         res_bind (as_table (dict_get ''volumecache'' (TTab []) raw)) (\<lambda>vc.
           if mechanism = ''volumecache'' \<and> \<not> has_key ''volume_gb'' vc
           then Inl (ValueError ''config missing [volumecache] volume_gb'')
           else res_bind (toml_int (dict_get ''volume_gb'' (TInt 0) vc)) (\<lambda>gb.
             res_bind (as_table (dict_get ''modelstore'' (TTab []) raw)) (\<lambda>ms.
               res_bind (as_table (dict_get ''endpoints'' (TTab []) ms)) (\<lambda>eps.
                 Inr (own @ [(''volume_gb'', TInt gb),
                                (''modelstore_endpoints'', TTab eps)]))))))))"

text \<open>\<open>Config(**shared, mechanism=..., **own)\<close>: every field by its key and declared type.\<close>

definition make_config :: "document \<Rightarrow> string \<Rightarrow> document \<Rightarrow> config res" where
  "make_config raw mechanism own =
    (let str_at = (\<lambda>d k. res_bind (dict_item k d) as_str);
         int_at = (\<lambda>d k. res_bind (dict_item k d) as_int)
     in res_bind (str_at raw ''dc'') (\<lambda>dc.
        res_bind (str_at raw ''worker_cpu'') (\<lambda>cpu.
        res_bind (res_bind (dict_item ''worker_deps'' raw) as_strs) (\<lambda>deps.
        res_bind (res_bind (dict_item ''models'' raw) as_strs) (\<lambda>models.
        res_bind (int_at raw ''burst'') (\<lambda>burst.
        res_bind (int_at raw ''max_burst'') (\<lambda>max_burst.
        res_bind (int_at raw ''container_disk_gb'') (\<lambda>disk.
        res_bind (int_at raw ''scrape_interval_s'') (\<lambda>interval.
        res_bind (int_at raw ''job_timeout_s'') (\<lambda>job_timeout.
        res_bind (str_at raw ''worker_gpu'') (\<lambda>gpu.
        res_bind (str_at own ''registry'') (\<lambda>registry.
        res_bind (str_at own ''cache_image'') (\<lambda>image.
        res_bind (res_bind (dict_item ''overlap'' own) (as_dict as_strs)) (\<lambda>overlap.
        res_bind (int_at own ''max_pods'') (\<lambda>max_pods.
        res_bind (str_at own ''pod_instance_id'') (\<lambda>instance.
        res_bind (int_at own ''volume_gb'') (\<lambda>gb.
        res_bind (res_bind (dict_item ''modelstore_endpoints'' own) (as_dict as_str)) (\<lambda>eps.
          Inr \<lparr>cfg_dc = dc, cfg_registry = registry, cfg_cache_image = image,
               cfg_worker_cpu = cpu, cfg_worker_deps = deps, cfg_models = models,
               cfg_overlap = overlap, cfg_burst = burst, cfg_max_pods = max_pods,
               cfg_max_burst = max_burst, cfg_pod_instance_id = instance,
               cfg_container_disk_gb = disk, cfg_scrape_interval_s = interval,
               cfg_job_timeout_s = job_timeout, cfg_mechanism = mechanism,
               cfg_volume_gb = gb, cfg_modelstore_endpoints = eps,
               cfg_worker_gpu = gpu\<rparr>))))))))))))))))))"

section \<open>The checks\<close>

definition placeholders :: "config \<Rightarrow> string list" where
  "placeholders cfg =
    map (\<lambda>(n, v). n @ ''='' @ v)
      (filter (\<lambda>(n, v). has_text ''CHANGEME'' v)
        (if cfg_mechanism cfg = ''shim''
         then [(''registry'', cfg_registry cfg), (''cache_image'', cfg_cache_image cfg)] else []))
    @ map (\<lambda>(i, m). ''models['' @ str_nat i @ '']='' @ m)
        (filter (\<lambda>(i, m). has_text ''CHANGEME'' m) (enumerate 0 (cfg_models cfg)))"

definition check_placeholders :: "config \<Rightarrow> unit res" where
  "check_placeholders cfg =
    (if placeholders cfg \<noteq> []
     then Inl (ValueError (''config still has example placeholders '' @ em_dash @
       '' edit config.toml before provisioning (pods would pull a nonexistent image and time out): ''
       @ join_text '', '' (placeholders cfg)))
     else Inr ())"

definition overlap_pairs :: "(string, string list) pydict \<Rightarrow> (string \<times> string) list" where
  "overlap_pairs ov = concat (map (\<lambda>(grp, ms). map (Pair grp) ms) ov)"

definition check_shim :: "config \<Rightarrow> unit res" where
  "check_shim cfg =
    (if cfg_max_pods cfg < int (length (cfg_overlap cfg))
     then Inl (ValueError (''overlap groups '' @ str_nat (length (cfg_overlap cfg)) @
            '' exceed max_pods '' @ str_int (cfg_max_pods cfg)))
     else if set (dict_keys (cfg_overlap cfg)) \<noteq> {''A'', ''B'', ''C''}
     then Inl (ValueError (''overlap groups must be exactly A,B,C (got '' @
            repr_list (sort (dict_keys (cfg_overlap cfg))) @ '')''))
     else case filter (\<lambda>(grp, m). m \<notin> set (cfg_models cfg)) (overlap_pairs (cfg_overlap cfg)) of
            [] \<Rightarrow> Inr ()
          | (grp, m) # _ \<Rightarrow>
              Inl (ValueError (''overlap['' @ grp @ ''] references unknown model '' @ m)))"

definition chosen_mechanism :: "string option \<Rightarrow> document \<Rightarrow> string res" where
  "chosen_mechanism override raw =
    (if override = None \<or> override = Some [] then as_str (dict_get ''mechanism'' (TStr ''shim'') raw)
     else Inr (the override))"

definition with_defaults :: "document \<Rightarrow> document" where
  "with_defaults raw = fold set_default DEFAULTS raw"

definition check_config :: "config \<Rightarrow> unit res" where
  "check_config cfg =
    res_bind (check_placeholders cfg) (\<lambda>_.
      if cfg_max_burst cfg < cfg_burst cfg
      then Inl (ValueError (''burst '' @ str_int (cfg_burst cfg) @ '' exceeds max_burst '' @
             str_int (cfg_max_burst cfg)))
      else if cfg_mechanism cfg = ''shim'' then check_shim cfg else Inr ())"

definition load_str :: "document \<Rightarrow> string option \<Rightarrow> config res" where
  "load_str raw0 override =
    (let raw = with_defaults raw0; missing = filter (\<lambda>k. \<not> has_key k raw) SHARED
     in if missing \<noteq> [] then Inl (ValueError (''config missing keys: '' @ repr_list missing))
        else res_bind (chosen_mechanism override raw) (\<lambda>mechanism.
          res_bind (mechanism_fields raw mechanism) (\<lambda>own.
            res_bind (make_config raw mechanism own) (\<lambda>cfg.
              res_bind (check_config cfg) (\<lambda>_. Inr cfg)))))"

section \<open>What the rest of the testbed relies on\<close>

definition config_ok :: "config \<Rightarrow> bool" where
  "config_ok c \<longleftrightarrow>
     cfg_mechanism c \<in> set SUPPORTED_MECHANISMS \<and> cfg_burst c \<le> cfg_max_burst c \<and>
     list_all (\<lambda>m. \<not> has_text ''CHANGEME'' m) (cfg_models c) \<and>
     (if cfg_mechanism c = ''shim''
      then \<not> has_text ''CHANGEME'' (cfg_registry c) \<and> \<not> has_text ''CHANGEME'' (cfg_cache_image c) \<and>
        int (length (cfg_overlap c)) \<le> cfg_max_pods c \<and>
        set (dict_keys (cfg_overlap c)) = {''A'', ''B'', ''C''} \<and>
        list_all (\<lambda>(g, m). m \<in> set (cfg_models c)) (overlap_pairs (cfg_overlap c))
      else cfg_registry c = [] \<and> cfg_cache_image c = [] \<and> cfg_overlap c = [] \<and>
        cfg_max_pods c = 0 \<and> cfg_pod_instance_id c = [])"

lemma filter_enumerate_Nil:
  "filter (\<lambda>(i, m). P m) (enumerate n ms) = [] \<longleftrightarrow> list_all (\<lambda>m. \<not> P m) ms"
  by (induction ms arbitrary: n) auto

lemma check_placeholders_ok:
  "check_placeholders c = Inr () \<longleftrightarrow>
     list_all (\<lambda>m. \<not> has_text ''CHANGEME'' m) (cfg_models c) \<and>
     (cfg_mechanism c = ''shim'' \<longrightarrow>
       \<not> has_text ''CHANGEME'' (cfg_registry c) \<and> \<not> has_text ''CHANGEME'' (cfg_cache_image c))"
  by (auto simp: check_placeholders_def placeholders_def filter_enumerate_Nil)

lemma check_shim_ok:
  "check_shim c = Inr () \<longleftrightarrow>
     int (length (cfg_overlap c)) \<le> cfg_max_pods c \<and>
     set (dict_keys (cfg_overlap c)) = {''A'', ''B'', ''C''} \<and>
     list_all (\<lambda>(g, m). m \<in> set (cfg_models c)) (overlap_pairs (cfg_overlap c))"
proof -
  define bad where "bad = filter (\<lambda>(g, m). m \<notin> set (cfg_models c)) (overlap_pairs (cfg_overlap c))"
  have "list_all (\<lambda>(g, m). m \<in> set (cfg_models c)) ps \<longleftrightarrow>
      filter (\<lambda>(g, m). m \<notin> set (cfg_models c)) ps = []" for ps :: "(string \<times> string) list"
    by (induction ps) auto
  then have "list_all (\<lambda>(g, m). m \<in> set (cfg_models c)) (overlap_pairs (cfg_overlap c)) \<longleftrightarrow> bad = []"
    by (simp add: bad_def)
  moreover have "(case bad of [] \<Rightarrow> Inr () | (g, m) # _ \<Rightarrow> Inl (f g m)) = Inr () \<longleftrightarrow> bad = []"
    for f :: "string \<Rightarrow> string \<Rightarrow> pyerr"
    by (cases bad) (simp_all split: prod.split)
  ultimately show ?thesis unfolding check_shim_def bad_def [symmetric] by simp
qed

lemma check_config_ok:
  "check_config c = Inr () \<longleftrightarrow>
     check_placeholders c = Inr () \<and> cfg_burst c \<le> cfg_max_burst c \<and>
     (cfg_mechanism c = ''shim'' \<longrightarrow> check_shim c = Inr ())"
  by (auto simp: check_config_def res_bind_eq_Inr)

lemma make_config_mechanism: "make_config raw m own = Inr c \<Longrightarrow> cfg_mechanism c = m"
  by (auto simp: make_config_def Let_def res_bind_eq_Inr)

lemma make_config_absent:
  assumes "make_config raw m (SHIM_ABSENT @ rest) = Inr c"
  shows "cfg_registry c = [] \<and> cfg_cache_image c = [] \<and> cfg_overlap c = [] \<and>
     cfg_max_pods c = 0 \<and> cfg_pod_instance_id c = []"
proof -
  have absent: "dict_item ''registry'' (SHIM_ABSENT @ rest) = Inr (TStr [])"
      "dict_item ''cache_image'' (SHIM_ABSENT @ rest) = Inr (TStr [])"
      "dict_item ''overlap'' (SHIM_ABSENT @ rest) = Inr (TTab [])"
      "dict_item ''max_pods'' (SHIM_ABSENT @ rest) = Inr (TInt 0)"
      "dict_item ''pod_instance_id'' (SHIM_ABSENT @ rest) = Inr (TStr [])"
    by (simp_all add: SHIM_ABSENT_def dict_item_def)
  show ?thesis using assms unfolding make_config_def Let_def absent
    by (auto simp: res_bind_eq_Inr as_str_def as_int_def as_dict_def as_table_def)
qed

lemma mechanism_fields_supported:
  assumes "mechanism_fields raw m = Inr own"
  shows "m \<in> set SUPPORTED_MECHANISMS \<and> (m \<noteq> ''shim'' \<longrightarrow> (\<exists>rest. own = SHIM_ABSENT @ rest))"
  using assms
  by (auto simp: mechanism_fields_def Let_def res_bind_eq_Inr split: if_splits)

lemma load_str_cases:
  assumes "load_str raw override = Inr c"
  obtains m own where "mechanism_fields (with_defaults raw) m = Inr own"
    and "make_config (with_defaults raw) m own = Inr c" and "check_config c = Inr ()"
    and "chosen_mechanism override (with_defaults raw) = Inr m"
    and "cfg_mechanism c = m"
proof -
  obtain m own where *: "mechanism_fields (with_defaults raw) m = Inr own"
      "make_config (with_defaults raw) m own = Inr c" "check_config c = Inr ()"
      "chosen_mechanism override (with_defaults raw) = Inr m"
    using assms by (auto simp: load_str_def Let_def res_bind_eq_Inr split: if_splits)
  show thesis using that [OF * make_config_mechanism [OF *(2)]] .
qed

text \<open>C19: A configuration that loads is a valid one: a known mechanism, the burst within its limit,
  no placeholder left; for the shim exactly the groups A, B and C, no more than the pods
  allowed, over the listed models; for the other mechanisms no shim setting at all.\<close>

theorem load_str_ok:
  assumes "load_str raw override = Inr c"
  shows "config_ok c"
proof -
  obtain m own where load: "mechanism_fields (with_defaults raw) m = Inr own"
      "make_config (with_defaults raw) m own = Inr c" "check_config c = Inr ()" "cfg_mechanism c = m"
    using assms by (rule load_str_cases)
  then show ?thesis
    using mechanism_fields_supported [OF load(1)] make_config_absent [of _ m _ c]
    by (auto simp: config_ok_def check_config_ok check_placeholders_ok check_shim_ok)
qed

text \<open>An example document: the legacy form, with the shim keys at the top level.\<close>

definition example_raw :: document where
  "example_raw = [(''worker_cpu'', TStr ''cpu5c-4-8''), (''worker_deps'', TArr [TStr ''hf_xet'']),
     (''models'', TArr [TStr ''o/a@r'', TStr ''o/b'']), (''burst'', TInt 2), (''max_burst'', TInt 8),
     (''container_disk_gb'', TInt 20), (''scrape_interval_s'', TInt 5),
     (''registry'', TStr ''reg''), (''cache_image'', TStr ''reg/img''),
     (''overlap'', TTab [(''A'', TArr [TStr ''o/a@r'', TStr ''o/b'']), (''B'', TArr [TStr ''o/b'']),
                         (''C'', TArr [])]),
     (''max_pods'', TInt 3), (''pod_instance_id'', TStr ''cpu3c-2-4'')]"

definition example_config :: config where
  "example_config = \<lparr>cfg_dc = ''EU-RO-1'', cfg_registry = ''reg'', cfg_cache_image = ''reg/img'',
     cfg_worker_cpu = ''cpu5c-4-8'', cfg_worker_deps = [''hf_xet''],
     cfg_models = [''o/a@r'', ''o/b''],
     cfg_overlap = [(''A'', [''o/a@r'', ''o/b'']), (''B'', [''o/b'']), (''C'', [])],
     cfg_burst = 2, cfg_max_pods = 3, cfg_max_burst = 8, cfg_pod_instance_id = ''cpu3c-2-4'',
     cfg_container_disk_gb = 20, cfg_scrape_interval_s = 5, cfg_job_timeout_s = 600,
     cfg_mechanism = ''shim'', cfg_volume_gb = 0, cfg_modelstore_endpoints = [],
     cfg_worker_gpu = []\<rparr>"

lemma load_example: "load_str example_raw None = Inr example_config"
  by code_simp

lemma config_ok_example: "config_ok example_config"
  by code_simp

theorem load_str_ok_witness: "config_ok example_config"
  using load_str_ok [OF load_example] .

section \<open>Writing a configuration down\<close>

definition to_document :: "config \<Rightarrow> document" where
  "to_document c =
    [(''dc'', TStr (cfg_dc c)), (''worker_cpu'', TStr (cfg_worker_cpu c)),
     (''worker_deps'', TArr (map TStr (cfg_worker_deps c))),
     (''models'', TArr (map TStr (cfg_models c))), (''burst'', TInt (cfg_burst c)),
     (''max_burst'', TInt (cfg_max_burst c)), (''container_disk_gb'', TInt (cfg_container_disk_gb c)),
     (''scrape_interval_s'', TInt (cfg_scrape_interval_s c)),
     (''job_timeout_s'', TInt (cfg_job_timeout_s c)), (''worker_gpu'', TStr (cfg_worker_gpu c)),
     (''mechanism'', TStr (cfg_mechanism c)),
     (''shim'', TTab [(''registry'', TStr (cfg_registry c)), (''cache_image'', TStr (cfg_cache_image c)),
        (''overlap'', TTab (map (\<lambda>(g, ms). (g, TArr (map TStr ms))) (cfg_overlap c))),
        (''max_pods'', TInt (cfg_max_pods c)), (''pod_instance_id'', TStr (cfg_pod_instance_id c))]),
     (''volumecache'', TTab [(''volume_gb'', TInt (cfg_volume_gb c))]),
     (''modelstore'', TTab [(''endpoints'',
        TTab (map (\<lambda>(m, e). (m, TStr e)) (cfg_modelstore_endpoints c)))])]"

lemma as_strs_map [simp]: "as_strs (TArr (map TStr xs)) = Inr xs"
  by (induction xs) (simp_all add: as_strs_def as_str_def)

lemma as_dict_map:
  "(\<And>x. value (f x) = Inr x) \<Longrightarrow> as_dict value (TTab (map (\<lambda>(k, x). (k, f x)) d)) = Inr d"
  by (induction d) (auto simp: as_dict_def as_table_def)

lemma map_of_to_document:
  "map_of (to_document c) k =
    (if k = ''dc'' then Some (TStr (cfg_dc c))
     else if k = ''worker_cpu'' then Some (TStr (cfg_worker_cpu c))
     else if k = ''worker_deps'' then Some (TArr (map TStr (cfg_worker_deps c)))
     else if k = ''models'' then Some (TArr (map TStr (cfg_models c)))
     else map_of (drop 4 (to_document c)) k)"
  by (simp add: to_document_def)

lemma with_defaults_present:
  "list_all (\<lambda>k. k \<in> fst ` set raw) (map fst DEFAULTS) \<Longrightarrow> with_defaults raw = raw"
  by (simp add: with_defaults_def DEFAULTS_def set_default_def)

lemma to_document_defaults [simp]: "with_defaults (to_document c) = to_document c"
  by (rule with_defaults_present) (simp add: DEFAULTS_def to_document_def)

lemma to_document_shared: "filter (\<lambda>k. \<not> has_key k (to_document c)) SHARED = []"
  by (simp add: SHARED_def to_document_def)

lemma shim_section_to_document:
  "shim_section (to_document c) = Inr
     [(''registry'', TStr (cfg_registry c)), (''cache_image'', TStr (cfg_cache_image c)),
      (''overlap'', TTab (map (\<lambda>(g, ms). (g, TArr (map TStr ms))) (cfg_overlap c))),
      (''max_pods'', TInt (cfg_max_pods c)), (''pod_instance_id'', TStr (cfg_pod_instance_id c))]"
  by (simp add: shim_section_def SHIM_def to_document_def dict_get_def as_table_def)

lemma mechanism_fields_to_document:
  assumes "config_ok c"
  shows "mechanism_fields (to_document c) (cfg_mechanism c) = Inr
     [(''registry'', TStr (cfg_registry c)), (''cache_image'', TStr (cfg_cache_image c)),
      (''overlap'', TTab (map (\<lambda>(g, ms). (g, TArr (map TStr ms))) (cfg_overlap c))),
      (''max_pods'', TInt (cfg_max_pods c)), (''pod_instance_id'', TStr (cfg_pod_instance_id c)),
      (''volume_gb'', TInt (cfg_volume_gb c)),
      (''modelstore_endpoints'', TTab (map (\<lambda>(m, e). (m, TStr e)) (cfg_modelstore_endpoints c)))]"
proof -
  have vc: "as_table (dict_get ''volumecache'' (TTab []) (to_document c)) =
      Inr [(''volume_gb'', TInt (cfg_volume_gb c))]"
    by (simp add: to_document_def dict_get_def as_table_def)
  have ms: "as_table (dict_get ''modelstore'' (TTab []) (to_document c)) =
      Inr [(''endpoints'', TTab (map (\<lambda>(m, e). (m, TStr e)) (cfg_modelstore_endpoints c)))]"
    by (simp add: to_document_def dict_get_def as_table_def)
  have supported: "cfg_mechanism c \<in> set SUPPORTED_MECHANISMS"
    using assms by (simp add: config_ok_def)
  show ?thesis
  proof (cases "cfg_mechanism c = ''shim''")
    case True
    then show ?thesis using supported unfolding mechanism_fields_def shim_section_to_document vc ms
      by (simp add: SHIM_def toml_int_def dict_get_def as_table_def dict_item_def)
  next
    case False
    then show ?thesis using assms supported unfolding mechanism_fields_def shim_section_to_document vc ms
      by (simp add: SHIM_ABSENT_def toml_int_def dict_get_def as_table_def config_ok_def)
  qed
qed

lemma make_config_to_document:
  "make_config (to_document c) (cfg_mechanism c)
     [(''registry'', TStr (cfg_registry c)), (''cache_image'', TStr (cfg_cache_image c)),
      (''overlap'', TTab (map (\<lambda>(g, ms). (g, TArr (map TStr ms))) (cfg_overlap c))),
      (''max_pods'', TInt (cfg_max_pods c)), (''pod_instance_id'', TStr (cfg_pod_instance_id c)),
      (''volume_gb'', TInt (cfg_volume_gb c)),
      (''modelstore_endpoints'', TTab (map (\<lambda>(m, e). (m, TStr e)) (cfg_modelstore_endpoints c)))]
   = Inr c"
  unfolding make_config_def Let_def
  by (simp add: to_document_def dict_item_def as_str_def as_int_def as_dict_map)

text \<open>C20: Every valid configuration can be written down as a document (with the \<open>[shim]\<close>,
  \<open>[volumecache]\<close> and \<open>[modelstore]\<close> tables), and loading that document gives it back.\<close>

theorem load_str_to_document:
  assumes "config_ok c"
  shows "load_str (to_document c) None = Inr c"
proof -
  have "chosen_mechanism None (to_document c) = Inr (cfg_mechanism c)"
    by (simp add: chosen_mechanism_def to_document_def dict_get_def as_str_def)
  moreover have "check_config c = Inr ()"
    using assms unfolding check_config_ok check_placeholders_ok check_shim_ok config_ok_def
    by (cases "cfg_mechanism c = ''shim''") simp_all
  ultimately show ?thesis
    using to_document_shared [of c] mechanism_fields_to_document [OF assms] make_config_to_document [of c]
    by (simp add: load_str_def)
qed

theorem load_str_to_document_witness:
  "load_str (to_document example_config) None = Inr example_config"
  using load_str_to_document [of example_config] config_ok_example by simp

section \<open>Where the shim settings may stand\<close>

definition nest_shim :: "document \<Rightarrow> document" where
  "nest_shim raw = filter (\<lambda>(k, v). k \<notin> set SHIM) raw @
     [(''shim'', TTab (filter (\<lambda>(k, v). k \<in> set SHIM) raw))]"

lemma map_of_filter_key:
  "map_of (filter (\<lambda>(k, v). P k) d) k = (if P k then map_of d k else None)"
  by (induction d) auto

lemma map_of_nest_shim:
  "k \<noteq> ''shim'' \<Longrightarrow> map_of (nest_shim raw) k = (if k \<in> set SHIM then None else map_of raw k)"
  by (simp add: nest_shim_def map_of_append map_add_def map_of_filter_key split: option.split)

lemma map_of_with_defaults:
  "map_of (with_defaults raw) k = (case map_of raw k of Some v \<Rightarrow> Some v | None \<Rightarrow> map_of DEFAULTS k)"
proof -
  have one: "map_of (set_default kv d) k =
      (case map_of d k of Some v \<Rightarrow> Some v | None \<Rightarrow> if k = fst kv then Some (snd kv) else None)"
    for kv :: "string \<times> toml" and d
    by (cases kv) (auto simp: set_default_def has_key_def map_of_append map_add_def
        simp del: has_key_iff split: option.splits)
  show ?thesis by (simp add: with_defaults_def DEFAULTS_def one split: option.splits)
qed

lemma map_of_shim_fold:
  "map_of (fold (\<lambda>key shim. case map_of raw key of
        Some v \<Rightarrow> if has_key key shim then shim else AList.update key v shim | None \<Rightarrow> shim) ks shim) k =
   (case map_of shim k of Some v \<Rightarrow> Some v | None \<Rightarrow> if k \<in> set ks then map_of raw k else None)"
  by (induction ks arbitrary: shim)
    (auto simp: has_key_def update_conv' simp del: has_key_iff split: option.splits)

text \<open>The fields depend on the document only through what it has under the keys they read.\<close>

lemma mechanism_fields_cong:
  assumes "shim_section r1 = Inr s1" "shim_section r2 = Inr s2"
    and "list_all (\<lambda>k. map_of s1 k = map_of s2 k) SHIM"
    and "map_of r1 ''volumecache'' = map_of r2 ''volumecache''"
    and "map_of r1 ''modelstore'' = map_of r2 ''modelstore''"
  shows "mechanism_fields r1 m = mechanism_fields r2 m"
proof -
  have "filter (\<lambda>k. \<not> has_key k s1) SHIM = filter (\<lambda>k. \<not> has_key k s2) SHIM"
    by (rule filter_cong) (use assms(3) in \<open>auto simp: has_key_def list_all_iff simp del: has_key_iff\<close>)
  moreover have "map_res (\<lambda>k. res_bind (dict_item k s1) (\<lambda>v. Inr (k, v))) SHIM =
      map_res (\<lambda>k. res_bind (dict_item k s2) (\<lambda>v. Inr (k, v))) SHIM"
    using assms(3) by (simp add: SHIM_def dict_item_def)
  moreover have "dict_get ''volumecache'' v r1 = dict_get ''volumecache'' v r2"
      "dict_get ''modelstore'' v r1 = dict_get ''modelstore'' v r2" for v
    using assms(4,5) by (simp_all add: dict_get_def)
  ultimately show ?thesis
    using assms(1,2) by (simp add: mechanism_fields_def del: has_key_iff cong: if_cong)
qed

lemma make_config_cong:
  assumes "list_all (\<lambda>k. map_of r1 k = map_of r2 k) SHARED"
  shows "make_config r1 m own = make_config r2 m own"
  using assms by (simp add: make_config_def dict_item_def SHARED_def)

lemma load_str_cong:
  assumes "list_all (\<lambda>k. map_of (with_defaults r1) k = map_of (with_defaults r2) k)
      (SHARED @ [''mechanism'', ''volumecache'', ''modelstore''])"
    and "shim_section (with_defaults r1) = Inr s1" "shim_section (with_defaults r2) = Inr s2"
    and "list_all (\<lambda>k. map_of s1 k = map_of s2 k) SHIM"
  shows "load_str r1 override = load_str r2 override"
proof -
  have "filter (\<lambda>k. \<not> has_key k (with_defaults r1)) SHARED =
      filter (\<lambda>k. \<not> has_key k (with_defaults r2)) SHARED"
    by (rule filter_cong) (use assms(1) in \<open>auto simp: has_key_def list_all_iff simp del: has_key_iff\<close>)
  moreover have "chosen_mechanism override (with_defaults r1) = chosen_mechanism override (with_defaults r2)"
    using assms(1) by (simp add: chosen_mechanism_def dict_get_def)
  moreover have "mechanism_fields (with_defaults r1) m = mechanism_fields (with_defaults r2) m" for m
    using assms by (intro mechanism_fields_cong [of _ s1 _ s2]) simp_all
  moreover have "make_config (with_defaults r1) m own = make_config (with_defaults r2) m own" for m own
    by (rule make_config_cong) (use assms(1) in simp)
  ultimately show ?thesis by (simp add: load_str_def Let_def del: has_key_iff cong: if_cong)
qed

text \<open>The shim settings may stand at the top level, as in the older files, or in a \<open>[shim]\<close>
  table: moving all of them into the table changes nothing, neither the configuration that
  is loaded nor the error that is raised.\<close>

theorem load_str_nest_shim:
  assumes "\<not> has_key ''shim'' raw"
  shows "load_str (nest_shim raw) override = load_str raw override"
proof -
  have none: "map_of raw ''shim'' = None"
    using assms by (simp add: map_of_eq_None_iff)
  have shim_key: "map_of (nest_shim raw) ''shim'' = Some (TTab (filter (\<lambda>(k, v). k \<in> set SHIM) raw))"
    using none by (simp add: nest_shim_def map_of_append map_add_def map_of_filter_key)
  let ?step = "\<lambda>r key shim. case map_of r key of
        Some v \<Rightarrow> if has_key key shim then shim else AList.update key v shim | None \<Rightarrow> shim"
  let ?s1 = "fold (?step (with_defaults (nest_shim raw))) SHIM (filter (\<lambda>(k, v). k \<in> set SHIM) raw)"
  let ?s2 = "fold (?step (with_defaults raw)) SHIM []"
  have s1: "shim_section (with_defaults (nest_shim raw)) = Inr ?s1"
    by (simp add: shim_section_def dict_get_def map_of_with_defaults shim_key as_table_def)
  have s2: "shim_section (with_defaults raw) = Inr ?s2"
    by (simp add: shim_section_def dict_get_def map_of_with_defaults none DEFAULTS_def as_table_def)
  have "map_of ?s1 k = map_of ?s2 k" if "k \<in> set SHIM" for k
  proof -
    have "k \<noteq> ''shim''" "map_of DEFAULTS k = None"
      using that by (auto simp: SHIM_def DEFAULTS_def)
    then show ?thesis using that unfolding map_of_shim_fold
      by (simp add: map_of_filter_key map_of_with_defaults map_of_nest_shim split: option.split)
  qed
  then have section_same: "list_all (\<lambda>k. map_of ?s1 k = map_of ?s2 k) SHIM"
    by (simp only: list_all_iff) blast
  have other: "map_of (with_defaults (nest_shim raw)) k = map_of (with_defaults raw) k"
    if "k \<notin> set SHIM \<and> k \<noteq> ''shim''" for k
    using that by (simp add: map_of_with_defaults map_of_nest_shim)
  have "list_all (\<lambda>k. k \<notin> set SHIM \<and> k \<noteq> ''shim'')
      (SHARED @ [''mechanism'', ''volumecache'', ''modelstore''])"
    by code_simp
  then have "list_all (\<lambda>k. map_of (with_defaults (nest_shim raw)) k = map_of (with_defaults raw) k)
      (SHARED @ [''mechanism'', ''volumecache'', ''modelstore''])"
    using other by (simp only: list_all_iff) blast
  then show ?thesis by (rule load_str_cong [OF _ s1 s2 section_same])
qed

lemma nest_shim_example:
  "nest_shim example_raw = take 7 example_raw @ [(''shim'', TTab (drop 7 example_raw))]"
  by code_simp

theorem load_str_nest_shim_witness:
  "load_str (take 7 example_raw @ [(''shim'', TTab (drop 7 example_raw))]) None = Inr example_config"
  using load_str_nest_shim [of example_raw None]
  by (simp only: nest_shim_example load_example) (simp add: example_raw_def)

end
