(* ===== verification/Py_World.thy ===== *)
theory Py_World
  imports Py_Text
begin

text \<open>
  Code with effects: a call takes the state of the world and returns its result (an exception
  or a value) with the state after it. The state survives an exception, as it does in the
  program: a file that was written before a \<open>raise\<close> stays written. \<open>try_call\<close> is
  \<open>try ... except Exception\<close>, \<open>for_each\<close> and \<open>map_each\<close> are loops and comprehensions whose
  body may raise. \<open>keeps\<close> and \<open>grows\<close> say what a call does to the world on every path.
\<close>

type_synonym ('w, 'a) io = "'w \<Rightarrow> 'a res \<times> 'w"

named_theorems io_simps \<open>how sequenced calls run\<close>
named_theorems keeps_intros \<open>calls that keep an invariant of the world\<close>

definition pure :: "'a \<Rightarrow> ('w, 'a) io" where
  "pure x = (\<lambda>w. (Inr x, w))"

definition throw :: "pyerr \<Rightarrow> ('w, 'a) io" where
  "throw e = (\<lambda>w. (Inl e, w))"

definition lift_res :: "'a res \<Rightarrow> ('w, 'a) io" where
  "lift_res r = (\<lambda>w. (r, w))"

definition look :: "('w \<Rightarrow> 'a) \<Rightarrow> ('w, 'a) io" where
  "look f = (\<lambda>w. (Inr (f w), w))"

definition change :: "('w \<Rightarrow> 'w) \<Rightarrow> ('w, unit) io" where
  "change f = (\<lambda>w. (Inr (), f w))"

definition bind_call :: "('w, 'a) io \<Rightarrow> ('a \<Rightarrow> ('w, 'b) io) \<Rightarrow> ('w, 'b) io" where
  "bind_call m f = (\<lambda>w. case m w of (Inl e, w') \<Rightarrow> (Inl e, w') | (Inr x, w') \<Rightarrow> f x w')"

definition then_call :: "('w, 'a) io \<Rightarrow> ('w, 'b) io \<Rightarrow> ('w, 'b) io" where
  "then_call m n = bind_call m (\<lambda>_. n)"

definition try_call :: "('w, 'a) io \<Rightarrow> (pyerr \<Rightarrow> ('w, 'a) io) \<Rightarrow> ('w, 'a) io" where
  "try_call m h = (\<lambda>w. case m w of (Inl e, w') \<Rightarrow> h e w' | (Inr x, w') \<Rightarrow> (Inr x, w'))"

fun for_each :: "('a \<Rightarrow> ('w, unit) io) \<Rightarrow> 'a list \<Rightarrow> ('w, unit) io" where
  "for_each f [] = pure ()"
| "for_each f (x # xs) = then_call (f x) (for_each f xs)"

fun map_each :: "('a \<Rightarrow> ('w, 'b) io) \<Rightarrow> 'a list \<Rightarrow> ('w, 'b list) io" where
  "map_each f [] = pure []"
| "map_each f (x # xs) = bind_call (f x) (\<lambda>y. bind_call (map_each f xs) (\<lambda>ys. pure (y # ys)))"

section \<open>Running calls\<close>

lemma run_pure [simp, io_simps]: "pure x w = (Inr x, w)"
  by (simp add: pure_def)

lemma run_throw [simp, io_simps]: "throw e w = (Inl e, w)"
  by (simp add: throw_def)

lemma run_lift [simp, io_simps]: "lift_res r w = (r, w)"
  by (simp add: lift_res_def)

lemma run_look [simp, io_simps]: "look f w = (Inr (f w), w)"
  by (simp add: look_def)

lemma run_change [simp, io_simps]: "change f w = (Inr (), f w)"
  by (simp add: change_def)

lemma run_bind [io_simps]:
  "bind_call m f w = (case m w of (Inl e, w') \<Rightarrow> (Inl e, w') | (Inr x, w') \<Rightarrow> f x w')"
  by (simp add: bind_call_def)

lemma run_look_bind: "bind_call (look f) g w = g (f w) w"
  by (simp add: run_bind)

lemma run_then [io_simps]:
  "then_call m n w = (case m w of (Inl e, w') \<Rightarrow> (Inl e, w') | (Inr x, w') \<Rightarrow> n w')"
  by (simp add: then_call_def bind_call_def)

lemma run_try [io_simps]:
  "try_call m h w = (case m w of (Inl e, w') \<Rightarrow> h e w' | (Inr x, w') \<Rightarrow> (Inr x, w'))"
  by (simp add: try_call_def)

lemma bind_Inr:
  assumes "bind_call m f w = (Inr r, w')"
  obtains x w1 where "m w = (Inr x, w1)" and "f x w1 = (Inr r, w')"
  using assms by (auto simp: run_bind split: prod.splits sum.splits)

lemma then_Inr:
  assumes "then_call (m :: ('w, unit) io) n w = (Inr r, w')"
  obtains w1 where "m w = (Inr (), w1)" and "n w1 = (Inr r, w')"
  using assms by (auto simp: run_then split: prod.splits sum.splits)

lemma run_for_each_append:
  "for_each f (xs @ ys) w =
    (case for_each f xs w of (Inl e, w') \<Rightarrow> (Inl e, w') | (Inr _, w') \<Rightarrow> for_each f ys w')"
  by (induction xs arbitrary: w) (auto simp: run_then split: prod.splits sum.splits)

section \<open>What a call does to the world on every path\<close>

definition keeps :: "('w \<Rightarrow> bool) \<Rightarrow> ('w, 'a) io \<Rightarrow> bool" where
  "keeps P m \<longleftrightarrow> (\<forall>w. P w \<longrightarrow> P (snd (m w)))"

lemma keepsI: "(\<And>w. P w \<Longrightarrow> P (snd (m w))) \<Longrightarrow> keeps P m"
  by (simp add: keeps_def)

lemma keepsD: "keeps P m \<Longrightarrow> P w \<Longrightarrow> P (snd (m w))"
  by (simp add: keeps_def)

lemma keeps_pure [keeps_intros]: "keeps P (pure x)"
  and keeps_throw [keeps_intros]: "keeps P (throw e)"
  and keeps_lift [keeps_intros]: "keeps P (lift_res r)"
  and keeps_look [keeps_intros]: "keeps P (look f)"
  by (simp_all add: keeps_def)

lemma keeps_change: "(\<And>w. P w \<Longrightarrow> P (f w)) \<Longrightarrow> keeps P (change f)"
  by (simp add: keeps_def)

lemma keeps_bind [keeps_intros]:
  assumes "keeps P m" and "\<And>x. keeps P (f x)"
  shows "keeps P (bind_call m f)"
proof (rule keepsI)
  fix w assume "P w"
  moreover obtain r w' where "m w = (r, w')" by force
  ultimately show "P (snd (bind_call m f w))"
    using assms keepsD [OF assms(1), of w] by (cases r) (auto simp: run_bind keeps_def)
qed

lemma keeps_then [keeps_intros]: "keeps P m \<Longrightarrow> keeps P n \<Longrightarrow> keeps P (then_call m n)"
  unfolding then_call_def by (rule keeps_bind)

lemma keeps_try [keeps_intros]:
  assumes "keeps P m" and "\<And>e. keeps P (h e)"
  shows "keeps P (try_call m h)"
proof (rule keepsI)
  fix w assume "P w"
  moreover obtain r w' where "m w = (r, w')" by force
  ultimately show "P (snd (try_call m h w))"
    using assms keepsD [OF assms(1), of w] by (cases r) (auto simp: run_try keeps_def)
qed

lemma keeps_if [keeps_intros]:
  "keeps P m \<Longrightarrow> keeps P n \<Longrightarrow> keeps P (if b then m else n)"
  by simp

lemma keeps_for_each [keeps_intros]: "(\<And>x. keeps P (f x)) \<Longrightarrow> keeps P (for_each f xs)"
  by (induction xs) (simp_all add: keeps_pure keeps_then)

lemma keeps_map_each [keeps_intros]: "(\<And>x. keeps P (f x)) \<Longrightarrow> keeps P (map_each f xs)"
  by (induction xs) (simp_all add: keeps_pure keeps_bind)

text \<open>A loop whose body never raises runs over the whole list.\<close>

lemma for_each_total:
  assumes "\<And>x w. x \<in> set xs \<Longrightarrow> f x w = (Inr (), g x w)"
  shows "for_each f xs w = (Inr (), fold g xs w)"
  using assms by (induction xs arbitrary: w) (simp_all add: run_then)

lemma map_each_length: "map_each f xs w = (Inr ys, w') \<Longrightarrow> length ys = length xs"
proof (induction xs arbitrary: w ys w')
  case (Cons x xs)
  then show ?case by (auto simp: run_bind split: prod.splits sum.splits)
qed simp

section \<open>Exceptions that do not occur\<close>

definition avoids :: "pyerr set \<Rightarrow> ('w, 'a) io \<Rightarrow> bool" where
  "avoids X m \<longleftrightarrow> (\<forall>w e. fst (m w) = Inl e \<longrightarrow> e \<notin> X)"

lemma avoidsD: "avoids X m \<Longrightarrow> fst (m w) = Inl e \<Longrightarrow> e \<notin> X"
  by (simp add: avoids_def)

lemma avoids_fst: "avoids {e} m \<Longrightarrow> fst (m w) \<noteq> Inl e"
  by (auto simp: avoids_def)

named_theorems avoids_rules \<open>how exceptions that a call avoids are avoided by a sequence\<close>

lemma avoids_bind [avoids_rules]: "avoids X m \<Longrightarrow> (\<And>x. avoids X (f x)) \<Longrightarrow> avoids X (bind_call m f)"
  unfolding avoids_def
proof (intro allI impI)
  fix w e
  assume m: "\<forall>w e. fst (m w) = Inl e \<longrightarrow> e \<notin> X" and f: "\<And>x. \<forall>w e. fst (f x w) = Inl e \<longrightarrow> e \<notin> X"
    and e: "fst (bind_call m f w) = Inl e"
  obtain r w1 where r: "m w = (r, w1)" by force
  show "e \<notin> X"
  proof (cases r)
    case (Inl e')
    then show ?thesis using e r spec [OF m, of w] by (simp add: run_bind)
  next
    case (Inr x)
    then show ?thesis using e r spec [OF f [of x], of w1] by (simp add: run_bind)
  qed
qed

lemma avoids_then [avoids_rules]: "avoids X m \<Longrightarrow> avoids X n \<Longrightarrow> avoids X (then_call m n)"
  unfolding then_call_def by (intro avoids_bind)

lemma avoids_calls [avoids_rules]:
  "avoids X (pure x)" "avoids X (look f)" "avoids X (change h)" "e \<notin> X \<Longrightarrow> avoids X (throw e)"
  "avoids X (\<lambda>w. case g w of (c, w') \<Rightarrow> (Inr c, w'))"
  by (simp_all add: avoids_def split: prod.split)

lemma avoids_if [avoids_rules]: "avoids X m \<Longrightarrow> avoids X n \<Longrightarrow> avoids X (if b then m else n)"
  by simp

lemma avoids_pair [avoids_rules]: "(\<And>a b. avoids X (f a b)) \<Longrightarrow> avoids X (case p of (a, b) \<Rightarrow> f a b)"
  by (cases p) simp

lemma avoids_try: "avoids X m \<Longrightarrow> (\<And>e. avoids X (h e)) \<Longrightarrow> avoids X (try_call m h)"
  by (auto simp: avoids_def run_try split: prod.splits sum.splits)

lemma avoids_map_each: "(\<And>x. avoids X (f x)) \<Longrightarrow> avoids X (map_each f xs)"
  by (induction xs) (auto intro: avoids_bind avoids_calls)

lemma avoids_for_each: "(\<And>x. avoids X (f x)) \<Longrightarrow> avoids X (for_each f xs)"
  by (induction xs) (auto intro: avoids_then avoids_calls)

end
