(* ===== verification/Worker_Plan.thy ===== *)
theory Worker_Plan
  imports Py_World Py_Stats
begin

text \<open>
  \<open>worker/plan.py\<close> and \<open>worker/flash_app.py\<close>: the endpoints that a deployment builds for a
  mechanism, and the module of the worker that builds them, at deploy time and again in every
  worker process. An environment is a dictionary of texts.
\<close>

type_synonym environment = "(string, string) pydict"

section \<open>The plan\<close>

definition HF_HOME_DEFAULT :: string where
  "HF_HOME_DEFAULT = ''/root/.cache/huggingface''"

definition SHIM_LABELS :: "string list" where
  "SHIM_LABELS = [''A'', ''B'', ''C'']"

definition PLAN_PREFIX :: string where
  "PLAN_PREFIX = ''xet-dl''"

definition NO_HF_DOWNLOADERS :: "string list" where
  "NO_HF_DOWNLOADERS = [''modelstore'']"

definition HF_PKGS :: "string list" where
  "HF_PKGS = [''huggingface_hub>=1.32.0'', ''hf_xet>=1.6.0'']"

definition RUNPOD_PKG :: string where
  "RUNPOD_PKG = ''runpod>=1.12.0''"

definition gpu_names :: "environment \<Rightarrow> string list" where
  "gpu_names env =
    map strip_text (filter (\<lambda>n. strip_text n \<noteq> [])
      (split_text CHR '','' (dict_get ''WORKER_GPU'' [] env)))"

definition needs_hf_upgrade :: "string \<Rightarrow> bool" where
  "needs_hf_upgrade downloader \<longleftrightarrow> downloader \<notin> set NO_HF_DOWNLOADERS"

definition upgrade_pkgs :: "string \<Rightarrow> string list" where
  "upgrade_pkgs downloader =
    (if downloader \<in> set NO_HF_DOWNLOADERS then []
     else HF_PKGS @ (if downloader = ''volumecache'' then [RUNPOD_PKG] else []))"

record endpoint_plan =
  plan_name :: string
  plan_binding :: string
  plan_downloader :: string
  plan_env :: environment
  plan_volume_gb :: "int option"

definition make_plan ::
  "string \<Rightarrow> string \<Rightarrow> environment \<Rightarrow> environment \<Rightarrow> int option \<Rightarrow> endpoint_plan" where
  "make_plan label downloader common extra gb =
    (let name = PLAN_PREFIX @ ''-'' @ label
     in \<lparr>plan_name = name, plan_binding = replace_char CHR ''-'' CHR ''_'' name,
         plan_downloader = downloader, plan_env = dict_update extra common, plan_volume_gb = gb\<rparr>)"

definition common_env :: "string \<Rightarrow> string list \<Rightarrow> environment" where
  "common_env mechanism models = [(''MECHANISM'', mechanism), (''MODELS'', join_commas models)]"

definition plan_endpoints :: "string \<Rightarrow> string list \<Rightarrow> environment \<Rightarrow> endpoint_plan list res" where
  "plan_endpoints mechanism models env =
    (let common = common_env mechanism models;
         plans = [make_plan ''baseline'' ''baseline'' common [] None]
     in if mechanism = ''shim'' then
          Inr (plans @ map (\<lambda>g. make_plan g ''shim'' common
             [(''HF_ENDPOINT'', dict_get (''POD_ADDR_'' @ g) [] env)] None) SHIM_LABELS)
        else if mechanism = ''volumecache'' then
          res_bind (int_of_text (dict_get ''VOLUME_GB'' ''0'' env)) (\<lambda>n.
            let gb = (if n = 0 then None else Some n);
                extra = [(''HF_HOME'', HF_HOME_DEFAULT),
                         (''VOLUME_NAME'', dict_get ''VOLUME_NAME'' [] env)]
            in Inr (plans @ [make_plan ''volumecache'' ''volumecache'' common extra gb]))
        else if mechanism = ''modelstore'' then
          Inr (plans @ map (\<lambda>(i, m). make_plan (''m'' @ str_nat i) ''modelstore'' common
             [(''MODEL'', m)] None) (enumerate 0 models))
        else Inl (ValueError (''unknown mechanism '' @ py_repr mechanism)))"

text \<open>The labels that a plan has endpoints for.\<close>

definition planned_labels :: "string \<Rightarrow> nat \<Rightarrow> string list" where
  "planned_labels mechanism n =
    ''baseline'' # (if mechanism = ''shim'' then SHIM_LABELS
                   else if mechanism = ''volumecache'' then [''volumecache'']
                   else if mechanism = ''modelstore'' then map (\<lambda>i. ''m'' @ str_nat i) [0..<n] else [])"

lemma plan_name_make [simp]: "plan_name (make_plan label d c e g) = PLAN_PREFIX @ ''-'' @ label"
  by (simp add: make_plan_def Let_def)

lemma plan_binding_make [simp]:
  "plan_binding (make_plan label d c e g) =
     replace_char CHR ''-'' CHR ''_'' (PLAN_PREFIX @ ''-'' @ label)"
  by (simp add: make_plan_def Let_def)

lemma plan_downloader_make [simp]: "plan_downloader (make_plan label d c e g) = d"
  by (simp add: make_plan_def Let_def)

lemma plan_env_make [simp]: "plan_env (make_plan label d c e g) = dict_update e c"
  by (simp add: make_plan_def Let_def)

lemma plan_volume_make [simp]: "plan_volume_gb (make_plan label d c e g) = g"
  by (simp add: make_plan_def Let_def)

lemma map_enumerate: "map (\<lambda>(i, m). f i) (enumerate k ms) = map f [k..<k + length ms]"
  by (induction ms arbitrary: k) (simp_all add: upt_conv_Cons del: upt_Suc)

lemma plan_endpoints_cases:
  assumes "plan_endpoints mechanism models env = Inr plans"
  obtains "mechanism = ''shim''"
    "plans = make_plan ''baseline'' ''baseline'' (common_env mechanism models) [] None #
       map (\<lambda>g. make_plan g ''shim'' (common_env mechanism models)
             [(''HF_ENDPOINT'', dict_get (''POD_ADDR_'' @ g) [] env)] None) SHIM_LABELS"
  | gb where "mechanism = ''volumecache''"
    "plans = [make_plan ''baseline'' ''baseline'' (common_env mechanism models) [] None,
       make_plan ''volumecache'' ''volumecache'' (common_env mechanism models)
         [(''HF_HOME'', HF_HOME_DEFAULT), (''VOLUME_NAME'', dict_get ''VOLUME_NAME'' [] env)] gb]"
  | "mechanism = ''modelstore''"
    "plans = make_plan ''baseline'' ''baseline'' (common_env mechanism models) [] None #
       map (\<lambda>(i, m). make_plan (''m'' @ str_nat i) ''modelstore'' (common_env mechanism models)
             [(''MODEL'', m)] None) (enumerate 0 models)"
proof -
  consider "mechanism = ''shim''" | "mechanism = ''volumecache''" | "mechanism = ''modelstore''"
    | "mechanism \<noteq> ''shim''" "mechanism \<noteq> ''volumecache''" "mechanism \<noteq> ''modelstore''"
    by blast
  then show thesis
  proof cases
    case 1
    then show thesis using assms by (intro that(1)) (simp_all add: plan_endpoints_def Let_def)
  next
    case 2
    then show thesis using assms that(2)
      by (simp add: plan_endpoints_def Let_def res_bind_eq_Inr) blast
  next
    case 3
    then show thesis using assms by (intro that(3)) (simp_all add: plan_endpoints_def Let_def)
  next
    case 4
    then show thesis using assms by (simp add: plan_endpoints_def Let_def)
  qed
qed

lemma planned_labels_shim: "planned_labels ''shim'' n = ''baseline'' # SHIM_LABELS"
  and planned_labels_volumecache: "planned_labels ''volumecache'' n = [''baseline'', ''volumecache'']"
  and planned_labels_modelstore:
    "planned_labels ''modelstore'' n = ''baseline'' # map (\<lambda>i. ''m'' @ str_nat i) [0..<n]"
  by (simp_all add: planned_labels_def)

lemmas planned_labels_simps = planned_labels_shim planned_labels_volumecache planned_labels_modelstore

lemma plan_endpoints_names:
  assumes "plan_endpoints mechanism models env = Inr plans"
  shows "map plan_name plans =
    map (\<lambda>label. PLAN_PREFIX @ ''-'' @ label) (planned_labels mechanism (length models))"
  using assms
proof (cases rule: plan_endpoints_cases)
  case 1
  then show ?thesis by (simp add: planned_labels_shim)
next
  case 2
  then show ?thesis by (simp add: planned_labels_volumecache)
next
  case 3
  then show ?thesis
    using map_enumerate [of "\<lambda>i. PLAN_PREFIX @ ''-'' @ ''m'' @ str_nat i" 0 models]
    by (simp add: planned_labels_modelstore comp_def case_prod_unfold)
qed

lemma plan_binding_of_name:
  assumes "plan_endpoints mechanism models env = Inr plans"
  shows "list_all (\<lambda>p. plan_binding p = replace_char CHR ''-'' CHR ''_'' (plan_name p)) plans"
  using assms by (cases rule: plan_endpoints_cases) (simp_all add: list_all_iff case_prod_unfold)

text \<open>Labels contain neither of the characters that the naming schemes use.\<close>

lemma planned_label_cases:
  assumes "label \<in> set (planned_labels mechanism n)"
  obtains "label \<in> set [''baseline'', ''A'', ''B'', ''C'', ''volumecache'']" | i where "label = ''m'' @ str_nat i"
proof -
  have "label \<in> set ([''baseline'', ''A'', ''B'', ''C'', ''volumecache''] @ map (\<lambda>i. ''m'' @ str_nat i) [0..<n])"
  proof (cases "mechanism \<in> {''shim'', ''volumecache'', ''modelstore''}")
    case True
    then show ?thesis using assms by (elim insertE emptyE) (auto simp: planned_labels_simps SHIM_LABELS_def)
  next
    case False
    then show ?thesis using assms by (simp add: planned_labels_def)
  qed
  then show thesis using that by (simp only: set_append Un_iff set_map image_iff) blast
qed

lemma label_clean:
  assumes "label \<in> set (planned_labels mechanism n)"
  shows "CHR ''-'' \<notin> set label \<and> CHR ''_'' \<notin> set label"
  using assms
proof (cases rule: planned_label_cases)
  case 1
  moreover have "list_all (\<lambda>l. CHR ''-'' \<notin> set l \<and> CHR ''_'' \<notin> set l)
      [''baseline'', ''A'', ''B'', ''C'', ''volumecache'']"
    by code_simp
  ultimately show ?thesis unfolding list_all_iff by blast
next
  case (2 i)
  then show ?thesis by (simp add: digit_val_def)
qed

lemma planned_labels_distinct: "distinct (planned_labels mechanism n)"
proof -
  have "distinct (map (\<lambda>i. ''m'' @ str_nat i) [0..<n])"
    by (simp add: distinct_map inj_on_def)
  moreover have "distinct (''baseline'' # SHIM_LABELS)" by code_simp
  ultimately show ?thesis by (auto simp: planned_labels_def)
qed

text \<open>The name of an endpoint is \<open>PREFIX-label\<close>; what the driver recovers from it is the label.\<close>

lemma label_of_name:
  "CHR ''-'' \<notin> set label \<Longrightarrow> after_last CHR ''-'' (PLAN_PREFIX @ ''-'' @ label) = label"
  using after_last_append [of "CHR ''-''" label PLAN_PREFIX] by simp

lemma replace_char_inject:
  "b \<notin> set s \<Longrightarrow> b \<notin> set t \<Longrightarrow> replace_char a b s = replace_char a b t \<Longrightarrow> s = t"
proof (induction s arbitrary: t)
  case Nil
  then show ?case by (simp add: replace_char_def)
next
  case (Cons x s)
  then show ?case by (cases t) (auto simp: replace_char_def split: if_splits)
qed

lemma binding_inj_on_labels:
  "inj_on (\<lambda>label. replace_char CHR ''-'' CHR ''_'' (PLAN_PREFIX @ ''-'' @ label))
     (set (planned_labels mechanism n))"
proof (rule inj_onI)
  fix a b
  assume labels: "a \<in> set (planned_labels mechanism n)" "b \<in> set (planned_labels mechanism n)"
    and eq: "replace_char CHR ''-'' CHR ''_'' (PLAN_PREFIX @ ''-'' @ a) =
      replace_char CHR ''-'' CHR ''_'' (PLAN_PREFIX @ ''-'' @ b)"
  have "CHR ''_'' \<notin> set (PLAN_PREFIX @ ''-'')" by code_simp
  then have clean: "CHR ''_'' \<notin> set (PLAN_PREFIX @ ''-'' @ l)" if "CHR ''_'' \<notin> set l" for l
    using that unfolding set_append by blast
  have "PLAN_PREFIX @ ''-'' @ a = PLAN_PREFIX @ ''-'' @ b"
    by (rule replace_char_inject [OF clean clean eq])
      (rule label_clean [OF labels(1), THEN conjunct2] label_clean [OF labels(2), THEN conjunct2])+
  then show "a = b" by (simp only: same_append_eq)
qed

lemma planned_bindings:
  assumes "plan_endpoints mechanism models env = Inr plans"
  shows "map plan_binding plans =
      map (\<lambda>label. replace_char CHR ''-'' CHR ''_'' (PLAN_PREFIX @ ''-'' @ label))
        (planned_labels mechanism (length models)) \<and> distinct (map plan_binding plans)"
proof -
  have "map plan_binding plans = map (replace_char CHR ''-'' CHR ''_'') (map plan_name plans)"
    using plan_binding_of_name [OF assms] by (simp add: list_all_iff)
  then have bindings: "map plan_binding plans =
      map (\<lambda>label. replace_char CHR ''-'' CHR ''_'' (PLAN_PREFIX @ ''-'' @ label))
        (planned_labels mechanism (length models))"
    by (simp add: plan_endpoints_names [OF assms] comp_def)
  have "distinct (map plan_binding plans)"
    unfolding bindings distinct_map using planned_labels_distinct binding_inj_on_labels by blast
  with bindings show ?thesis by blast
qed

lemma planned_labels_of_names:
  assumes "plan_endpoints mechanism models env = Inr plans"
  shows "map (after_last CHR ''-'' \<circ> plan_name) plans = planned_labels mechanism (length models)"
proof -
  let ?labels = "planned_labels mechanism (length models)"
  have "map (after_last CHR ''-'' \<circ> plan_name) plans =
      map (\<lambda>label. after_last CHR ''-'' (PLAN_PREFIX @ ''-'' @ label)) ?labels"
    using arg_cong [OF plan_endpoints_names [OF assms], of "map (after_last CHR ''-'')"]
    by (simp add: comp_def)
  also have "\<dots> = ?labels"
    by (rule map_idI) (use label_clean label_of_name in blast)
  finally show ?thesis .
qed

text \<open>Whether there is a plan depends on the mechanism and on \<open>VOLUME_GB\<close> only.\<close>

lemma plan_endpoints_total:
  assumes "plan_endpoints mechanism models env = Inr plans"
    and "int_of_text (dict_get ''VOLUME_GB'' ''0'' env') = Inr gb"
  shows "\<exists>plans'. plan_endpoints mechanism models env' = Inr plans'"
  using assms(1)
  by (cases rule: plan_endpoints_cases) (simp_all add: plan_endpoints_def Let_def assms(2))

text \<open>The endpoints of a plan have distinct names and distinct module bindings, so none
  replaces another in the worker's module, and the driver's reading of the name
  (the text after the last dash) gives exactly the labels of the mechanism.\<close>

theorem plan_names_distinct:
  assumes "plan_endpoints mechanism models env = Inr plans"
  shows "distinct (map plan_name plans) \<and> distinct (map plan_binding plans) \<and>
    map (after_last CHR ''-'' \<circ> plan_name) plans = planned_labels mechanism (length models)"
proof -
  have "distinct (map plan_name plans)"
    unfolding plan_endpoints_names [OF assms]
    by (simp add: distinct_map planned_labels_distinct inj_on_def)
  then show ?thesis using planned_bindings [OF assms] planned_labels_of_names [OF assms] by blast
qed

theorem plan_names_distinct_witness:
  "distinct (map plan_binding (projr (plan_endpoints ''modelstore'' [''o/a'', ''o/b''] [])))"
proof -
  have "plan_endpoints ''modelstore'' [''o/a'', ''o/b''] [] =
      Inr (projr (plan_endpoints ''modelstore'' [''o/a'', ''o/b''] []))"
    by code_simp
  from plan_names_distinct [OF this] show ?thesis by blast
qed

section \<open>The worker module\<close>

datatype gpu = GpuGroup string | GpuType string

datatype downloader = Hf_download | Volumecache_download | Modelstore_local_read

definition DOWNLOADERS :: "(string, downloader) pydict" where
  "DOWNLOADERS = [(''shim'', Hf_download), (''baseline'', Hf_download),
     (''volumecache'', Volumecache_download), (''modelstore'', Modelstore_local_read)]"

definition IDLE_TIMEOUT_S :: int where
  "IDLE_TIMEOUT_S = 30"

text \<open>
  A Flash endpoint with its handler. Either \<open>cpu\<close> or \<open>gpu\<close> is given; the volume is the name
  and the size of a \<open>NetworkVolume\<close>. The data center is the same constant for all.
\<close>

record flash_endpoint =
  flash_name :: string
  flash_cpu :: "string option"
  flash_gpus :: "gpu list"
  flash_workers :: "int \<times> int"
  flash_idle_timeout :: int
  flash_dependencies :: "string list"
  flash_volume :: "(string \<times> int) option"
  flash_env :: environment
  handler_name :: string
  handler_downloader :: downloader
  handler_pkgs :: "string list"

text \<open>The members of the two enumerations of the Flash package are parameters.\<close>

definition resolve_gpus :: "string list \<Rightarrow> string list \<Rightarrow> string list \<Rightarrow> gpu list res" where
  "resolve_gpus groups types names =
    map_res (\<lambda>name. if name \<in> set groups then Inr (GpuGroup name)
                    else if name \<in> set types then Inr (GpuType name)
                    else Inl (ValueError (''WORKER_GPU: '' @ py_repr name @
                           '' is not a GpuGroup or GpuType member''))) names"

definition make_endpoint ::
  "string list \<Rightarrow> string list \<Rightarrow> environment \<Rightarrow> int \<Rightarrow> endpoint_plan \<Rightarrow> flash_endpoint res" where
  "make_endpoint groups types env max_workers plan =
    res_bind (dict_item (plan_downloader plan) DOWNLOADERS) (\<lambda>download.
    res_bind (case plan_volume_gb plan of
                None \<Rightarrow> Inr None
              | Some gb \<Rightarrow> res_bind (dict_item ''VOLUME_NAME'' (plan_env plan)) (\<lambda>name. Inr (Some (name, gb))))
      (\<lambda>volume.
    res_bind (resolve_gpus groups types (gpu_names env)) (\<lambda>gpus.
      Inr \<lparr>flash_name = plan_name plan,
           flash_cpu = (if gpu_names env = [] then Some (dict_get ''WORKER_CPU'' ''cpu5c-4-8'' env) else None),
           flash_gpus = gpus, flash_workers = (0, max_workers), flash_idle_timeout = IDLE_TIMEOUT_S,
           flash_dependencies = split_text CHR '','' (dict_get ''WORKER_DEPS''
             ''huggingface_hub>=1.32.0,hf_xet>=1.6.0'' env),
           flash_volume = volume,
           flash_env = dict_update (plan_env plan) [(''HF_TOKEN'', dict_get ''HF_TOKEN'' [] env)],
           handler_name = plan_binding plan, handler_downloader = download,
           handler_pkgs = upgrade_pkgs (plan_downloader plan)\<rparr>)))"

definition flash_app ::
  "string list \<Rightarrow> string list \<Rightarrow> environment \<Rightarrow> (string, flash_endpoint) pydict res" where
  "flash_app groups types env =
    (let mechanism = dict_get ''MECHANISM'' ''shim'' env;
         models = split_commas (dict_get ''MODELS'' [] env)
     in res_bind (int_of_text (dict_get ''WORKER_MAX'' ''4'' env)) (\<lambda>max_workers.
        res_bind (plan_endpoints mechanism models env) (\<lambda>plans.
          fold_res (\<lambda>plan globals. res_bind (make_endpoint groups types env max_workers plan)
              (\<lambda>e. Inr (AList.update (plan_binding plan) e globals))) plans [])))"

text \<open>Every downloader that a plan names is one that the module has, and a volume has a name.\<close>

definition plan_ok :: "endpoint_plan \<Rightarrow> bool" where
  "plan_ok p \<longleftrightarrow> has_key (plan_downloader p) DOWNLOADERS \<and>
     (plan_volume_gb p = None \<or> has_key ''VOLUME_NAME'' (plan_env p))"

lemma downloaders_known:
  "list_all (\<lambda>d. has_key d DOWNLOADERS) [''shim'', ''baseline'', ''volumecache'', ''modelstore'']"
  by code_simp

lemma plan_ok_make:
  "has_key d DOWNLOADERS \<Longrightarrow> gb = None \<or> has_key ''VOLUME_NAME'' extra \<Longrightarrow>
     plan_ok (make_plan label d common extra gb)"
  by (auto simp: plan_ok_def)

lemma plan_endpoints_ok:
  assumes "plan_endpoints mechanism models env = Inr plans"
  shows "list_all plan_ok plans"
  using assms
proof (cases rule: plan_endpoints_cases)
  case 1
  then show ?thesis using downloaders_known
    by (simp add: list_all_iff plan_ok_make del: has_key_iff)
next
  case 2
  then show ?thesis using downloaders_known
    by (simp add: list_all_iff) (simp add: plan_ok_make)
next
  case 3
  then show ?thesis using downloaders_known
    by (simp add: list_all_iff plan_ok_make case_prod_unfold del: has_key_iff)
qed

lemma make_endpoint_total:
  assumes "plan_ok p" and "resolve_gpus groups types (gpu_names env) = Inr gpus"
  shows "\<exists>e. make_endpoint groups types env n p = Inr e"
proof -
  have item: "has_key k d \<Longrightarrow> \<exists>v. dict_item k d = Inr v" for k :: string and d :: "(string, 'v) pydict"
    by (simp add: dict_item_eq)
  obtain d where d: "dict_item (plan_downloader p) DOWNLOADERS = Inr d"
    using assms(1) item unfolding plan_ok_def by blast
  have "\<exists>v. (case plan_volume_gb p of None \<Rightarrow> Inr None
      | Some gb \<Rightarrow> res_bind (dict_item ''VOLUME_NAME'' (plan_env p)) (\<lambda>name. Inr (Some (name, gb)))) = Inr v"
    using assms(1) item [of "''VOLUME_NAME''" "plan_env p"]
    by (cases "plan_volume_gb p") (auto simp: plan_ok_def simp del: has_key_iff)
  then show ?thesis using d assms(2) unfolding make_endpoint_def by (elim exE) (simp only: res_bind_Inr, blast)
qed

text \<open>The module has one attribute per planned endpoint, in the order of the plan.\<close>

lemma flash_loop_keys:
  assumes "fold_res (\<lambda>plan globals. res_bind (make_endpoint groups types env n plan)
      (\<lambda>e. Inr (AList.update (plan_binding plan) e globals))) plans g = Inr app"
    and "distinct (map fst g @ map plan_binding plans)"
  shows "dict_keys app = map fst g @ map plan_binding plans"
  using assms
proof (induction plans arbitrary: g)
  case (Cons p plans)
  from Cons.prems(1) obtain e where e: "make_endpoint groups types env n p = Inr e"
      "fold_res (\<lambda>plan globals. res_bind (make_endpoint groups types env n plan)
        (\<lambda>e. Inr (AList.update (plan_binding plan) e globals))) plans
        (AList.update (plan_binding p) e g) = Inr app"
    by (auto simp: res_bind_eq_Inr)
  have "AList.update (plan_binding p) e g = g @ [(plan_binding p, e)]"
    using Cons.prems(2) by (intro update_fresh) auto
  with Cons.IH [of "g @ [(plan_binding p, e)]"] e(2) Cons.prems(2) show ?case by simp
qed simp

lemma flash_loop_total:
  assumes "list_all plan_ok plans" and "resolve_gpus groups types (gpu_names env) = Inr gpus"
  shows "\<exists>app. fold_res (\<lambda>plan globals. res_bind (make_endpoint groups types env n plan)
      (\<lambda>e. Inr (AList.update (plan_binding plan) e globals))) plans g = Inr app"
  using assms(1)
proof (induction plans arbitrary: g)
  case (Cons p plans)
  then obtain e where "make_endpoint groups types env n p = Inr e"
    using make_endpoint_total [OF _ assms(2)] by fastforce
  with Cons show ?case by simp
qed simp

lemma flash_loop_bindings:
  assumes "plan_endpoints mechanism models env = Inr plans"
    and "fold_res (\<lambda>plan globals. res_bind (make_endpoint groups types env' n plan)
      (\<lambda>e. Inr (AList.update (plan_binding plan) e globals))) plans [] = Inr app"
  shows "dict_keys app = map plan_binding plans"
  using flash_loop_keys [OF assms(2)] planned_bindings [OF assms(1), THEN conjunct2]
  by (simp only: list.map append_Nil)

lemma flash_app_keys:
  assumes "flash_app groups types env = Inr app"
  obtains plans where
    "plan_endpoints (dict_get ''MECHANISM'' ''shim'' env) (split_commas (dict_get ''MODELS'' [] env)) env
       = Inr plans"
    and "dict_keys app = map plan_binding plans"
proof -
  obtain n plans where *: "plan_endpoints (dict_get ''MECHANISM'' ''shim'' env)
        (split_commas (dict_get ''MODELS'' [] env)) env = Inr plans"
      "fold_res (\<lambda>plan globals. res_bind (make_endpoint groups types env n plan)
        (\<lambda>e. Inr (AList.update (plan_binding plan) e globals))) plans [] = Inr app"
    using assms by (auto simp: flash_app_def Let_def res_bind_eq_Inr)
  show thesis using that [OF *(1) flash_loop_bindings [OF *]] .
qed

text \<open>What the module bakes into the environment of every endpoint.\<close>

lemma plan_env_baked:
  assumes "plan_endpoints mechanism models env = Inr plans"
  shows "list_all (\<lambda>p. map_of (plan_env p) ''MECHANISM'' = Some mechanism \<and>
     map_of (plan_env p) ''MODELS'' = Some (join_commas models)) plans"
proof -
  have baked: "map_of (dict_update e (common_env m models)) ''MECHANISM'' = Some m"
    "map_of (dict_update e (common_env m models)) ''MODELS'' = Some (join_commas models)"
    for e :: environment and m
    by (simp_all add: common_env_def update_conv')
  show ?thesis using assms
    by (cases rule: plan_endpoints_cases) (simp_all add: baked list_all_iff case_prod_unfold)
qed

lemma make_endpoint_env:
  assumes "make_endpoint groups types env n p = Inr e" and "k \<noteq> ''HF_TOKEN''"
  shows "map_of (flash_env e) k = map_of (plan_env p) k"
  using assms by (auto simp: make_endpoint_def res_bind_eq_Inr update_conv')

lemma flash_loop_from_plans:
  assumes "fold_res (\<lambda>plan globals. res_bind (make_endpoint groups types env n plan)
      (\<lambda>e. Inr (AList.update (plan_binding plan) e globals))) plans g = Inr app"
    and "(b, e) \<in> set app"
  shows "(b, e) \<in> set g \<or> (\<exists>p \<in> set plans. make_endpoint groups types env n p = Inr e)"
  using assms
proof (induction plans arbitrary: g)
  case (Cons p plans)
  from Cons.prems(1) obtain e' where e': "make_endpoint groups types env n p = Inr e'"
      "fold_res (\<lambda>plan globals. res_bind (make_endpoint groups types env n plan)
        (\<lambda>e. Inr (AList.update (plan_binding plan) e globals))) plans
        (AList.update (plan_binding p) e' g) = Inr app"
    by (auto simp: res_bind_eq_Inr)
  have "(b, e) \<in> set (AList.update (plan_binding p) e' g) \<Longrightarrow> (b, e) \<in> set g \<or> e = e'"
    using set_update_subset [of "plan_binding p" e' g] by auto
  with Cons.IH [OF e'(2) Cons.prems(2)] e'(1) show ?case by auto
qed simp

lemma split_commas_items: "comma_items (split_commas t)"
  by (auto simp: split_commas_def comma_items_def list_all_iff dest: split_text_pieces)

text \<open>C10: A worker process builds the module again from the environment that was baked into its
  own endpoint: it has the mechanism and the models (whatever else its process
  environment holds), so it defines the same bindings in the same order as at deploy time, and
  the handler of its endpoint among them. It does not raise as long as the worker's own
  \<open>WORKER_MAX\<close> and \<open>VOLUME_GB\<close> read as numbers and its GPU names resolve.\<close>

theorem worker_rebuilds_bindings:
  assumes "flash_app groups types env = Inr app" and "(b, e) \<in> set app"
    and "map_of runtime ''MECHANISM'' = map_of (flash_env e) ''MECHANISM''"
    and "map_of runtime ''MODELS'' = map_of (flash_env e) ''MODELS''"
    and "int_of_text (dict_get ''WORKER_MAX'' ''4'' runtime) = Inr n"
    and "int_of_text (dict_get ''VOLUME_GB'' ''0'' runtime) = Inr gb"
    and "resolve_gpus groups types (gpu_names runtime) = Inr gpus"
  shows "\<exists>app'. flash_app groups types runtime = Inr app' \<and>
     dict_keys app' = dict_keys app \<and> b \<in> set (dict_keys app')"
proof -
  let ?mechanism = "dict_get ''MECHANISM'' ''shim'' env"
  let ?models = "split_commas (dict_get ''MODELS'' [] env)"
  obtain plans m where plans: "plan_endpoints ?mechanism ?models env = Inr plans"
      and loop: "fold_res (\<lambda>plan globals. res_bind (make_endpoint groups types env m plan)
        (\<lambda>e. Inr (AList.update (plan_binding plan) e globals))) plans [] = Inr app"
    using assms(1) by (auto simp: flash_app_def Let_def res_bind_eq_Inr)
  obtain p where p: "p \<in> set plans" "make_endpoint groups types env m p = Inr e"
    using flash_loop_from_plans [OF loop assms(2)] by auto
  have baked: "map_of (flash_env e) ''MECHANISM'' = Some ?mechanism"
      "map_of (flash_env e) ''MODELS'' = Some (join_commas ?models)"
    using plan_env_baked [OF plans] p make_endpoint_env [OF p(2)] by (simp_all add: list_all_iff)
  have read: "dict_get ''MECHANISM'' ''shim'' runtime = ?mechanism"
      "split_commas (dict_get ''MODELS'' [] runtime) = ?models"
    using assms(3,4) baked split_join_commas [OF split_commas_items] by (simp_all add: dict_get_def)
  obtain plans' where plans': "plan_endpoints ?mechanism ?models runtime = Inr plans'"
    using plan_endpoints_total [OF plans assms(6)] by blast
  obtain app' where loop': "fold_res (\<lambda>plan globals. res_bind (make_endpoint groups types runtime n plan)
        (\<lambda>e. Inr (AList.update (plan_binding plan) e globals))) plans' [] = Inr app'"
    using flash_loop_total [OF plan_endpoints_ok [OF plans'] assms(7)] by blast
  have "flash_app groups types runtime = Inr app'"
    using assms(5) read plans' loop' by (simp add: flash_app_def)
  moreover have "dict_keys app' = dict_keys app"
    using flash_loop_bindings [OF plans loop] flash_loop_bindings [OF plans' loop']
      planned_bindings [OF plans] planned_bindings [OF plans'] by metis
  moreover have "b \<in> set (dict_keys app)" using assms(2) by force
  ultimately show ?thesis by metis
qed

definition example_env :: environment where
  "example_env = [(''MECHANISM'', ''volumecache''), (''MODELS'', ''o/a@r,o/b''), (''HF_TOKEN'', ''t''),
     (''WORKER_GPU'', []), (''WORKER_MAX'', ''2''), (''VOLUME_NAME'', ''xet-vc-1''), (''VOLUME_GB'', ''50'')]"

theorem worker_rebuilds_bindings_witness:
  "\<exists>app'. flash_app [] [] (flash_env (snd (projr (flash_app [] [] example_env) ! 1))) = Inr app' \<and>
     dict_keys app' = dict_keys (projr (flash_app [] [] example_env)) \<and>
     ''xet_dl_volumecache'' \<in> set (dict_keys app')"
proof -
  let ?app = "projr (flash_app [] [] example_env)"
  let ?e = "snd (?app ! 1)"
  have app: "flash_app [] [] example_env = Inr ?app"
    and entry: "(''xet_dl_volumecache'', ?e) \<in> set ?app"
    and numbers: "int_of_text (dict_get ''WORKER_MAX'' ''4'' (flash_env ?e)) = Inr 4"
      "int_of_text (dict_get ''VOLUME_GB'' ''0'' (flash_env ?e)) = Inr 0"
      "resolve_gpus [] [] (gpu_names (flash_env ?e)) = Inr []"
    by code_simp+
  show ?thesis
    using worker_rebuilds_bindings [OF app entry refl refl numbers] .
qed

section \<open>The handler\<close>

text \<open>
  The state of one worker process that the once-flag is about: \<open>_UPGRADED\<close>, the names in
  \<open>sys.modules\<close>, and the pip runs. \<open>elapsed\<close> is the time the upgrade takes, in seconds.
\<close>

record worker_process =
  upgraded :: "bool list"
  loaded_modules :: "string list"
  pip_runs :: "string list list"

definition upgrade_once ::
  "string list \<Rightarrow> rat \<Rightarrow> worker_process \<Rightarrow> (bool \<times> int) \<times> worker_process" where
  "upgrade_once pkgs elapsed w =
    (if upgraded w \<noteq> [] \<or> pkgs = [] then ((False, 0), w)
     else ((True, round_half_even (elapsed * 1000)),
       w\<lparr>upgraded := upgraded w @ [True], pip_runs := pip_runs w @ [pkgs],
         loaded_modules :=
           (if list_ex (starts_with ''runpod'') pkgs
            then filter (\<lambda>m. \<not> (m = ''runpod'' \<or> starts_with ''runpod.'' m)) (loaded_modules w)
            else loaded_modules w)\<rparr>))"

text \<open>The calls of a process, one elapsed time each.\<close>

fun invocations ::
  "string list \<Rightarrow> rat list \<Rightarrow> worker_process \<Rightarrow> (bool \<times> int) list \<times> worker_process" where
  "invocations pkgs [] w = ([], w)"
| "invocations pkgs (t # ts) w =
    (let (r, w1) = upgrade_once pkgs t w; (rs, w2) = invocations pkgs ts w1 in (r # rs, w2))"

lemma invocations_warm:
  "upgraded w \<noteq> [] \<or> pkgs = [] \<Longrightarrow>
     invocations pkgs ts w = (replicate (length ts) (False, 0), w)"
  by (induction ts) (auto simp: upgrade_once_def)

text \<open>C34: In the life of a worker process whose handler needs packages, the first invocation
  alone runs pip, once, with exactly these packages; it is the only one reported cold and the
  only one with upgrade time, and when \<open>runpod\<close> was upgraded no module of the old version
  stays loaded.\<close>

theorem upgrade_exactly_once:
  assumes "upgraded w = []" and "pkgs \<noteq> []"
  shows "fst (invocations pkgs (t # ts) w) =
      (True, round_half_even (t * 1000)) # replicate (length ts) (False, 0) \<and>
    pip_runs (snd (invocations pkgs (t # ts) w)) = pip_runs w @ [pkgs] \<and>
    (list_ex (starts_with ''runpod'') pkgs \<longrightarrow>
       list_all (\<lambda>m. \<not> starts_with ''runpod.'' m) (loaded_modules (snd (invocations pkgs (t # ts) w))))"
proof -
  obtain w1 where w1: "upgrade_once pkgs t w = ((True, round_half_even (t * 1000)), w1)"
      "upgraded w1 \<noteq> []" "pip_runs w1 = pip_runs w @ [pkgs]"
      "list_ex (starts_with ''runpod'') pkgs \<longrightarrow>
         list_all (\<lambda>m. \<not> starts_with ''runpod.'' m) (loaded_modules w1)"
    using assms by (simp add: upgrade_once_def list_all_iff)
  then show ?thesis by (simp add: invocations_warm)
qed

theorem upgrade_exactly_once_witness:
  "fst (invocations (upgrade_pkgs ''volumecache'') [3/2, 1] \<lparr>upgraded = [],
      loaded_modules = [''sys'', ''runpod.serverless''], pip_runs = []\<rparr>) = [(True, 1500), (False, 0)]"
proof -
  have "upgrade_pkgs ''volumecache'' \<noteq> []" "round_half_even (3/2 * 1000) = 1500" by code_simp+
  then show ?thesis
    using upgrade_exactly_once [of "\<lparr>upgraded = [], loaded_modules = [''sys'', ''runpod.serverless''],
      pip_runs = []\<rparr>" "upgrade_pkgs ''volumecache''" "3/2" "[1]"]
    by simp
qed

section \<open>What a deployment consists of\<close>

lemma flash_loop_list:
  assumes "fold_res (\<lambda>plan globals. res_bind (make_endpoint groups types env n plan)
      (\<lambda>e. Inr (AList.update (plan_binding plan) e globals))) plans g = Inr app"
    and "distinct (map fst g @ map plan_binding plans)"
  shows "\<exists>es. app = g @ zip (map plan_binding plans) es \<and>
    list_all2 (\<lambda>p e. make_endpoint groups types env n p = Inr e) plans es"
  using assms
proof (induction plans arbitrary: g)
  case (Cons p plans)
  from Cons.prems(1) obtain e where e: "make_endpoint groups types env n p = Inr e"
      "fold_res (\<lambda>plan globals. res_bind (make_endpoint groups types env n plan)
        (\<lambda>e. Inr (AList.update (plan_binding plan) e globals))) plans
        (AList.update (plan_binding p) e g) = Inr app"
    by (auto simp: res_bind_eq_Inr)
  have "AList.update (plan_binding p) e g = g @ [(plan_binding p, e)]"
    using Cons.prems(2) by (intro update_fresh) auto
  with Cons.IH [of "g @ [(plan_binding p, e)]"] e(2) Cons.prems(2)
  obtain es where "app = (g @ [(plan_binding p, e)]) @ zip (map plan_binding plans) es"
      "list_all2 (\<lambda>p e. make_endpoint groups types env n p = Inr e) plans es"
    by auto
  then show ?case using e(1) by (intro exI [of _ "e # es"]) simp
qed simp

lemma make_endpoint_name: "make_endpoint groups types env n p = Inr e \<Longrightarrow> flash_name e = plan_name p"
  by (auto simp: make_endpoint_def res_bind_eq_Inr)

lemma make_endpoint_volume:
  "make_endpoint groups types env n p = Inr e \<Longrightarrow>
     flash_volume e = (case plan_volume_gb p of None \<Rightarrow> None
       | Some gb \<Rightarrow> Some (the (map_of (plan_env p) ''VOLUME_NAME''), gb))"
  by (auto simp: make_endpoint_def res_bind_eq_Inr dict_item_def split: option.splits)

text \<open>The names of the endpoints that an environment deploys, in order.\<close>

lemma flash_app_names:
  assumes "flash_app groups types env = Inr app"
  shows "map (flash_name \<circ> snd) app = map (\<lambda>label. PLAN_PREFIX @ ''-'' @ label)
    (planned_labels (dict_get ''MECHANISM'' ''shim'' env) (length (split_commas (dict_get ''MODELS'' [] env))))"
proof -
  let ?mechanism = "dict_get ''MECHANISM'' ''shim'' env"
  let ?models = "split_commas (dict_get ''MODELS'' [] env)"
  obtain plans n where plans: "plan_endpoints ?mechanism ?models env = Inr plans"
      and loop: "fold_res (\<lambda>plan globals. res_bind (make_endpoint groups types env n plan)
        (\<lambda>e. Inr (AList.update (plan_binding plan) e globals))) plans [] = Inr app"
    using assms by (auto simp: flash_app_def Let_def res_bind_eq_Inr)
  obtain es where es: "app = [] @ zip (map plan_binding plans) es"
      "list_all2 (\<lambda>p e. make_endpoint groups types env n p = Inr e) plans es"
    using flash_loop_list [OF loop] planned_bindings [OF plans, THEN conjunct2] by auto
  have "map flash_name es = map plan_name plans"
    using es(2) by (induction rule: list_all2_induct) (simp_all add: make_endpoint_name)
  moreover have "map snd app = es" using es list_all2_lengthD [OF es(2)] by simp
  ultimately have "map (flash_name \<circ> snd) app = map plan_name plans" by (metis map_map)
  then show ?thesis by (simp only: plan_endpoints_names [OF plans])
qed

end
