(* ===== verification/Worker_Timing.thy ===== *)
theory Worker_Timing
  imports Py_World Py_Stats
begin

text \<open>
  \<open>worker/timing.py\<close>: what a worker does for a job, the downloaders, and the timing row that
  the driver records. The monotonic clock is a reading of the world (\<open>clock\<close>); the Hugging Face
  and VolumeCache packages are parameters; the file system of the Model Store path is a tree.
\<close>

section \<open>Exceptions as text\<close>

text \<open>\<open>type(e).__name__\<close> and \<open>str(e)\<close>.\<close>

fun err_name :: "pyerr \<Rightarrow> string" where
  "err_name (ValueError s) = ''ValueError''"
| "err_name (KeyError s) = ''KeyError''"
| "err_name (TypeError s) = ''TypeError''"
| "err_name (AttributeError s) = ''AttributeError''"
| "err_name (RuntimeError s) = ''RuntimeError''"
| "err_name StopIteration = ''StopIteration''"
| "err_name IndexError = ''IndexError''"
| "err_name ZeroDivisionError = ''ZeroDivisionError''"
| "err_name StatisticsError = ''StatisticsError''"
| "err_name (NotReady s) = ''NotReady''"
| "err_name (TimeoutError s) = ''TimeoutError''"
| "err_name (FileNotFoundError s) = ''FileNotFoundError''"
| "err_name (AssertionError s) = ''AssertionError''"
| "err_name (OtherError s) = ''Exception''"
| "err_name OutOfFuel = []"

fun err_text :: "pyerr \<Rightarrow> string" where
  "err_text (ValueError s) = s"
| "err_text (KeyError s) = py_repr s"
| "err_text (TypeError s) = s"
| "err_text (AttributeError s) = s"
| "err_text (RuntimeError s) = s"
| "err_text StopIteration = []"
| "err_text IndexError = ''list index out of range''"
| "err_text ZeroDivisionError = ''division by zero''"
| "err_text StatisticsError = ''no median for empty data''"
| "err_text (NotReady s) = s"
| "err_text (TimeoutError s) = s"
| "err_text (FileNotFoundError s) = s"
| "err_text (AssertionError s) = s"
| "err_text (OtherError s) = s"
| "err_text OutOfFuel = []"

section \<open>Jobs, results and rows\<close>

type_synonym breakdown = "(string, rat option) pydict"

definition EMPTY_BREAKDOWN :: breakdown where
  "EMPTY_BREAKDOWN = [(''download_s'', None), (''hydrate_s'', None), (''local_read_s'', None)]"

definition SCHEMA_PHASES :: "string list" where
  "SCHEMA_PHASES = [''baseline'', ''populate'', ''warm'']"

definition PHASE_ALIAS :: "(string, string) pydict" where
  "PHASE_ALIAS = [(''cold'', ''populate'')]"

text \<open>A job of the driver; the keys that only some jobs have are optional.\<close>

record job =
  job_mechanism :: "string option"
  job_endpoint :: "string option"
  job_group :: "string option"
  job_model :: string
  job_phase :: string
  job_replica :: nat

record model_result =
  mr_model :: string
  mr_bytes :: int
  mr_first_byte_ms :: "int option"
  mr_wall_seconds :: rat
  mr_breakdown :: breakdown
  mr_ok :: bool
  mr_error :: "string option"

record worker_result =
  wr_worker_id :: string
  wr_cold_first_invocation :: bool
  wr_dep_upgrade_ms :: int
  wr_results :: "model_result list"

text \<open>
  What the driver has for a job: the worker's dictionary, the driver's own dictionary for a
  failure (with its error and the last status), or \<open>None\<close>.
\<close>

datatype job_result =
    Worker_output worker_result
  | Job_failed string "string option"
  | No_output

record timing_row =
  row_mechanism :: string
  row_phase :: string
  row_model :: string
  row_wall_seconds :: rat
  row_bytes :: int
  row_breakdown :: breakdown
  row_worker_cold :: bool
  row_ok :: bool
  row_delay_seconds :: "rat option"
  row_exec_seconds :: "rat option"

section \<open>Timing one download\<close>

text \<open>What a downloader returns: two or three values.\<close>

datatype download_ret = Plain int rat | Detailed int rat breakdown

fun unpack :: "download_ret \<Rightarrow> int \<times> rat \<times> breakdown" where
  "unpack (Plain nbytes first_byte_s) = (nbytes, first_byte_s, EMPTY_BREAKDOWN)"
| "unpack (Detailed nbytes first_byte_s bd) = (nbytes, first_byte_s, dict_update EMPTY_BREAKDOWN bd)"

definition time_one ::
  "('w \<Rightarrow> rat) \<Rightarrow> (string \<Rightarrow> ('w, download_ret) io) \<Rightarrow> string \<Rightarrow> 'w \<Rightarrow> model_result \<times> 'w" where
  "time_one clock download model w =
    (let start = clock w
     in case download model w of
          (Inr ret, w') \<Rightarrow>
            (let (nbytes, first_byte_s, bd) = unpack ret
             in (\<lparr>mr_model = model, mr_bytes = nbytes,
                  mr_first_byte_ms = Some (round_half_even (first_byte_s * 1000)),
                  mr_wall_seconds = py_round 3 (clock w' - start), mr_breakdown = bd,
                  mr_ok = True, mr_error = None\<rparr>, w'))
        | (Inl e, w') \<Rightarrow>
            (\<lparr>mr_model = model, mr_bytes = 0, mr_first_byte_ms = None,
              mr_wall_seconds = py_round 3 (clock w' - start), mr_breakdown = EMPTY_BREAKDOWN,
              mr_ok = False, mr_error = Some (err_text e)\<rparr>, w'))"

fun time_all ::
  "('w \<Rightarrow> rat) \<Rightarrow> (string \<Rightarrow> ('w, download_ret) io) \<Rightarrow> string list \<Rightarrow> 'w \<Rightarrow> model_result list \<times> 'w" where
  "time_all clock download [] w = ([], w)"
| "time_all clock download (m # ms) w =
    (let (r, w1) = time_one clock download m w; (rs, w2) = time_all clock download ms w1
     in (r # rs, w2))"

text \<open>\<open>models\<close> is \<open>payload.get('models', [])\<close>, \<open>pod\<close> the value of \<open>RUNPOD_POD_ID\<close>.\<close>

definition run_download ::
  "('w \<Rightarrow> rat) \<Rightarrow> (string \<Rightarrow> ('w, download_ret) io) \<Rightarrow> string option \<Rightarrow> string list option \<Rightarrow>
   bool \<Rightarrow> int \<Rightarrow> 'w \<Rightarrow> worker_result \<times> 'w" where
  "run_download clock download pod models cold dep_ms w =
    (let (rs, w') = time_all clock download (case models of None \<Rightarrow> [] | Some ms \<Rightarrow> ms) w
     in (\<lparr>wr_worker_id = (case pod of None \<Rightarrow> ''unknown'' | Some p \<Rightarrow> p),
          wr_cold_first_invocation = cold, wr_dep_upgrade_ms = dep_ms, wr_results = rs\<rparr>, w'))"

definition schema_phase :: "string \<Rightarrow> string" where
  "schema_phase phase = dict_get phase phase PHASE_ALIAS"

definition make_timing_row ::
  "string \<Rightarrow> job \<Rightarrow> job_result \<Rightarrow> rat \<Rightarrow> rat option \<Rightarrow> rat option \<Rightarrow> timing_row res" where
  "make_timing_row mechanism job result wall delay exec =
    (let row = (\<lambda>nbytes bd cold ok.
       Inr \<lparr>row_mechanism = mechanism, row_phase = schema_phase (job_phase job),
            row_model = job_model job, row_wall_seconds = wall, row_bytes = nbytes,
            row_breakdown = dict_update EMPTY_BREAKDOWN bd, row_worker_cold = cold, row_ok = ok,
            row_delay_seconds = delay, row_exec_seconds = exec\<rparr>)
     in case result of
          No_output \<Rightarrow> Inl (AttributeError ([CHR 0x27] @ ''NoneType'' @ [CHR 0x27] @
             '' object has no attribute '' @ [CHR 0x27] @ ''get'' @ [CHR 0x27]))
        | Job_failed error status \<Rightarrow> row 0 [] False False
        | Worker_output r \<Rightarrow>
            (case wr_results r of
               [] \<Rightarrow> row 0 [] (wr_cold_first_invocation r) False
             | m # _ \<Rightarrow> row (mr_bytes m) (mr_breakdown m) (wr_cold_first_invocation r) (mr_ok m)))"

section \<open>The downloaders\<close>

text \<open>
  \<open>snapshot repo rev\<close> is \<open>snapshot_download\<close>, returning the path of the snapshot; \<open>sizes path\<close>
  reads the sizes of the files below a path.
\<close>

definition hf_download ::
  "(string \<Rightarrow> string option \<Rightarrow> ('w, 'p) io) \<Rightarrow> ('p \<Rightarrow> 'w \<Rightarrow> nat list) \<Rightarrow> ('w \<Rightarrow> rat) \<Rightarrow>
   string \<Rightarrow> ('w, download_ret) io" where
  "hf_download snapshot sizes clock model =
    (let repo = before_char CHR ''@'' model; rev = after_char CHR ''@'' model
     in bind_call (look clock) (\<lambda>t0.
        bind_call (snapshot repo (if rev = [] then None else Some rev)) (\<lambda>path.
        bind_call (look clock) (\<lambda>t1.
        bind_call (look (sizes path)) (\<lambda>szs.
          pure (Detailed (int (sum_list szs)) (t1 - t0)
            [(''download_s'', Some (py_round 3 (t1 - t0)))]))))))"

text \<open>
  The VolumeCache: \<open>open_cache dirs\<close> is the constructor, then \<open>hydrate\<close> and the synchronous
  \<open>sync(background=False)\<close> of the object.
\<close>

definition volumecache_download ::
  "(string \<Rightarrow> ('w, 'c) io) \<Rightarrow> ('c \<Rightarrow> ('w, unit) io) \<Rightarrow> ('c \<Rightarrow> ('w, unit) io) \<Rightarrow>
   (string \<Rightarrow> ('w, download_ret) io) \<Rightarrow> ('w \<Rightarrow> rat) \<Rightarrow> string \<Rightarrow> string \<Rightarrow> ('w, download_ret) io" where
  "volumecache_download open_cache hydrate sync download clock hf_home model =
    bind_call (open_cache hf_home) (\<lambda>vc.
    bind_call (look clock) (\<lambda>t0.
    then_call (hydrate vc) (
    bind_call (look clock) (\<lambda>h.
    bind_call (look clock) (\<lambda>t1.
    bind_call (download model) (\<lambda>ret.
    bind_call (look clock) (\<lambda>d.
    then_call (sync vc)
      (let (nbytes, first_byte_s, bd) = unpack ret
       in pure (Detailed nbytes first_byte_s
            [(''hydrate_s'', Some (py_round 3 (h - t0))), (''download_s'', Some (py_round 3 (d - t1)))])))))))))"

section \<open>The Model Store path\<close>

text \<open>A file is its contents (its size is their length), a directory its entries.\<close>

datatype fnode = FFile string | FDir "(string \<times> fnode) list"

fun node_at :: "fnode \<Rightarrow> string list \<Rightarrow> fnode option" where
  "node_at n [] = Some n"
| "node_at (FFile s) (p # ps) = None"
| "node_at (FDir es) (p # ps) = (case map_of es p of None \<Rightarrow> None | Some n \<Rightarrow> node_at n ps)"

fun is_dir :: "fnode option \<Rightarrow> bool" where
  "is_dir (Some (FDir es)) = True"
| "is_dir _ = False"

text \<open>\<open>rglob('*')\<close> restricted to files, as their sizes.\<close>

fun file_sizes :: "fnode \<Rightarrow> nat list" where
  "file_sizes (FFile s) = [length s]"
| "file_sizes (FDir es) = concat (map (\<lambda>e. file_sizes (snd e)) es)"

text \<open>The parts of a relative path, as \<open>pathlib\<close> joins them.\<close>

definition path_parts :: "string \<Rightarrow> string list" where
  "path_parts t = filter (\<lambda>p. p \<noteq> [] \<and> p \<noteq> ''.'') (split_text CHR ''/'' t)"

definition MODELSTORE_ROOT :: string where
  "MODELSTORE_ROOT = ''/runpod-volume/huggingface-cache/hub''"

definition DEFAULT_REV :: string where
  "DEFAULT_REV = ''main''"

definition find_model_dir :: "fnode \<Rightarrow> string list \<Rightarrow> string \<Rightarrow> string \<Rightarrow> string list option" where
  "find_model_dir fs hub org name =
    (let target = lower_text (''models--'' @ org @ ''--'' @ name)
     in case node_at fs hub of
          Some (FDir es) \<Rightarrow>
            (case filter (\<lambda>e. is_dir (Some (snd e)) \<and> lower_text (fst e) = target) es of
               [] \<Rightarrow> None | e # _ \<Rightarrow> Some (hub @ [fst e]))
        | _ \<Rightarrow> None)"

definition show_path :: "string list \<Rightarrow> string" where
  "show_path ps = ''/'' @ join_text ''/'' ps"

definition no_model_dir :: "string \<Rightarrow> string \<Rightarrow> string \<Rightarrow> string \<Rightarrow> pyerr" where
  "no_model_dir model org name hub =
     FileNotFoundError (''model '' @ model @ '': no models--'' @ org @ ''--'' @ name @
       '' dir (case-insensitive) under '' @ hub @ '' '' @ em_dash @
       '' is the cached model declared on this endpoint?'')"

definition no_snapshot :: "string \<Rightarrow> string \<Rightarrow> string list \<Rightarrow> nat \<Rightarrow> pyerr" where
  "no_snapshot model revision snapshots n =
     FileNotFoundError (''model '' @ model @ '': expected refs/'' @ revision @
       '' or exactly one snapshot under '' @ show_path snapshots @ '' (found '' @ str_nat n @ '') '' @
       em_dash @ '' is the cached model declared on this endpoint and finished staging?'')"

text \<open>The names of the directories below \<open>snapshots\<close>, and the choice of one.\<close>

definition snapshot_dirs :: "fnode \<Rightarrow> string list \<Rightarrow> string list" where
  "snapshot_dirs fs base =
    (case node_at fs (base @ [''snapshots'']) of
       Some (FDir es) \<Rightarrow> map fst (filter (\<lambda>e. is_dir (Some (snd e))) es) | _ \<Rightarrow> [])"

definition choose_snapshot :: "fnode \<Rightarrow> string \<Rightarrow> string list \<Rightarrow> string \<Rightarrow> string list res" where
  "choose_snapshot fs model base rev_name =
    (case node_at fs (base @ ''refs'' # path_parts rev_name) of
       Some (FFile text) \<Rightarrow> Inr (base @ ''snapshots'' # path_parts (strip_text text))
     | _ \<Rightarrow> (case snapshot_dirs fs base of
               [h] \<Rightarrow> Inr (base @ [''snapshots'', h])
             | dirs \<Rightarrow> Inl (no_snapshot model rev_name (base @ [''snapshots'']) (length dirs))))"

definition modelstore_snapshot_dir :: "fnode \<Rightarrow> string \<Rightarrow> string \<Rightarrow> string list res" where
  "modelstore_snapshot_dir fs model hub =
    (let repo = before_char CHR ''@'' model; revision = after_char CHR ''@'' model;
         org = before_char CHR ''/'' repo; name = after_char CHR ''/'' repo
     in case find_model_dir fs (path_parts hub) org name of
          None \<Rightarrow> Inl (no_model_dir model org name hub)
        | Some base \<Rightarrow>
            choose_snapshot fs model base (if revision = [] then DEFAULT_REV else revision))"

text \<open>Locating the snapshot and walking its files; \<open>walk\<close> is the passing of time meanwhile.\<close>

definition read_snapshot ::
  "('w \<Rightarrow> fnode) \<Rightarrow> ('w \<Rightarrow> 'w) \<Rightarrow> ('w \<Rightarrow> rat) \<Rightarrow> string \<Rightarrow> string \<Rightarrow> ('w, download_ret) io" where
  "read_snapshot tree walk clock hub model =
    bind_call (look clock) (\<lambda>t0.
    bind_call (look tree) (\<lambda>fs.
    bind_call (lift_res (modelstore_snapshot_dir fs model hub)) (\<lambda>snap.
    then_call (change walk) (
      let sizes = (case node_at fs snap of Some (FDir es) \<Rightarrow> file_sizes (FDir es) | _ \<Rightarrow> [])
      in if sizes = []
         then throw (FileNotFoundError (''model '' @ model @ '': snapshot '' @ show_path snap @
                '' has no files''))
         else bind_call (look clock) (\<lambda>t1.
           pure (Detailed (int (sum_list sizes)) (t1 - t0)
             [(''local_read_s'', Some (py_round 3 (t1 - t0)))]))))))"

text \<open>\<open>expected\<close> is the endpoint's \<open>MODEL\<close>, \<open>hub_var\<close> its \<open>MODELSTORE_ROOT\<close>.\<close>

definition modelstore_local_read ::
  "('w \<Rightarrow> fnode) \<Rightarrow> ('w \<Rightarrow> 'w) \<Rightarrow> ('w \<Rightarrow> rat) \<Rightarrow> string option \<Rightarrow> string option \<Rightarrow> string \<Rightarrow>
   ('w, download_ret) io" where
  "modelstore_local_read tree walk clock expected hub_var model =
    (if expected \<noteq> None \<and> expected \<noteq> Some [] \<and> expected \<noteq> Some model
     then throw (ValueError (''job asked for '' @ model @ '' but this endpoint caches '' @ the expected))
     else read_snapshot tree walk clock
            (case hub_var of None \<Rightarrow> MODELSTORE_ROOT | Some r \<Rightarrow> r) model)"

section \<open>Errors are values\<close>

lemma unpack_keys:
  "unpack ret = (n, f, bd) \<Longrightarrow> set (dict_keys EMPTY_BREAKDOWN) \<subseteq> set (dict_keys bd)"
proof (cases ret)
  case (Detailed a b c)
  moreover assume "unpack ret = (n, f, bd)"
  ultimately have "bd = dict_update EMPTY_BREAKDOWN c" by simp
  then show ?thesis by simp
qed simp

lemma EMPTY_BREAKDOWN_wf [simp]: "dict_wf EMPTY_BREAKDOWN"
  by (simp add: EMPTY_BREAKDOWN_def dict_wf_def)

lemma time_one_model: "time_one clock download m w = (r, w') \<Longrightarrow> mr_model r = m"
  by (auto simp: time_one_def Let_def split: prod.splits sum.splits)

lemma time_one_world: "snd (time_one clock download m w) = snd (download m w)"
  by (auto simp: time_one_def Let_def split: prod.splits sum.splits)

lemma time_one_ok: "mr_ok (fst (time_one clock download m w)) \<longleftrightarrow> \<not> isl (fst (download m w))"
  by (auto simp: time_one_def Let_def split: prod.splits sum.splits)

lemma time_one_error:
  "mr_error (fst (time_one clock download m w)) =
     (case fst (download m w) of Inl e \<Rightarrow> Some (err_text e) | Inr _ \<Rightarrow> None)"
  by (auto simp: time_one_def Let_def split: prod.splits sum.splits)

lemma time_one_bytes:
  "mr_bytes (fst (time_one clock download m w)) =
     (case fst (download m w) of Inl e \<Rightarrow> 0 | Inr ret \<Rightarrow> fst (unpack ret))"
  by (auto simp: time_one_def Let_def split: prod.splits sum.splits)

lemma time_one_breakdown:
  "set (dict_keys EMPTY_BREAKDOWN) \<subseteq> set (dict_keys (mr_breakdown (fst (time_one clock download m w))))"
  using unpack_keys by (auto simp: time_one_def Let_def split: prod.splits sum.splits)

lemma time_all_Cons:
  "fst (time_all clock download (m # ms) w) =
     fst (time_one clock download m w) # fst (time_all clock download ms (snd (download m w)))"
proof -
  obtain r w1 where one: "time_one clock download m w = (r, w1)" by force
  moreover have "w1 = snd (download m w)" using one time_one_world by (metis snd_conv)
  ultimately show ?thesis by (simp split: prod.split)
qed

lemma time_all_models:
  "map mr_model (fst (time_all clock download ms w)) = ms"
proof (induction ms arbitrary: w)
  case (Cons m ms)
  have "mr_model (fst (time_one clock download m w)) = m" using time_one_model by (metis prod.collapse)
  with Cons show ?case by (simp only: time_all_Cons list.map)
qed simp

text \<open>The results of a batch, one by one, each in the world the ones before it leave.\<close>

fun world_before :: "(string \<Rightarrow> ('w, download_ret) io) \<Rightarrow> string list \<Rightarrow> 'w \<Rightarrow> nat \<Rightarrow> 'w" where
  "world_before download ms w 0 = w"
| "world_before download [] w (Suc i) = w"
| "world_before download (m # ms) w (Suc i) = world_before download ms (snd (download m w)) i"

lemma time_all_nth:
  "i < length ms \<Longrightarrow> fst (time_all clock download ms w) ! i =
     fst (time_one clock download (ms ! i) (world_before download ms w i))"
proof (induction ms arbitrary: w i)
  case (Cons m ms)
  then show ?case by (cases i) (simp_all only: time_all_Cons nth_Cons_0 nth_Cons_Suc
      world_before.simps length_Cons Suc_less_eq)
qed simp

text \<open>A failing download never makes the worker fail: for every batch of models it returns one
  result per model, in order; the result of a model is \<open>ok\<close> exactly when its download
  returned, and otherwise carries the text of the exception and no bytes.\<close>

theorem run_download_errors_are_values:
  fixes download :: "string \<Rightarrow> ('w, download_ret) io"
  shows "let results = wr_results (fst (run_download clock download pod (Some ms) cold dep_ms w))
    in map mr_model results = ms \<and>
       list_all (\<lambda>i. let call = fst (download (ms ! i) (world_before download ms w i)) in
          mr_ok (results ! i) = (\<not> isl call) \<and>
          mr_error (results ! i) = (case call of Inl e \<Rightarrow> Some (err_text e) | Inr ret \<Rightarrow> None) \<and>
          mr_bytes (results ! i) = (case call of Inl e \<Rightarrow> 0 | Inr ret \<Rightarrow> fst (unpack ret)))
        [0..<length ms]"
proof -
  have results: "wr_results (fst (run_download clock download pod (Some ms) cold dep_ms w)) =
      fst (time_all clock download ms w)"
    by (simp add: run_download_def split: prod.splits)
  show ?thesis
    unfolding results list_all_iff Let_def
    by (simp add: time_all_models time_all_nth time_one_ok time_one_error time_one_bytes)
qed

section \<open>From the worker's result to the timing row\<close>

lemma schema_phase_simps [simp]:
  "schema_phase ''cold'' = ''populate''" "schema_phase ''baseline'' = ''baseline''"
  "schema_phase ''populate'' = ''populate''" "schema_phase ''warm'' = ''warm''"
  by code_simp+

lemma schema_phase_idem: "schema_phase (schema_phase p) = schema_phase p"
  by (simp add: schema_phase_def PHASE_ALIAS_def dict_get_def)


section \<open>What a warm job of the VolumeCache relies on\<close>


text \<open>A world of a local cache, a volume and a clock; hydrating and syncing copy.\<close>

record cache_world =
  local_models :: "string list"
  volume_models :: "string list"
  now :: rat

definition example_download :: "string \<Rightarrow> (cache_world, download_ret) io" where
  "example_download m = (\<lambda>w. (Inr (Plain 7 (1/2)),
     w\<lparr>local_models := List.insert m (local_models w), now := now w + 1\<rparr>))"

definition example_hydrate :: "unit \<Rightarrow> (cache_world, unit) io" where
  "example_hydrate c = change (\<lambda>w. w\<lparr>local_models := List.union (volume_models w) (local_models w)\<rparr>)"

definition example_sync :: "unit \<Rightarrow> (cache_world, unit) io" where
  "example_sync c = change (\<lambda>w. w\<lparr>volume_models := List.union (local_models w) (volume_models w)\<rparr>)"

definition example_world :: cache_world where
  "example_world = \<lparr>local_models = [], volume_models = [''o/b''], now = 0\<rparr>"


section \<open>What a Model Store job relies on\<close>

lemma find_model_dir_sound:
  assumes "find_model_dir fs hub org name = Some base"
  obtains d where "base = hub @ [d]" and "lower_text d = lower_text (''models--'' @ org @ ''--'' @ name)"
proof -
  define target where "target = lower_text (''models--'' @ org @ ''--'' @ name)"
  define named where "named = (\<lambda>e. is_dir (Some (snd e)) \<and> lower_text (fst e) = target)"
  have found: "(case node_at fs hub of
       Some (FDir es) \<Rightarrow> (case filter named es of [] \<Rightarrow> None | e # _ \<Rightarrow> Some (hub @ [fst e]))
     | _ \<Rightarrow> None) = Some base"
    using assms unfolding find_model_dir_def Let_def named_def target_def .
  then obtain es where "(case filter named es of [] \<Rightarrow> None | e # _ \<Rightarrow> Some (hub @ [fst e])) = Some base"
    by (auto split: option.splits fnode.splits)
  then obtain e rest where e: "filter named es = e # rest" "base = hub @ [fst e]"
    by (auto split: list.splits)
  then have "named e" by (metis filter_eq_ConsD)
  then show thesis using that e(2) unfolding named_def target_def by blast
qed

lemma choose_snapshot_below:
  assumes "choose_snapshot fs model base rev_name = Inr snap"
  obtains h where "snap = base @ ''snapshots'' # h"
proof (cases "\<exists>text. node_at fs (base @ ''refs'' # path_parts rev_name) = Some (FFile text)")
  case True
  then show thesis using assms that by (auto simp: choose_snapshot_def)
next
  case False
  then have "(case snapshot_dirs fs base of [h] \<Rightarrow> Inr (base @ [''snapshots'', h])
      | dirs \<Rightarrow> Inl (no_snapshot model rev_name (base @ [''snapshots'']) (length dirs))) = Inr snap"
    using assms by (simp add: choose_snapshot_def split: option.splits fnode.splits)
  then show thesis using that by (auto split: list.splits)
qed

lemma modelstore_snapshot_dir_sound:
  assumes "modelstore_snapshot_dir fs model hub = Inr snap"
  shows "\<exists>d h. snap = path_parts hub @ d # ''snapshots'' # h \<and>
    lower_text d = lower_text (''models--'' @ before_char CHR ''/'' (before_char CHR ''@'' model) @
      ''--'' @ after_char CHR ''/'' (before_char CHR ''@'' model))"
proof -
  let ?org = "before_char CHR ''/'' (before_char CHR ''@'' model)"
  let ?name = "after_char CHR ''/'' (before_char CHR ''@'' model)"
  obtain base where base: "find_model_dir fs (path_parts hub) ?org ?name = Some base"
    using assms by (cases "find_model_dir fs (path_parts hub) ?org ?name")
      (simp_all add: modelstore_snapshot_dir_def Let_def)
  then obtain rev_name where "choose_snapshot fs model base rev_name = Inr snap"
    using assms by (auto simp: modelstore_snapshot_dir_def Let_def)
  then obtain h where h: "snap = base @ ''snapshots'' # h"
    by (rule choose_snapshot_below)
  obtain d where d: "base = path_parts hub @ [d]"
      "lower_text d = lower_text (''models--'' @ ?org @ ''--'' @ ?name)"
    using base by (rule find_model_dir_sound)
  have "snap = path_parts hub @ d # ''snapshots'' # h" using h d(1) by simp
  with d(2) show ?thesis by blast
qed

text \<open>The bytes that a Model Store job reports are those of staged weights of its own model: if
  the local read returns, the endpoint's declared model (if it has one) is the job's, the files
  read are those below a snapshot of a directory named after the model up to letter case, there
  is at least one, and the bytes are the sum of their sizes.\<close>

theorem modelstore_local_read_sound:
  assumes "modelstore_local_read tree walk clock expected hub_var model w = (Inr ret, w')"
  shows "(expected = None \<or> expected = Some [] \<or> expected = Some model) \<and>
    (\<exists>hub d h es. (hub_var = None \<and> hub = MODELSTORE_ROOT \<or> hub_var = Some hub) \<and>
      lower_text d = lower_text (''models--'' @ before_char CHR ''/'' (before_char CHR ''@'' model) @
        ''--'' @ after_char CHR ''/'' (before_char CHR ''@'' model)) \<and>
      node_at (tree w) (path_parts hub @ d # ''snapshots'' # h) = Some (FDir es) \<and>
      file_sizes (FDir es) \<noteq> [] \<and> fst (unpack ret) = int (sum_list (file_sizes (FDir es))))"
proof -
  let ?hub = "case hub_var of None \<Rightarrow> MODELSTORE_ROOT | Some r \<Rightarrow> r"
  have expected: "expected = None \<or> expected = Some [] \<or> expected = Some model"
    using assms by (auto simp: modelstore_local_read_def split: if_splits)
  then have run: "read_snapshot tree walk clock ?hub model w = (Inr ret, w')"
    using assms by (auto simp: modelstore_local_read_def)
  obtain snap where snap: "modelstore_snapshot_dir (tree w) model ?hub = Inr snap"
    using run by (auto simp: read_snapshot_def io_simps split: sum.splits)
  obtain es where es: "node_at (tree w) snap = Some (FDir es)" "file_sizes (FDir es) \<noteq> []"
      "fst (unpack ret) = int (sum_list (file_sizes (FDir es)))"
    using run snap by (auto simp: read_snapshot_def io_simps Let_def split: option.splits fnode.splits if_splits)
  obtain d h where "snap = path_parts ?hub @ d # ''snapshots'' # h"
      "lower_text d = lower_text (''models--'' @ before_char CHR ''/'' (before_char CHR ''@'' model) @
        ''--'' @ after_char CHR ''/'' (before_char CHR ''@'' model))"
    using modelstore_snapshot_dir_sound [OF snap] by blast
  moreover have "hub_var = None \<and> ?hub = MODELSTORE_ROOT \<or> hub_var = Some ?hub"
    by (cases hub_var) simp_all
  ultimately show ?thesis using expected es by blast
qed

definition example_tree :: fnode where
  "example_tree = FDir [(''hub'', FDir [(''models--O--A'', FDir
     [(''refs'', FDir [(''main'', FFile ''h1'')]),
      (''snapshots'', FDir [(''h0'', FDir []), (''h1'', FDir [(''w.bin'', FFile ''12345'')])])])])]"

theorem modelstore_local_read_sound_witness:
  "\<exists>hub d h es. (Some ''hub'' = None \<and> hub = MODELSTORE_ROOT \<or> Some ''hub'' = Some hub) \<and>
     lower_text d = lower_text (''models--'' @ before_char CHR ''/'' (before_char CHR ''@'' ''o/a'') @
        ''--'' @ after_char CHR ''/'' (before_char CHR ''@'' ''o/a'')) \<and>
     node_at example_tree (path_parts hub @ d # ''snapshots'' # h) = Some (FDir es) \<and>
     file_sizes (FDir es) \<noteq> [] \<and>
     fst (unpack (Detailed 5 1 [(''local_read_s'', Some 1)])) = int (sum_list (file_sizes (FDir es)))"
proof -
  have "modelstore_local_read (\<lambda>w. example_tree) (\<lambda>w. w + 1) (\<lambda>w. w) (Some ''o/a'') (Some ''hub'') ''o/a'' 0 =
      (Inr (Detailed 5 1 [(''local_read_s'', Some 1)]), 1)"
    by code_simp
  from modelstore_local_read_sound [OF this, THEN conjunct2] show ?thesis .
qed

end
