(* ===== verification/Testbed_State.thy ===== *)
theory Testbed_State
  imports Testbed_Config Worker_Plan Worker_Timing "HOL-Library.Multiset"
begin

text \<open>
  \<open>mechanisms/base.py\<close>, \<open>mechanisms/baseline.py\<close> and the pure part of \<open>drive/run.py\<close>: the state
  that provisioning records, the jobs of a run, and how the driver finds the endpoint of a
  job. JSON documents are values of \<open>json\<close>; that \<open>json.loads\<close> inverts \<open>json.dumps\<close> on them is
  not modelled further.
\<close>

section \<open>JSON values\<close>

datatype json =
    JNull
  | JBool bool
  | JInt int
  | JNum rat
  | JStr string
  | JArr "json list"
  | JObj "(string \<times> json) list"

definition json_obj :: "json \<Rightarrow> (string, json) pydict res" where
  "json_obj v = (case v of JObj d \<Rightarrow> Inr d | _ \<Rightarrow> Inl (AttributeError ''not a dict''))"

definition json_text :: "json \<Rightarrow> string res" where
  "json_text v = (case v of JStr s \<Rightarrow> Inr s | _ \<Rightarrow> Inl (OtherError ''not of the declared type: str''))"

section \<open>The provision state\<close>

definition BASELINE_LABEL :: string where
  "BASELINE_LABEL = ''baseline''"

definition ENDPOINT_PREFIX :: string where
  "ENDPOINT_PREFIX = ''xet-dl''"

definition endpoint_name :: "string \<Rightarrow> string" where
  "endpoint_name label = ENDPOINT_PREFIX @ ''-'' @ label"

definition state_path :: "string \<Rightarrow> string" where
  "state_path runid = ''data/state-'' @ runid @ ''.json''"

record worker_spec =
  ws_handler :: string
  ws_env :: environment
  ws_deps :: "string list"
  ws_network_volume_gb :: "int option"

record provision_state =
  st_mechanism :: string
  st_runid :: string
  st_endpoints :: "(string, string) pydict"
  st_pods :: "(string, string) pydict"
  st_volumes :: "(string, string) pydict"
  st_metrics_urls :: "(string, string) pydict"

definition new_state :: "string \<Rightarrow> string \<Rightarrow> provision_state" where
  "new_state mechanism runid = \<lparr>st_mechanism = mechanism, st_runid = runid, st_endpoints = [],
     st_pods = [], st_volumes = [], st_metrics_urls = []\<rparr>"

definition json_dict :: "(string, string) pydict \<Rightarrow> json" where
  "json_dict d = JObj (map (\<lambda>(k, v). (k, JStr v)) d)"

definition state_to_json :: "provision_state \<Rightarrow> json" where
  "state_to_json st = JObj
     [(''mechanism'', JStr (st_mechanism st)), (''runid'', JStr (st_runid st)),
      (''endpoints'', json_dict (st_endpoints st)), (''pods'', json_dict (st_pods st)),
      (''volumes'', json_dict (st_volumes st)), (''metrics_urls'', json_dict (st_metrics_urls st))]"

definition STATE_KEYS :: "string list" where
  "STATE_KEYS = [''mechanism'', ''runid'', ''endpoints'', ''pods'', ''volumes'', ''metrics_urls'']"

definition dict_of_json :: "json \<Rightarrow> (string, string) pydict res" where
  "dict_of_json v =
     res_bind (json_obj v) (map_res (\<lambda>(k, x). res_bind (json_text x) (\<lambda>s. Inr (k, s))))"

text \<open>\<open>cls(**json.loads(text))\<close>: unknown or missing keyword arguments are a \<open>TypeError\<close>.\<close>

definition state_from_json :: "json \<Rightarrow> provision_state res" where
  "state_from_json v =
    res_bind (json_obj v) (\<lambda>d.
      if \<not> set (dict_keys d) \<subseteq> set STATE_KEYS
      then Inl (TypeError ''ProvisionState.__init__() got an unexpected keyword argument'')
      else if \<not> (has_key ''mechanism'' d \<and> has_key ''runid'' d)
      then Inl (TypeError ''ProvisionState.__init__() missing required positional arguments'')
      else res_bind (res_bind (dict_item ''mechanism'' d) json_text) (\<lambda>mechanism.
        res_bind (res_bind (dict_item ''runid'' d) json_text) (\<lambda>runid.
        res_bind (dict_of_json (dict_get ''endpoints'' (JObj []) d)) (\<lambda>eps.
        res_bind (dict_of_json (dict_get ''pods'' (JObj []) d)) (\<lambda>pods.
        res_bind (dict_of_json (dict_get ''volumes'' (JObj []) d)) (\<lambda>vols.
        res_bind (dict_of_json (dict_get ''metrics_urls'' (JObj []) d)) (\<lambda>urls.
          Inr \<lparr>st_mechanism = mechanism, st_runid = runid, st_endpoints = eps, st_pods = pods,
               st_volumes = vols, st_metrics_urls = urls\<rparr>)))))))"

lemma dict_of_json_dict [simp]: "dict_of_json (json_dict d) = Inr d"
  by (induction d) (auto simp: dict_of_json_def json_dict_def json_obj_def json_text_def)


section \<open>Jobs\<close>

definition group_job :: "string \<Rightarrow> string \<Rightarrow> string \<Rightarrow> nat \<Rightarrow> job" where
  "group_job g m phase r = \<lparr>job_mechanism = None, job_endpoint = None, job_group = Some g,
     job_model = m, job_phase = phase, job_replica = r\<rparr>"

text \<open>\<open>range(burst)\<close>.\<close>

definition burst_range :: "int \<Rightarrow> nat list" where
  "burst_range burst = [0..<nat burst]"

definition expand_jobs :: "(string, string list) pydict \<Rightarrow> int \<Rightarrow> job list" where
  "expand_jobs overlap burst =
    concat (map (\<lambda>(g, ms). map (\<lambda>m. group_job g m ''cold'' 0) ms) overlap) @
    concat (map (\<lambda>(g, ms). concat (map (\<lambda>m. map (\<lambda>r. group_job g m ''warm'' r) (burst_range burst)) ms))
      overlap)"

definition mechanism_job :: "string \<Rightarrow> string \<Rightarrow> string \<Rightarrow> string \<Rightarrow> nat \<Rightarrow> job" where
  "mechanism_job mechanism endpoint m phase r = \<lparr>job_mechanism = Some mechanism,
     job_endpoint = Some endpoint, job_group = None, job_model = m, job_phase = phase, job_replica = r\<rparr>"

definition BASELINE_MECHANISM :: string where
  "BASELINE_MECHANISM = ''baseline''"

definition baseline_jobs :: "string list \<Rightarrow> job list" where
  "baseline_jobs models =
     map (\<lambda>m. mechanism_job BASELINE_MECHANISM BASELINE_LABEL m ''baseline'' 0) models"

section \<open>Endpoints of jobs\<close>

text \<open>The ids of the manifest that \<open>flash deploy\<close> writes, by the text after the last dash.\<close>

definition endpoint_ids :: "json \<Rightarrow> (string, string) pydict res" where
  "endpoint_ids manifest =
    res_bind (json_obj manifest) (\<lambda>top.
      res_bind (json_obj (dict_get ''resources'' (JObj []) top)) (\<lambda>resources.
        fold_res (\<lambda>(res_name, res) out.
            res_bind (json_obj res) (\<lambda>r.
              res_bind (res_bind (dict_item ''endpoint_id'' r) json_text) (\<lambda>eid.
                Inr (AList.update (after_last CHR ''-'' res_name) eid out))))
          resources []))"

definition SEQUENTIAL_PHASES :: "string list" where
  "SEQUENTIAL_PHASES = [''baseline'', ''cold'', ''populate'']"

definition split_jobs :: "job list \<Rightarrow> job list \<times> job list" where
  "split_jobs jobs =
    (filter (\<lambda>j. job_phase j \<in> set SEQUENTIAL_PHASES) jobs,
     filter (\<lambda>j. job_phase j \<notin> set SEQUENTIAL_PHASES) jobs)"

text \<open>\<open>job['endpoint']\<close>.\<close>

definition endpoint_of :: "job \<Rightarrow> string res" where
  "endpoint_of j = (case job_endpoint j of None \<Rightarrow> Inl (KeyError ''endpoint'') | Some l \<Rightarrow> Inr l)"

definition resolve_endpoints ::
  "job list \<Rightarrow> (string, string) pydict \<Rightarrow> (string, string) pydict res" where
  "resolve_endpoints jobs endpoints =
    res_bind (map_res endpoint_of jobs) (\<lambda>labels.
      let wanted = sort (remdups labels); missing = filter (\<lambda>w. \<not> has_key w endpoints) wanted
      in if missing \<noteq> []
         then Inl (ValueError (''no endpoint id recorded for labels '' @ repr_list missing @
                ''; state has '' @ repr_list (sort (dict_keys endpoints))))
         else map_res (\<lambda>w. res_bind (dict_item w endpoints) (\<lambda>e. Inr (w, e))) wanted)"

lemma set_split_jobs:
  "mset (fst (split_jobs jobs)) + mset (snd (split_jobs jobs)) = mset jobs"
  by (induction jobs) (auto simp: split_jobs_def)

text \<open>With an endpoint recorded for every job, every job finds its own.\<close>

lemma resolve_endpoints_total:
  assumes "list_all (\<lambda>j. \<exists>l. job_endpoint j = Some l \<and> has_key l endpoints) jobs"
  obtains eids where "resolve_endpoints jobs endpoints = Inr eids"
    and "list_all (\<lambda>j. \<exists>l e. job_endpoint j = Some l \<and> map_of endpoints l = Some e \<and> map_of eids l = Some e) jobs"
proof -
  define labels where "labels = map (the \<circ> job_endpoint) jobs"
  define wanted where "wanted = sort (remdups labels)"
  define eids where "eids = map (\<lambda>w. (w, the (map_of endpoints w))) wanted"
  have job: "job_endpoint j = Some (the (job_endpoint j)) \<and> has_key (the (job_endpoint j)) endpoints"
    if "j \<in> set jobs" for j
    using assms that unfolding list_all_iff by fastforce
  have labels: "map_res endpoint_of jobs = Inr labels"
    unfolding labels_def comp_def
  proof (rule map_res_cong_Inr)
    fix j assume "j \<in> set jobs"
    then show "endpoint_of j = Inr (the (job_endpoint j))"
      using job [of j] by (cases "job_endpoint j") (simp_all add: endpoint_of_def)
  qed
  have wanted: "set wanted = (the \<circ> job_endpoint) ` set jobs"
    by (simp add: wanted_def labels_def)
  then have known: "has_key w endpoints" if "w \<in> set wanted" for w
    using that job by auto
  then have "filter (\<lambda>w. \<not> has_key w endpoints) wanted = []"
    unfolding filter_empty_conv by blast
  moreover have "map_res (\<lambda>w. res_bind (dict_item w endpoints) (\<lambda>e. Inr (w, e))) wanted = Inr eids"
    unfolding eids_def by (rule map_res_cong_Inr) (use known in \<open>simp add: dict_item_eq\<close>)
  ultimately have resolved: "resolve_endpoints jobs endpoints = Inr eids"
    by (simp add: resolve_endpoints_def labels wanted_def [symmetric] del: has_key_iff)
  have eid: "map_of eids l = (if l \<in> set wanted then Some (the (map_of endpoints l)) else None)" for l
    unfolding eids_def by (induction wanted) auto
  have "\<exists>l e. job_endpoint j = Some l \<and> map_of endpoints l = Some e \<and> map_of eids l = Some e"
    if j: "j \<in> set jobs" for j
  proof -
    have "the (job_endpoint j) \<in> set wanted" using j wanted by auto
    moreover obtain e where "map_of endpoints (the (job_endpoint j)) = Some e"
      using job [OF j] by (auto simp: has_key_def simp del: has_key_iff)
    ultimately show ?thesis using job [OF j] eid by (metis option.sel)
  qed
  then show thesis using that [OF resolved] by (simp add: list_all_iff)
qed

end
