(* ===== verification/Polling.thy ===== *)
theory Polling
  imports Py_World
begin

text \<open>
  The polling loops of the testbed. A loop has a number of iterations as fuel; where the clock
  moves on by a step at each sleep, fuel for the timeout divided by the step is enough, so
  that \<open>OutOfFuel\<close> is never the outcome.
\<close>

text \<open>\<open>while time.time() < end: attempt; sleep\<close>, then \<open>raise\<close>: \<open>attempt\<close> says if it succeeded.\<close>

fun poll_while ::
  "nat \<Rightarrow> ('e \<Rightarrow> rat) \<Rightarrow> rat \<Rightarrow> ('e, 'a option) io \<Rightarrow> ('e, unit) io \<Rightarrow> pyerr \<Rightarrow> ('e, 'a) io" where
  "poll_while 0 clock deadline attempt nap e = throw OutOfFuel"
| "poll_while (Suc n) clock deadline attempt nap e =
    bind_call (look clock) (\<lambda>t.
      if t < deadline
      then bind_call attempt (\<lambda>r. case r of
             Some x \<Rightarrow> pure x
           | None \<Rightarrow> then_call nap (poll_while n clock deadline attempt nap e))
      else throw e)"

text \<open>
  \<open>while True: attempt; if time.time() > deadline: raise; sleep\<close>: an attempt that is not ready
  gives the exception that is raised at the end.
\<close>

fun poll_until ::
  "nat \<Rightarrow> ('e \<Rightarrow> rat) \<Rightarrow> rat \<Rightarrow> ('e, 'a res) io \<Rightarrow> ('e, unit) io \<Rightarrow> ('e, 'a) io" where
  "poll_until 0 clock deadline attempt nap = throw OutOfFuel"
| "poll_until (Suc n) clock deadline attempt nap =
    bind_call attempt (\<lambda>r. case r of
        Inr x \<Rightarrow> pure x
      | Inl e \<Rightarrow> bind_call (look clock) (\<lambda>t.
          if deadline < t then throw e
          else then_call nap (poll_until n clock deadline attempt nap)))"

text \<open>What the loops need of the clock.\<close>

definition moves_on :: "('e \<Rightarrow> rat) \<Rightarrow> rat \<Rightarrow> ('e, 'a) io \<Rightarrow> bool" where
  "moves_on clock step m \<longleftrightarrow>
     (\<forall>w. fst (m w) \<noteq> Inl OutOfFuel \<and> clock w + step \<le> clock (snd (m w)))"

lemma moves_onD:
  "moves_on clock step m \<Longrightarrow> m w = (r, w') \<Longrightarrow> r \<noteq> Inl OutOfFuel \<and> clock w + step \<le> clock w'"
  unfolding moves_on_def by (metis fst_conv snd_conv)

lemma poll_while_returns:
  assumes "moves_on clock 0 attempt" and "moves_on clock step nap"
    and "deadline - clock w < of_nat n * step" and "e \<noteq> OutOfFuel"
  shows "fst (poll_while (Suc n) clock deadline attempt nap e w) \<noteq> Inl OutOfFuel"
  using assms(3)
proof (induction n arbitrary: w)
  case 0
  then show ?case using assms(4) by (simp add: io_simps)
next
  case (Suc n)
  obtain r w1 where w1: "attempt w = (r, w1)" by force
  obtain s w2 where w2: "nap w1 = (s, w2)" by force
  have r: "r \<noteq> Inl OutOfFuel" "clock w \<le> clock w1"
    using moves_onD [OF assms(1) w1] by auto
  have s: "s \<noteq> Inl OutOfFuel" "clock w1 + step \<le> clock w2"
    using moves_onD [OF assms(2) w2] by auto
  have "deadline - clock w2 < of_nat n * step"
    using Suc.prems r(2) s(2) by (simp add: algebra_simps)
  then have later: "fst (poll_while (Suc n) clock deadline attempt nap e w2) \<noteq> Inl OutOfFuel"
    by (rule Suc.IH)
  have nap: "fst (then_call nap (poll_while (Suc n) clock deadline attempt nap e) w1) \<noteq> Inl OutOfFuel"
    unfolding run_then w2 using s(1) later by (cases s) auto
  have "fst (bind_call attempt (\<lambda>r. case r of
             Some x \<Rightarrow> pure x
           | None \<Rightarrow> then_call nap (poll_while (Suc n) clock deadline attempt nap e)) w) \<noteq> Inl OutOfFuel"
    unfolding run_bind [of attempt] w1 using r(1) nap by (auto split: sum.split option.split)
  then show ?case using assms(4)
    by (subst poll_while.simps) (simp add: io_simps del: poll_while.simps)
qed

lemma poll_until_returns:
  assumes "moves_on clock 0 attempt" and "moves_on clock step nap"
    and "deadline - clock w < of_nat n * step"
    and "\<And>w e w'. attempt w = (Inr (Inl e), w') \<Longrightarrow> e \<noteq> OutOfFuel"
  shows "fst (poll_until (Suc n) clock deadline attempt nap w) \<noteq> Inl OutOfFuel"
  using assms(3)
proof (induction n arbitrary: w)
  case 0
  obtain r w1 where w1: "attempt w = (r, w1)" by force
  have "r \<noteq> Inl OutOfFuel" "deadline < clock w1"
    using moves_onD [OF assms(1) w1] 0 by auto
  then show ?case using w1 assms(4) [of w _ w1] by (auto simp: io_simps split: sum.split)
next
  case (Suc n)
  obtain r w1 where w1: "attempt w = (r, w1)" by force
  obtain s w2 where w2: "nap w1 = (s, w2)" by force
  have r: "r \<noteq> Inl OutOfFuel" "clock w \<le> clock w1"
    using moves_onD [OF assms(1) w1] by auto
  have s: "s \<noteq> Inl OutOfFuel" "clock w1 + step \<le> clock w2"
    using moves_onD [OF assms(2) w2] by auto
  have "deadline - clock w2 < of_nat n * step"
    using Suc.prems r(2) s(2) by (simp add: algebra_simps)
  then have later: "fst (poll_until (Suc n) clock deadline attempt nap w2) \<noteq> Inl OutOfFuel"
    by (rule Suc.IH)
  have nap: "fst (then_call nap (poll_until (Suc n) clock deadline attempt nap) w1) \<noteq> Inl OutOfFuel"
    unfolding run_then w2 using s(1) later by (cases s) auto
  have "fst (bind_call attempt (\<lambda>r. case r of
        Inr x \<Rightarrow> pure x
      | Inl e \<Rightarrow> bind_call (look clock) (\<lambda>t.
          if deadline < t then throw e
          else then_call nap (poll_until (Suc n) clock deadline attempt nap))) w) \<noteq> Inl OutOfFuel"
    unfolding run_bind [of attempt] w1 using r(1) nap assms(4) [of w _ w1] w1
    by (auto simp: run_bind split: sum.split)
  then show ?case by (subst poll_until.simps)
qed

lemma poll_until_first:
  "attempt w = (Inr (Inr x), w') \<Longrightarrow> 0 < n \<Longrightarrow> poll_until n clock deadline attempt nap w = (Inr x, w')"
  by (cases n) (simp_all add: run_bind)

lemma poll_while_first:
  "attempt w = (Inr (Some x), w') \<Longrightarrow> 0 < n \<Longrightarrow> clock w < deadline \<Longrightarrow>
     poll_while n clock deadline attempt nap e w = (Inr x, w')"
  by (cases n) (simp_all add: run_bind)

text \<open>What a loop that returns has seen: an attempt that succeeded, in some world.\<close>

lemma poll_while_success:
  "poll_while n clock deadline attempt nap e w = (Inr x, w') \<Longrightarrow> \<exists>v. attempt v = (Inr (Some x), w')"
proof (induction n arbitrary: w)
  case (Suc n)
  then show ?case
    by (auto simp: io_simps split: prod.splits sum.splits option.splits if_splits)
qed simp

lemma poll_until_success:
  "poll_until n clock deadline attempt nap w = (Inr x, w') \<Longrightarrow> \<exists>v. attempt v = (Inr (Inr x), w')"
proof (induction n arbitrary: w)
  case (Suc n)
  then show ?case
    by (auto simp: io_simps split: prod.splits sum.splits if_splits)
qed simp

lemma keeps_poll_while:
  assumes "keeps P attempt" and "keeps P nap"
  shows "keeps P (poll_while n clock deadline attempt nap e)"
proof (induction n)
  case 0
  show ?case unfolding poll_while.simps by (rule keeps_throw)
next
  case (Suc n)
  have "keeps P (case r of Some x \<Rightarrow> pure x
      | None \<Rightarrow> then_call nap (poll_while n clock deadline attempt nap e))" for r
    using Suc assms(2) by (cases r) (auto intro: keeps_intros)
  then show ?case using assms(1) by (auto intro!: keeps_intros)
qed

lemma keeps_poll_until:
  assumes "keeps P attempt" and "keeps P nap"
  shows "keeps P (poll_until n clock deadline attempt nap)"
proof (induction n)
  case 0
  show ?case unfolding poll_until.simps by (rule keeps_throw)
next
  case (Suc n)
  have "keeps P (case r of Inr x \<Rightarrow> pure x
      | Inl e \<Rightarrow> bind_call (look clock) (\<lambda>t. if deadline < t then throw e
          else then_call nap (poll_until n clock deadline attempt nap)))" for r
    using Suc assms(2) by (cases r) (auto intro!: keeps_intros)
  then show ?case using assms(1) by (auto intro!: keeps_intros)
qed

end
