(* ===== verification/Fleet.thy ===== *)
theory Fleet
  imports Testbed_State Polling
begin

text \<open>
  \<open>provision/fleet.py\<close> and \<open>provision/selfconfig.py\<close>: the account's pods as the testbed sees
  them, and how a cache pod finds its own and its peers' addresses before it starts the cache.
  The outside world (the Runpod API, the \<open>flash\<close> command, the clock) is the record \<open>cloud\<close> of
  operations on a state of its own.
\<close>

section \<open>The outside world\<close>

record pod_request =
  req_name :: string
  req_image :: string
  req_instance_id :: string
  req_disk_gb :: int
  req_dc :: string
  req_env :: environment

text \<open>An HTTP request with the key that authorizes it. The body of an answer is empty, JSON, or neither; an answer
  with an error status is the exception \<open>HTTPError\<close>, with the reason and what reading its body gives.\<close>

record http_request =
  hr_method :: string
  hr_url :: string
  hr_key :: string
  hr_body :: "json option"

datatype http_body = NoBody | JsonBody json | OtherBody

datatype http_answer = Answered int http_body | Refused int string "http_body res"

record 'e cloud =
  graphql :: "string \<Rightarrow> ('e, json) io"
  sdk_create_pod :: "pod_request \<Rightarrow> ('e, json) io"
  sdk_terminate_pod :: "string \<Rightarrow> ('e, unit) io"
  http_status :: "string \<Rightarrow> ('e, int) io"
  run_flash :: "string list \<Rightarrow> environment \<Rightarrow> bool \<Rightarrow> ('e, unit) io"
  read_manifest :: "('e, json) io"
  http_open :: "http_request \<Rightarrow> ('e, http_answer) io"
  wall_clock :: "'e \<Rightarrow> rat"
  sleep :: "rat \<Rightarrow> ('e, unit) io"

section \<open>Reading JSON answers\<close>

fun truthy :: "json \<Rightarrow> bool" where
  "truthy JNull = False"
| "truthy (JBool b) = b"
| "truthy (JInt i) = (i \<noteq> 0)"
| "truthy (JNum x) = (x \<noteq> 0)"
| "truthy (JStr s) = (s \<noteq> [])"
| "truthy (JArr xs) = (xs \<noteq> [])"
| "truthy (JObj d) = (d \<noteq> [])"

text \<open>\<open>v or w\<close>, \<open>v.get(k, w)\<close> of a dictionary, and a value inside an f-string.\<close>

definition or_else :: "json \<Rightarrow> json \<Rightarrow> json" where
  "or_else v w = (if truthy v then v else w)"

definition json_get :: "string \<Rightarrow> json \<Rightarrow> json \<Rightarrow> json res" where
  "json_get k w v = res_bind (json_obj v) (\<lambda>d. Inr (dict_get k w d))"

definition json_item :: "string \<Rightarrow> json \<Rightarrow> json res" where
  "json_item k v = (case v of JObj d \<Rightarrow> dict_item k d | _ \<Rightarrow> Inl (TypeError ''not subscriptable by a key''))"

definition json_list :: "json \<Rightarrow> json list res" where
  "json_list v = (case v of JArr xs \<Rightarrow> Inr xs | _ \<Rightarrow> Inl (TypeError ''not a list''))"

text \<open>\<open>for x in v\<close>; a text is iterated over by its bytes here, an object by its keys.\<close>

fun json_iter :: "json \<Rightarrow> json list res" where
  "json_iter (JArr xs) = Inr xs"
| "json_iter (JObj d) = Inr (map (\<lambda>(k, v). JStr k) d)"
| "json_iter (JStr s) = Inr (map (\<lambda>c. JStr [c]) s)"
| "json_iter v = Inl (TypeError ''object is not iterable'')"

fun json_show :: "json \<Rightarrow> string res" where
  "json_show (JStr s) = Inr s"
| "json_show (JInt i) = Inr (str_int i)"
| "json_show JNull = Inr ''None''"
| "json_show (JBool b) = Inr (if b then ''True'' else ''False'')"
| "json_show v = Inl (OtherError ''not of the declared type: str or int'')"

definition json_is_int :: "json \<Rightarrow> int \<Rightarrow> bool" where
  "json_is_int v n \<longleftrightarrow> v = JInt n \<or> v = JNum (of_int n)"

text \<open>\<open>int(v)\<close>; a fraction is cut.\<close>

fun json_int :: "json \<Rightarrow> int res" where
  "json_int (JInt i) = Inr i"
| "json_int (JNum x) = Inr (if x < 0 then ceiling x else floor x)"
| "json_int (JBool b) = Inr (if b then 1 else 0)"
| "json_int (JStr s) = int_of_text s"
| "json_int _ = Inl (TypeError ''int() argument must be a string, a bytes-like object or a real number'')"

section \<open>The fleet\<close>

definition quoted :: "string \<Rightarrow> string" where
  "quoted s = [CHR 0x22] @ s @ [CHR 0x22]"

definition public_http :: "json \<Rightarrow> bool res" where
  "public_http p =
    res_bind (json_obj p) (\<lambda>d.
      Inr (dict_get ''type'' JNull d = JStr ''tcp'' \<and> truthy (dict_get ''isIpPublic'' JNull d) \<and>
           json_is_int (dict_get ''privatePort'' JNull d) 8000))"

fun parse_external_addr :: "json list \<Rightarrow> string option res" where
  "parse_external_addr [] = Inr None"
| "parse_external_addr (p # ps) =
    res_bind (public_http p) (\<lambda>found.
      if found
      then res_bind (res_bind (json_item ''ip'' p) json_show) (\<lambda>ip.
           res_bind (res_bind (json_item ''publicPort'' p) json_show) (\<lambda>port.
             Inr (Some (''http://'' @ ip @ '':'' @ port))))
      else parse_external_addr ps)"

definition pod_ports_query :: "string \<Rightarrow> string" where
  "pod_ports_query pid = ''query { pod(input:{podId:'' @ quoted pid @
     ''}) { runtime { ports { ip isIpPublic privatePort publicPort type } } } }''"

definition ports_of_answer :: "json \<Rightarrow> json list res" where
  "ports_of_answer answer =
    res_bind (json_get ''data'' (JObj []) answer) (\<lambda>data.
    res_bind (json_get ''pod'' JNull data) (\<lambda>pod.
    res_bind (json_get ''runtime'' JNull (or_else pod (JObj []))) (\<lambda>rt.
    res_bind (json_get ''ports'' JNull (or_else rt (JObj []))) (\<lambda>ports.
      json_list (or_else ports (JArr []))))))"

definition get_pod_ports :: "'e cloud \<Rightarrow> string \<Rightarrow> ('e, json list) io" where
  "get_pod_ports c pid =
    bind_call (graphql c (pod_ports_query pid)) (\<lambda>answer. lift_res (ports_of_answer answer))"

definition create_cache_pod :: "'e cloud \<Rightarrow> pod_request \<Rightarrow> ('e, string) io" where
  "create_cache_pod c req =
    bind_call (sdk_create_pod c req) (\<lambda>pod. lift_res (res_bind (json_item ''id'' pod) json_text))"

definition terminate_pod :: "'e cloud \<Rightarrow> string \<Rightarrow> ('e, unit) io" where
  "terminate_pod c pid = sdk_terminate_pod c pid"

definition pods_of_answer :: "string \<Rightarrow> json \<Rightarrow> (string \<times> string) list res" where
  "pods_of_answer fleet_prefix answer =
    res_bind (json_get ''data'' (JObj []) answer) (\<lambda>data.
    res_bind (json_get ''myself'' JNull data) (\<lambda>myself.
    res_bind (json_get ''pods'' JNull (or_else myself (JObj []))) (\<lambda>pods.
    res_bind (json_list (or_else pods (JArr []))) (\<lambda>ps.
    res_bind (map_res (\<lambda>p. res_bind (json_get ''name'' (JStr []) p) (\<lambda>n.
                res_bind (json_text n) (\<lambda>name. Inr (name, p)))) ps) (\<lambda>named.
      map_res (\<lambda>(name, p). res_bind (res_bind (json_item ''id'' p) json_text) (\<lambda>i. Inr (i, name)))
        (filter (\<lambda>(name, p). starts_with fleet_prefix name) named))))))"

definition list_pods_by_prefix :: "'e cloud \<Rightarrow> string \<Rightarrow> ('e, (string \<times> string) list) io" where
  "list_pods_by_prefix c fleet_prefix =
    bind_call (graphql c ''query { myself { pods { id name } } }'')
      (\<lambda>answer. lift_res (pods_of_answer fleet_prefix answer))"

section \<open>Self-configuration of a pod\<close>

definition assemble_env ::
  "string \<Rightarrow> string list \<Rightarrow> (string, string option) pydict \<Rightarrow> string \<Rightarrow> environment \<Rightarrow> environment res" where
  "assemble_env own_id peer_ids addrs token extra =
    (let addr = (\<lambda>i. case dict_get i None addrs of None \<Rightarrow> [] | Some a \<Rightarrow> a)
     in case filter (\<lambda>i. addr i = []) (own_id # peer_ids) of
          i # _ \<Rightarrow> Inl (NotReady (''no external addr yet for '' @ i))
        | [] \<Rightarrow> Inr (dict_update extra
            ([(''PUBLIC_BASE'', addr own_id), (''SELF_URL'', addr own_id),
              (''PEERS'', join_commas (map addr peer_ids))] @
             (if token = [] then [] else [(''SHIM_AUTH_TOKEN'', token)]))))"

definition addresses :: "'e cloud \<Rightarrow> string list \<Rightarrow> ('e, (string, string option) pydict) io" where
  "addresses c ids =
    bind_call (map_each (\<lambda>pid. bind_call (get_pod_ports c pid)
                (\<lambda>ports. lift_res (res_bind (parse_external_addr ports) (\<lambda>a. Inr (pid, a))))) ids)
      (\<lambda>kvs. pure (dict_update [] kvs))"

definition is_not_ready :: "pyerr \<Rightarrow> bool" where
  "is_not_ready e = (case e of NotReady m \<Rightarrow> True | _ \<Rightarrow> False)"

text \<open>
  The polls of \<open>resolve\<close> and of \<open>main\<close>: 300 seconds in steps of 3 are 100 sleeps; \<open>SELF_POLLS\<close>
  is enough for them (\<open>poll_until_returns\<close>).
\<close>

definition SELF_POLLS :: nat where
  "SELF_POLLS = 102"

definition resolve ::
  "'e cloud \<Rightarrow> string \<Rightarrow> string list \<Rightarrow> rat \<Rightarrow> string \<Rightarrow> environment \<Rightarrow> ('e, environment) io" where
  "resolve c own_id peer_ids timeout_s token extra =
    bind_call (look (wall_clock c)) (\<lambda>t0.
      poll_until SELF_POLLS (wall_clock c) (t0 + timeout_s)
        (bind_call (addresses c (own_id # peer_ids)) (\<lambda>addrs.
           pure (assemble_env own_id peer_ids addrs token extra)))
        (sleep c 3))"

definition discover_ids :: "(string \<times> string) list \<Rightarrow> string \<Rightarrow> string list" where
  "discover_ids pods own_id = filter (\<lambda>i. i \<noteq> own_id) (map fst pods)"

definition expected_fleet_size :: "environment \<Rightarrow> int res" where
  "expected_fleet_size env =
    (case map_of env ''FLEET_SIZE'' of
       None \<Rightarrow> Inl (NotReady ''FLEET_SIZE must be set to the pod count'')
     | Some raw \<Rightarrow>
         (case int_of_text raw of
            Inl e \<Rightarrow> Inl (NotReady (''FLEET_SIZE must be an integer, got '' @ py_repr raw))
          | Inr n \<Rightarrow> if n \<le> 0
              then Inl (NotReady (''FLEET_SIZE must be a positive integer, got '' @ py_repr raw))
              else Inr n))"

definition EXTRA_KEYS :: "string list" where
  "EXTRA_KEYS = [''XORB_CACHE_MAX_GIB'', ''CACHE_DIR'', ''PORT'']"

definition wait_for_fleet ::
  "'e cloud \<Rightarrow> string \<Rightarrow> string \<Rightarrow> int \<Rightarrow> ('e, (string \<times> string) list) io" where
  "wait_for_fleet c own_id fleet_prefix expected =
    bind_call (look (wall_clock c)) (\<lambda>t0.
      poll_until SELF_POLLS (wall_clock c) (t0 + 300)
        (bind_call (list_pods_by_prefix c fleet_prefix) (\<lambda>pods.
           pure (if own_id \<in> set (map fst pods) \<and> expected \<le> int (length pods) then Inr pods
                 else Inl (NotReady (''fleet prefix '' @ py_repr fleet_prefix @
                        '' never reached expected size'')))))
        (sleep c 3))"

text \<open>
  \<open>main\<close>, up to the \<open>exec\<close> of the cache: its result is what \<open>os.environ\<close> then is.
\<close>

definition selfconfig_main :: "'e cloud \<Rightarrow> environment \<Rightarrow> ('e, environment) io" where
  "selfconfig_main c environ =
    bind_call (lift_res (dict_item ''RUNPOD_POD_ID'' environ)) (\<lambda>own_id.
    bind_call (lift_res (dict_item ''FLEET_PREFIX'' environ)) (\<lambda>fleet_prefix.
    bind_call (lift_res (dict_item ''RUNPOD_API_KEY'' environ)) (\<lambda>api_key.
    bind_call (lift_res (expected_fleet_size environ)) (\<lambda>expected.
    bind_call (wait_for_fleet c own_id fleet_prefix expected) (\<lambda>pods.
    bind_call (resolve c own_id (discover_ids pods own_id) 300
                 (dict_get ''SHIM_AUTH_TOKEN'' [] environ)
                 (map (\<lambda>k. (k, the (map_of environ k)))
                   (filter (\<lambda>k. has_key k environ) EXTRA_KEYS))) (\<lambda>env.
      pure (dict_update environ env)))))))"

section \<open>The loops return\<close>

text \<open>No answer of the API, however malformed, is reported as a lack of fuel.\<close>

named_theorems fuel_free \<open>results that are never OutOfFuel\<close>

definition fine :: "'a res \<Rightarrow> bool" where
  "fine r \<longleftrightarrow> r \<noteq> Inl OutOfFuel"

lemma fine_Inr [fuel_free]: "fine (Inr x)"
  by (simp add: fine_def)

lemma fine_bind [fuel_free]: "fine r \<Longrightarrow> (\<And>x. fine (f x)) \<Longrightarrow> fine (res_bind r f)"
  by (cases r) (simp_all add: fine_def)

lemma fine_map [fuel_free]: "(\<And>x. fine (f x)) \<Longrightarrow> fine (map_res f xs)"
  by (induction xs) (auto intro: fuel_free)

lemma fine_item [fuel_free]: "fine (dict_item k d)"
  and fine_obj [fuel_free]: "fine (json_obj v)"
  and fine_text [fuel_free]: "fine (json_text v)"
  and fine_list [fuel_free]: "fine (json_list v)"
  by (simp_all add: fine_def dict_item_def json_obj_def json_text_def json_list_def
      split: option.split json.split)

lemma fine_show [fuel_free]: "fine (json_show v)"
  by (cases v) (simp_all add: fine_def)

lemma fine_get [fuel_free]: "fine (json_get k w v)"
  and fine_json_item [fuel_free]: "fine (json_item k v)"
  unfolding json_get_def by (intro fuel_free) (cases v; simp add: json_item_def fine_item [unfolded fine_def] fine_def)

lemma fine_ports [fuel_free]: "fine (ports_of_answer a)"
  unfolding ports_of_answer_def by (intro fuel_free)

lemma fine_pods [fuel_free]: "fine (pods_of_answer fleet_prefix a)"
  unfolding pods_of_answer_def case_prod_unfold by (intro fuel_free)

lemma fine_parse_addr [fuel_free]: "fine (parse_external_addr ports)"
proof (induction ports)
  case (Cons p ports)
  have "fine (public_http p)" unfolding public_http_def by (intro fuel_free)
  then show ?case
    using Cons unfolding parse_external_addr.simps
    by (intro fine_bind) (auto intro: fuel_free)
qed (simp add: fine_def)

lemma moves_on_lift: "fine r \<Longrightarrow> moves_on clock 0 (lift_res r)"
  by (simp add: moves_on_def fine_def)

lemma moves_on_pure: "moves_on clock 0 (pure x)"
  by (simp add: moves_on_def)

lemma moves_on_bind:
  assumes "moves_on clock 0 m" and "\<And>x. moves_on clock 0 (f x)"
  shows "moves_on clock 0 (bind_call m f)"
  unfolding moves_on_def
proof
  fix w
  obtain r w1 where w1: "m w = (r, w1)" by force
  show "fst (bind_call m f w) \<noteq> Inl OutOfFuel \<and> clock w + 0 \<le> clock (snd (bind_call m f w))"
  proof (cases r)
    case (Inl e)
    then show ?thesis using moves_onD [OF assms(1) w1] by (simp add: run_bind w1)
  next
    case (Inr x)
    obtain s w2 where w2: "f x w1 = (s, w2)" by force
    then show ?thesis using moves_onD [OF assms(1) w1] moves_onD [OF assms(2) w2] Inr
      by (simp add: run_bind w1)
  qed
qed

lemma moves_on_map_each: "(\<And>x. moves_on clock 0 (f x)) \<Longrightarrow> moves_on clock 0 (map_each f xs)"
  by (induction xs) (auto intro: moves_on_pure moves_on_bind)

lemmas moves_on_intros = moves_on_bind moves_on_map_each moves_on_pure moves_on_lift

lemma addresses_moves_on:
  assumes "\<And>q. moves_on (wall_clock c) 0 (graphql c q)"
  shows "moves_on (wall_clock c) 0 (addresses c ids)"
  unfolding addresses_def get_pod_ports_def
  by (intro moves_on_intros assms fuel_free)

lemma list_pods_moves_on:
  assumes "\<And>q. moves_on (wall_clock c) 0 (graphql c q)"
  shows "moves_on (wall_clock c) 0 (list_pods_by_prefix c fleet_prefix)"
  unfolding list_pods_by_prefix_def by (intro moves_on_intros assms fuel_free)

lemma assemble_env_not_ready:
  "assemble_env own_id peer_ids addrs token extra = Inl e \<Longrightarrow> is_not_ready e"
  by (auto simp: assemble_env_def is_not_ready_def Let_def split: list.splits)

lemma bind_fuel:
  assumes "fst (m w) \<noteq> Inl OutOfFuel"
    and "\<And>x w'. m w = (Inr x, w') \<Longrightarrow> fst (f x w') \<noteq> Inl OutOfFuel"
  shows "fst (bind_call m f w) \<noteq> Inl OutOfFuel"
  using assms by (cases "m w"; cases "fst (m w)") (auto simp: run_bind)

lemma moves_on_try:
  assumes "moves_on clock 0 m"
  shows "moves_on clock 0 (try_call m (\<lambda>e. pure x))"
  unfolding moves_on_def
proof
  fix w
  obtain r w1 where w1: "m w = (r, w1)" by force
  show "fst (try_call m (\<lambda>e. pure x) w) \<noteq> Inl OutOfFuel \<and> clock w + 0 \<le> clock (snd (try_call m (\<lambda>e. pure x) w))"
    using moves_onD [OF assms w1] by (cases r) (simp_all add: run_try w1)
qed

lemma fine_json_int [fuel_free]: "fine (json_int v)"
  by (cases v) (simp_all add: fine_def int_of_text_def split: option.split)

text \<open>A call that answers: it returns or raises, but it does not run out of fuel.\<close>

abbreviation answers :: "('e, 'a) io \<Rightarrow> bool" where
  "answers \<equiv> avoids {OutOfFuel}"

lemma answers_def: "answers m \<longleftrightarrow> (\<forall>w. fst (m w) \<noteq> Inl OutOfFuel)"
  by (auto simp: avoids_def)

lemma answers_lift: "fine r \<Longrightarrow> answers (lift_res r)"
  and answers_throw: "e \<noteq> OutOfFuel \<Longrightarrow> answers (throw e)"
  by (simp_all add: answers_def fine_def)

lemmas answers_bind = avoids_bind [of "{OutOfFuel}"]
lemmas answers_then = avoids_then [of "{OutOfFuel}"]
lemmas answers_pure = avoids_calls(1) [of "{OutOfFuel}"]
lemmas answers_look = avoids_calls(2) [of "{OutOfFuel}"]
lemmas answers_try = avoids_try [of "{OutOfFuel}"]
lemmas answers_map_each = avoids_map_each [of "{OutOfFuel}"]
lemmas answers_for_each = avoids_for_each [of "{OutOfFuel}"]

lemmas answers_intros = answers_bind answers_then answers_lift answers_pure answers_look answers_map_each answers_for_each

lemma wait_for_fleet_returns:
  assumes "\<And>q. moves_on (wall_clock c) 0 (graphql c q)" and "moves_on (wall_clock c) 3 (sleep c 3)"
  shows "fst (wait_for_fleet c own_id fleet_prefix expected w) \<noteq> Inl OutOfFuel"
proof -
  have polls: "SELF_POLLS = Suc 101" by (simp add: SELF_POLLS_def)
  show ?thesis
    unfolding wait_for_fleet_def run_look_bind polls
    by (rule poll_until_returns [of _ _ 3])
      (use assms(2) in \<open>auto intro!: moves_on_intros list_pods_moves_on assms(1)
          simp: run_bind split: prod.splits sum.splits if_splits\<close>)
qed

lemma resolve_returns:
  assumes "\<And>q. moves_on (wall_clock c) 0 (graphql c q)" and "moves_on (wall_clock c) 3 (sleep c 3)"
  shows "fst (resolve c own_id peer_ids 300 token extra w) \<noteq> Inl OutOfFuel"
proof -
  have polls: "SELF_POLLS = Suc 101" by (simp add: SELF_POLLS_def)
  show ?thesis
    unfolding resolve_def run_look_bind polls
  proof (rule poll_until_returns [of _ _ 3])
    fix w e w'
    assume "bind_call (addresses c (own_id # peer_ids))
        (\<lambda>addrs. pure (assemble_env own_id peer_ids addrs token extra)) w = (Inr (Inl e), w')"
    then show "e \<noteq> OutOfFuel"
      using assemble_env_not_ready
      by (fastforce simp: run_bind is_not_ready_def split: prod.splits sum.splits)
  qed (use assms(2) in \<open>auto intro!: moves_on_intros addresses_moves_on assms(1)\<close>)
qed


text \<open>A small account: its answers do not change, a sleep takes the time it is asked for.\<close>

definition example_pods :: json where
  "example_pods = JObj [(''data'', JObj [(''myself'', JObj [(''pods'', JArr
     [JObj [(''id'', JStr ''p1''), (''name'', JStr ''xet-cache-r-A'')],
      JObj [(''id'', JStr ''x''), (''name'', JStr ''other'')],
      JObj [(''id'', JStr ''p2''), (''name'', JStr ''xet-cache-r-B'')]])])])]"

definition example_ports :: "string \<Rightarrow> json" where
  "example_ports ip = JObj [(''data'', JObj [(''pod'', JObj [(''runtime'', JObj [(''ports'', JArr
     [JObj [(''ip'', JStr ip), (''isIpPublic'', JBool True), (''privatePort'', JInt 8000),
            (''publicPort'', JInt 31000), (''type'', JStr ''tcp'')]])])])])]"

definition example_answer :: "string \<Rightarrow> json" where
  "example_answer q =
    (if q = pod_ports_query ''p1'' then example_ports ''10.0.0.1''
     else if q = pod_ports_query ''p2'' then example_ports ''10.0.0.2'' else example_pods)"

definition example_cloud :: "rat cloud" where
  "example_cloud = \<lparr>graphql = (\<lambda>q. pure (example_answer q)),
     sdk_create_pod = (\<lambda>r. pure (JObj [(''id'', JStr (req_name r))])),
     sdk_terminate_pod = (\<lambda>p. pure ()), http_status = (\<lambda>u. pure 200),
     run_flash = (\<lambda>args env chk. pure ()), read_manifest = pure (JObj []),
     http_open = (\<lambda>r. pure (Answered 200 NoBody)),
     wall_clock = (\<lambda>t. t), sleep = (\<lambda>s. change (\<lambda>t. t + s))\<rparr>"

definition example_pod_env :: environment where
  "example_pod_env = [(''RUNPOD_POD_ID'', ''p2''), (''FLEET_PREFIX'', ''xet-cache-r-''),
     (''RUNPOD_API_KEY'', ''k''), (''FLEET_SIZE'', ''2''), (''SHIM_AUTH_TOKEN'', ''t''), (''PORT'', ''8000'')]"


section \<open>What a pod that starts knows of its fleet\<close>

lemma assemble_env_ok:
  assumes "assemble_env own_id peer_ids addrs token extra = Inr env"
  obtains addr where "list_all (\<lambda>i. addr i \<noteq> []) (own_id # peer_ids)"
    and "map_of env ''PUBLIC_BASE'' = Some (addr own_id)"
    and "map_of env ''PEERS'' = Some (join_commas (map addr peer_ids))"
proof -
  define addr where "addr = (\<lambda>i. case dict_get i None addrs of None \<Rightarrow> [] | Some a \<Rightarrow> a)"
  define tail where "tail = (if token = [] then [] else [(''SHIM_AUTH_TOKEN'', token)])"
  define own where "own = [(''PUBLIC_BASE'', addr own_id), (''SELF_URL'', addr own_id),
     (''PEERS'', join_commas (map addr peer_ids))] @ tail"
  have bad: "filter (\<lambda>i. addr i = []) (own_id # peer_ids) = []" and env: "env = dict_update extra own"
    using assms by (auto simp: assemble_env_def addr_def [symmetric] tail_def [symmetric] own_def
        Let_def split: list.splits)
  have "dict_wf own" by (simp add: own_def tail_def dict_wf_def)
  then have "map_of env = map_of extra ++ map_of own"
    unfolding env by (rule map_of_dict_update_wf)
  moreover have "map_of own ''PUBLIC_BASE'' = Some (addr own_id)"
      "map_of own ''PEERS'' = Some (join_commas (map addr peer_ids))"
    by (simp_all add: own_def)
  ultimately show thesis
    using bad that [of addr] by (simp add: map_add_def filter_empty_conv list_all_iff split: if_splits)
qed

lemma assemble_env_wf:
  "assemble_env own_id peer_ids addrs token extra = Inr env \<Longrightarrow> dict_wf extra \<Longrightarrow> dict_wf env"
  by (auto simp: assemble_env_def Let_def simp del: dict_update.simps split: list.splits if_splits)

lemma resolve_ok:
  assumes "resolve c own_id peer_ids t token extra w = (Inr env, w')"
  obtains addrs where "assemble_env own_id peer_ids addrs token extra = Inr env"
proof -
  obtain v where "bind_call (addresses c (own_id # peer_ids))
      (\<lambda>addrs. pure (assemble_env own_id peer_ids addrs token extra)) v = (Inr (Inr env), w')"
    using poll_until_success [OF assms [unfolded resolve_def run_look_bind]] by blast
  then show thesis using that by (auto elim!: bind_Inr)
qed

lemma wait_for_fleet_ok:
  assumes "wait_for_fleet c own_id fleet_prefix expected w = (Inr pods, w')"
  obtains v where "list_pods_by_prefix c fleet_prefix v = (Inr pods, w')"
    and "own_id \<in> set (map fst pods)" and "expected \<le> int (length pods)"
proof -
  obtain v where "bind_call (list_pods_by_prefix c fleet_prefix) (\<lambda>pods.
           pure (if own_id \<in> set (map fst pods) \<and> expected \<le> int (length pods) then Inr pods
                 else Inl (NotReady (''fleet prefix '' @ py_repr fleet_prefix @
                        '' never reached expected size'')))) v = (Inr (Inr pods), w')"
    using poll_until_success [OF assms [unfolded wait_for_fleet_def run_look_bind]] by blast
  then obtain ps where "list_pods_by_prefix c fleet_prefix v = (Inr ps, w')"
      "(if own_id \<in> set (map fst ps) \<and> expected \<le> int (length ps) then Inr ps
        else Inl (NotReady (''fleet prefix '' @ py_repr fleet_prefix @
               '' never reached expected size''))) = (Inr pods :: (string \<times> string) list res)"
    by (auto elim!: bind_Inr simp del: py_repr_def)
  then show thesis using that by (auto split: if_splits)
qed

text \<open>Only pods of the fleet are counted.\<close>

lemma list_pods_prefix:
  assumes "list_pods_by_prefix c fleet_prefix v = (Inr pods, w')"
  shows "list_all (\<lambda>p. starts_with fleet_prefix (snd p)) pods"
proof -
  have "list_all (\<lambda>p. starts_with fleet_prefix (snd p)) ps"
    if "map_res (\<lambda>(name, p). res_bind (g p) (\<lambda>i. Inr (i, name)))
      (filter (\<lambda>(name, p). starts_with fleet_prefix name) named) = Inr ps"
    for g :: "json \<Rightarrow> string res" and named ps
    using that by (induction named arbitrary: ps) (auto simp: res_bind_eq_Inr split: if_splits)
  then show ?thesis using assms
    by (auto simp: list_pods_by_prefix_def pods_of_answer_def res_bind_eq_Inr elim!: bind_Inr)
qed


lemma example_graphql [simp]: "graphql example_cloud q = pure (example_answer q)"
  by (simp add: example_cloud_def)

lemma example_clock [simp]: "wall_clock example_cloud t = t"
  by (simp add: example_cloud_def)

lemma example_answers:
  "example_answer (pod_ports_query ''p1'') = example_ports ''10.0.0.1''"
  "example_answer (pod_ports_query ''p2'') = example_ports ''10.0.0.2''"
  "example_answer ''query { myself { pods { id name } } }'' = example_pods"
  by (simp_all add: example_answer_def pod_ports_query_def quoted_def)

lemma example_fleet:
  "list_pods_by_prefix example_cloud ''xet-cache-r-'' 0 =
     (Inr [(''p1'', ''xet-cache-r-A''), (''p2'', ''xet-cache-r-B'')], 0)"
proof -
  have "pods_of_answer ''xet-cache-r-'' example_pods =
      Inr [(''p1'', ''xet-cache-r-A''), (''p2'', ''xet-cache-r-B'')]"
    by code_simp
  then show ?thesis by (simp add: list_pods_by_prefix_def run_bind example_answers)
qed

lemma example_get_ports:
  "get_pod_ports example_cloud ''p1'' t = (ports_of_answer (example_ports ''10.0.0.1''), t)"
  "get_pod_ports example_cloud ''p2'' t = (ports_of_answer (example_ports ''10.0.0.2''), t)"
  by (simp_all add: get_pod_ports_def run_bind example_answers)

definition example_port :: "string \<Rightarrow> json" where
  "example_port ip = JObj [(''ip'', JStr ip), (''isIpPublic'', JBool True), (''privatePort'', JInt 8000),
     (''publicPort'', JInt 31000), (''type'', JStr ''tcp'')]"

lemma example_ports_read:
  "ports_of_answer (example_ports ip) = Inr [example_port ip]"
  "parse_external_addr [example_port ip] = Inr (Some (''http://'' @ ip @ '':31000''))"
proof -
  show "ports_of_answer (example_ports ip) = Inr [example_port ip]"
    by (simp add: ports_of_answer_def example_ports_def example_port_def json_get_def json_obj_def dict_get_def
        or_else_def json_list_def)
  have "str_int 31000 = ''31000''" by (simp add: str_int_def str_nat.simps digit_char_values)
  then show "parse_external_addr [example_port ip] = Inr (Some (''http://'' @ ip @ '':31000''))"
    by (simp add: example_port_def public_http_def json_obj_def dict_get_def json_is_int_def json_item_def)
qed

lemma example_addresses:
  "addresses example_cloud [''p2'', ''p1''] 0 =
     (Inr [(''p2'', Some ''http://10.0.0.2:31000''), (''p1'', Some ''http://10.0.0.1:31000'')], 0)"
  by (simp add: addresses_def run_bind example_get_ports example_ports_read del: parse_external_addr.simps)

definition example_final_env :: environment where
  "example_final_env = dict_update example_pod_env [(''PORT'', ''8000''),
     (''PUBLIC_BASE'', ''http://10.0.0.2:31000''), (''SELF_URL'', ''http://10.0.0.2:31000''),
     (''PEERS'', ''http://10.0.0.1:31000''), (''SHIM_AUTH_TOKEN'', ''t'')]"

lemma selfconfig_example: "selfconfig_main example_cloud example_pod_env 0 = (Inr example_final_env, 0)"
proof -
  let ?pods = "[(''p1'', ''xet-cache-r-A''), (''p2'', ''xet-cache-r-B'')]"
  have fleet: "wait_for_fleet example_cloud ''p2'' ''xet-cache-r-'' 2 0 = (Inr ?pods, 0)"
    unfolding wait_for_fleet_def run_look_bind
    by (rule poll_until_first) (simp_all add: run_bind example_fleet SELF_POLLS_def)
  have peers: "discover_ids ?pods ''p2'' = [''p1'']"
    and token: "dict_get ''SHIM_AUTH_TOKEN'' [] example_pod_env = ''t''"
    and size: "expected_fleet_size example_pod_env = Inr 2"
    and extra: "map (\<lambda>k. (k, the (map_of example_pod_env k)))
        (filter (\<lambda>k. has_key k example_pod_env) EXTRA_KEYS) = [(''PORT'', ''8000'')]"
    and items: "dict_item ''RUNPOD_POD_ID'' example_pod_env = Inr ''p2''"
      "dict_item ''FLEET_PREFIX'' example_pod_env = Inr ''xet-cache-r-''"
      "dict_item ''RUNPOD_API_KEY'' example_pod_env = Inr ''k''"
    by code_simp+
  have env: "assemble_env ''p2'' [''p1''] [(''p2'', Some ''http://10.0.0.2:31000''),
        (''p1'', Some ''http://10.0.0.1:31000'')] ''t'' [(''PORT'', ''8000'')] = Inr [(''PORT'', ''8000''),
     (''PUBLIC_BASE'', ''http://10.0.0.2:31000''), (''SELF_URL'', ''http://10.0.0.2:31000''),
     (''PEERS'', ''http://10.0.0.1:31000''), (''SHIM_AUTH_TOKEN'', ''t'')]"
    by code_simp
  have res: "resolve example_cloud ''p2'' [''p1''] 300 ''t'' [(''PORT'', ''8000'')] 0 =
      (Inr [(''PORT'', ''8000''), (''PUBLIC_BASE'', ''http://10.0.0.2:31000''),
        (''SELF_URL'', ''http://10.0.0.2:31000''), (''PEERS'', ''http://10.0.0.1:31000''),
        (''SHIM_AUTH_TOKEN'', ''t'')], 0)"
    unfolding resolve_def run_look_bind
    by (rule poll_until_first) (simp_all add: run_bind example_addresses env SELF_POLLS_def)
  show ?thesis
    unfolding selfconfig_main_def extra
    by (simp add: run_bind items size fleet peers token res example_final_env_def del: dict_update.simps)
qed


end
