(* ===== verification/Api_Client.thy ===== *)
theory Api_Client
  imports Fleet
begin

text \<open>
  \<open>provision/volumes.py\<close> and \<open>provision/modelstore_api.py\<close>: the requests that the testbed sends to
  the Runpod API itself. \<open>urlopen\<close> with the reading of the answer is \<open>http_open\<close> of the record \<open>cloud\<close>;
  an exception that is no \<open>HTTPError\<close> is its \<open>Inl\<close>. A platform that stores what \<open>saveEndpoint\<close> is sent
  is the hypothesis \<open>upserts\<close>, under which declaring a model loses nothing of an endpoint.
\<close>

section \<open>Requests\<close>

text \<open>\<open>json.loads(body or default)\<close>.\<close>

fun loads_body :: "json \<Rightarrow> http_body \<Rightarrow> json res" where
  "loads_body fallback NoBody = Inr fallback"
| "loads_body fallback (JsonBody v) = Inr v"
| "loads_body fallback OtherBody = Inl (ValueError ''not a JSON document'')"

definition rest_request :: "'e cloud \<Rightarrow> string \<Rightarrow> string \<Rightarrow> string \<Rightarrow> ('e, int \<times> http_body) io" where
  "rest_request c verb url key =
    bind_call (http_open c \<lparr>hr_method = verb, hr_url = url, hr_key = key, hr_body = None\<rparr>) (\<lambda>answer.
      pure (case answer of
          Answered status body \<Rightarrow> (status, body)
        | Refused code reason (Inr body) \<Rightarrow> (code, body)
        | Refused code reason (Inl e) \<Rightarrow> (code, NoBody)))"

text \<open>The messages of an \<open>errors\<close> payload, joined; the text of an error without a message (its \<open>repr\<close>) is left
  out.\<close>

definition error_messages :: "json \<Rightarrow> string res" where
  "error_messages errors =
    res_bind (json_iter errors) (\<lambda>es.
    res_bind (map_res (json_get ''message'' (JStr [])) es) (\<lambda>ms.
    res_bind (map_res (\<lambda>m. case m of JStr s \<Rightarrow> Inr s | _ \<Rightarrow> Inl (TypeError ''expected str instance'')) ms) (\<lambda>texts.
      Inr (join_text ''; '' texts))))"

definition api_base :: "environment \<Rightarrow> string" where
  "api_base environ = dict_get ''RUNPOD_API_BASE_URL'' ''https://api.runpod.io'' environ"

definition graphql_request :: "environment \<Rightarrow> string \<Rightarrow> json \<Rightarrow> string \<Rightarrow> http_request" where
  "graphql_request environ query variables key =
    \<lparr>hr_method = ''POST'', hr_url = api_base environ @ ''/graphql'', hr_key = key,
     hr_body = Some (JObj [(''query'', JStr query), (''variables'', or_else variables (JObj []))])\<rparr>"

definition post_graphql :: "'e cloud \<Rightarrow> environment \<Rightarrow> string \<Rightarrow> json \<Rightarrow> string \<Rightarrow> ('e, json) io" where
  "post_graphql c environ query variables key =
    bind_call (http_open c (graphql_request environ query variables key)) (\<lambda>answer. case answer of
        Refused code reason body \<Rightarrow> throw (OtherError (''HTTP Error '' @ str_int code @ '': '' @ reason))
      | Answered status body \<Rightarrow> lift_res (
          res_bind (loads_body (JObj []) body) (\<lambda>payload.
          res_bind (json_get ''errors'' JNull payload) (\<lambda>errors.
            if truthy errors
            then res_bind (error_messages errors) (\<lambda>messages. Inl (RuntimeError (''GraphQL error: '' @ messages)))
            else Inr payload))))"

section \<open>Volumes\<close>

definition REST_BASE :: string where
  "REST_BASE = ''https://rest.runpod.io/v1''"

text \<open>The text of the body in the message of an error is left out.\<close>

definition rest_error :: "string \<Rightarrow> int \<Rightarrow> pyerr" where
  "rest_error what status = RuntimeError (what @ '' -> '' @ str_int status)"

definition list_network_volumes :: "'e cloud \<Rightarrow> string \<Rightarrow> ('e, json list) io" where
  "list_network_volumes c key =
    bind_call (rest_request c ''GET'' (REST_BASE @ ''/networkvolumes'') key) (\<lambda>(status, body).
      if status \<noteq> 200 then throw (rest_error ''GET /networkvolumes'' status)
      else lift_res (res_bind (loads_body (JArr []) body) (\<lambda>v. case v of
             JArr vs \<Rightarrow> Inr vs
           | _ \<Rightarrow> res_bind (json_get ''networkVolumes'' (JArr []) v) json_iter)))"

text \<open>The id (which may be missing) of the first volume of this name.\<close>

fun find_volume_id :: "string \<Rightarrow> json list \<Rightarrow> json res" where
  "find_volume_id name [] = Inr JNull"
| "find_volume_id name (v # vs) =
    res_bind (json_get ''name'' JNull v) (\<lambda>n.
      if n = JStr name then json_get ''id'' JNull v else find_volume_id name vs)"

definition delete_network_volume :: "'e cloud \<Rightarrow> environment \<Rightarrow> string \<Rightarrow> ('e, unit) io" where
  "delete_network_volume c environ volume_id =
    bind_call (lift_res (dict_item ''RUNPOD_API_KEY'' environ)) (\<lambda>key.
    bind_call (rest_request c ''DELETE'' (REST_BASE @ ''/networkvolumes/'' @ volume_id) key) (\<lambda>(status, body).
      if status \<in> {200, 204} \<or> status = 404 then pure ()
      else throw (rest_error (''DELETE /networkvolumes/'' @ volume_id) status)))"

section \<open>Model references\<close>

definition RESEND_FIELDS :: "string list" where
  "RESEND_FIELDS = [''id'', ''name'', ''templateId'', ''instanceIds'', ''gpuIds'', ''gpuCount'',
     ''workersMin'', ''workersMax'', ''idleTimeout'', ''locations'', ''networkVolumeId'',
     ''scalerType'', ''scalerValue'', ''flashBootType'', ''executionTimeoutMs'', ''type'',
     ''allowedCudaVersions'', ''minCudaVersion'', ''flashEnvironmentId'']"

fun find_endpoint :: "string \<Rightarrow> json list \<Rightarrow> (string, json) pydict res" where
  "find_endpoint eid [] = Inl (RuntimeError (''endpoint '' @ eid @ '' not found in myself.endpoints''))"
| "find_endpoint eid (ep # eps) =
    res_bind (json_obj ep) (\<lambda>d. if dict_get ''id'' JNull d = JStr eid then Inr d else find_endpoint eid eps)"

definition endpoints_of_answer :: "json \<Rightarrow> json list res" where
  "endpoints_of_answer answer =
    res_bind (json_get ''data'' JNull answer) (\<lambda>data.
    res_bind (json_get ''myself'' JNull (or_else data (JObj []))) (\<lambda>myself.
    res_bind (json_get ''endpoints'' JNull (or_else myself (JObj []))) (\<lambda>eps.
      json_iter (or_else eps (JArr [])))))"

definition ENDPOINTS_READ :: string where
  "ENDPOINTS_READ = ''query { myself { endpoints { '' @ join_text '' '' RESEND_FIELDS @ '' } } }''"

definition endpoint_config :: "'e cloud \<Rightarrow> environment \<Rightarrow> string \<Rightarrow> string \<Rightarrow> ('e, (string, json) pydict) io" where
  "endpoint_config c environ eid key =
    bind_call (post_graphql c environ ENDPOINTS_READ JNull key) (\<lambda>answer.
      lift_res (res_bind (endpoints_of_answer answer) (find_endpoint eid)))"

definition resend_input :: "(string, json) pydict \<Rightarrow> string list \<Rightarrow> (string, json) pydict" where
  "resend_input conf refs =
    AList.update ''modelReferences'' (JArr (map JStr refs))
      (filter (\<lambda>(k, v). k \<in> set RESEND_FIELDS \<and> v \<noteq> JNull) conf)"

definition SAVE_ENDPOINT :: string where
  "SAVE_ENDPOINT =
    ''mutation($input: EndpointInput!) { saveEndpoint(input: $input) { id modelReferences } }''"

definition set_model_references ::
  "'e cloud \<Rightarrow> environment \<Rightarrow> string \<Rightarrow> string list \<Rightarrow> string \<Rightarrow> ('e, json) io" where
  "set_model_references c environ eid refs key =
    bind_call (endpoint_config c environ eid key) (\<lambda>conf.
    bind_call (post_graphql c environ SAVE_ENDPOINT (JObj [(''input'', JObj (resend_input conf refs))]) key) (\<lambda>answer.
      lift_res (
        res_bind (json_get ''data'' JNull answer) (\<lambda>data.
        res_bind (json_get ''saveEndpoint'' JNull (or_else data (JObj []))) (\<lambda>saved.
        res_bind (json_get ''modelReferences'' JNull (or_else saved (JObj []))) (\<lambda>result.
          Inr (or_else result (JArr []))))))))"

lemma map_of_filter_pairs:
  "distinct (map fst d) \<Longrightarrow> map_of (filter (\<lambda>(k, v). P k v) d) k =
     (case map_of d k of Some v \<Rightarrow> if P k v then Some v else None | None \<Rightarrow> None)"
  by (induction d) (auto simp: map_of_eq_None_iff image_iff split: option.split)

lemma resend_input_get:
  "dict_wf conf \<Longrightarrow> k \<in> set RESEND_FIELDS \<Longrightarrow> dict_get k JNull (resend_input conf refs) = dict_get k JNull conf"
  by (auto simp: resend_input_def dict_get_def update_conv map_of_filter_pairs dict_wf_def RESEND_FIELDS_def
      split: option.split)

lemma resend_input_refs: "dict_get ''modelReferences'' JNull (resend_input conf refs) = JArr (map JStr refs)"
  by (simp add: resend_input_def dict_get_def update_conv)

lemma find_endpoint_of:
  "ep \<in> set eps \<Longrightarrow> dict_get ''id'' JNull ep = JStr eid \<Longrightarrow> distinct (map (dict_get ''id'' JNull) eps) \<Longrightarrow>
    find_endpoint eid (map JObj eps) = Inr ep"
  by (induction eps) (auto simp: json_obj_def image_iff)

lemma endpoints_read:
  "endpoints_of_answer (JObj [(''data'', JObj [(''myself'', JObj [(''endpoints'', JArr xs)])])]) = Inr xs"
  by (simp add: endpoints_of_answer_def json_get_def json_obj_def dict_get_def or_else_def)

section \<open>What the platform holds afterwards\<close>

text \<open>The account's endpoints. \<open>saveEndpoint\<close> replaces the endpoint with the id of its input, whose fields that are
  not sent are gone; the answers are those that the queries ask for.\<close>

definition upserted :: "(string, json) pydict \<Rightarrow> (string, json) pydict list \<Rightarrow> (string, json) pydict list" where
  "upserted input = map (\<lambda>ep. if dict_get ''id'' JNull ep = dict_get ''id'' JNull input then input else ep)"

definition upserts :: "'e cloud \<Rightarrow> environment \<Rightarrow> string \<Rightarrow> ('e \<Rightarrow> (string, json) pydict list) \<Rightarrow> bool" where
  "upserts c environ key account \<longleftrightarrow>
    (\<forall>w. http_open c (graphql_request environ ENDPOINTS_READ JNull key) w =
      (Inr (Answered 200 (JsonBody (JObj [(''data'', JObj [(''myself'', JObj [(''endpoints'',
         JArr (map JObj (account w)))])])]))), w)) \<and>
    (\<forall>input w. \<exists>w'. http_open c (graphql_request environ SAVE_ENDPOINT (JObj [(''input'', JObj input)]) key) w =
      (Inr (Answered 200 (JsonBody (JObj [(''data'', JObj [(''saveEndpoint'',
         JObj [(''id'', dict_get ''id'' JNull input),
               (''modelReferences'', dict_get ''modelReferences'' JNull input)])])]))), w') \<and>
      account w' = upserted input (account w))"

lemma post_graphql_data:
  assumes "http_open c (graphql_request environ q v key) w = (Inr (Answered s (JsonBody (JObj [(''data'', d)]))), w')"
  shows "post_graphql c environ q v key w = (Inr (JObj [(''data'', d)]), w')"
  using assms by (simp add: post_graphql_def run_bind lift_res_def json_get_def json_obj_def dict_get_def)

text \<open>C9: Declaring models on an endpoint of the account sets its model references, keeps each of the fields that the
  API takes as it was, and touches no other endpoint.\<close>

theorem set_model_references_lossless:
  assumes "upserts c environ key account" and "ep \<in> set (account w)" and "dict_get ''id'' JNull ep = JStr eid"
    and "distinct (map (dict_get ''id'' JNull) (account w))" and "dict_wf ep"
  shows "\<exists>w' ep'. set_model_references c environ eid refs key w = (Inr (JArr (map JStr refs)), w') \<and>
    account w' = map (\<lambda>e. if dict_get ''id'' JNull e = JStr eid then ep' else e) (account w) \<and>
    (\<forall>k \<in> set RESEND_FIELDS. dict_get k JNull ep' = dict_get k JNull ep) \<and>
    dict_get ''modelReferences'' JNull ep' = JArr (map JStr refs)"
proof -
  let ?input = "resend_input ep refs"
  have id_of: "dict_get ''id'' JNull ?input = JStr eid"
    using resend_input_get [OF assms(5), of "''id''"] assms(3) by (simp add: RESEND_FIELDS_def)
  have conf: "endpoint_config c environ eid key w = (Inr ep, w)"
    using assms(1) find_endpoint_of [OF assms(2,3,4)]
    by (simp add: endpoint_config_def run_bind lift_res_def upserts_def post_graphql_data endpoints_read)
  obtain w' where save: "post_graphql c environ SAVE_ENDPOINT (JObj [(''input'', JObj ?input)]) key w =
      (Inr (JObj [(''data'', JObj [(''saveEndpoint'', JObj [(''id'', JStr eid),
         (''modelReferences'', JArr (map JStr refs))])])]), w')"
    and account: "account w' = upserted ?input (account w)"
    using assms(1) post_graphql_data unfolding upserts_def by (metis id_of resend_input_refs)
  have "set_model_references c environ eid refs key w = (Inr (JArr (map JStr refs)), w')"
    by (simp add: set_model_references_def run_bind conf save lift_res_def json_get_def json_obj_def dict_get_def
        or_else_def)
  moreover have "account w' = map (\<lambda>e. if dict_get ''id'' JNull e = JStr eid then ?input else e) (account w)"
    using account by (simp add: upserted_def id_of)
  ultimately show ?thesis
    using resend_input_get [OF assms(5)] resend_input_refs by blast
qed

text \<open>A platform with one endpoint, whose world is its account.\<close>

definition demo_endpoint :: "(string, json) pydict" where
  "demo_endpoint = [(''id'', JStr ''e1''), (''name'', JStr ''xet-dl-m0''), (''gpuIds'', JNull), (''workersMax'', JInt 3)]"

definition demo_platform :: "(string, json) pydict list cloud" where
  "demo_platform = \<lparr>graphql = (\<lambda>q. pure JNull), sdk_create_pod = (\<lambda>r. pure JNull), sdk_terminate_pod = (\<lambda>p. pure ()),
     http_status = (\<lambda>u. pure 200), run_flash = (\<lambda>args env chk. pure ()), read_manifest = pure JNull,
     http_open = (\<lambda>r w. case hr_body r of
       Some (JObj [(q, JStr query), (v, JObj [(i, JObj input)])]) \<Rightarrow>
         (Inr (Answered 200 (JsonBody (JObj [(''data'', JObj [(''saveEndpoint'',
            JObj [(''id'', dict_get ''id'' JNull input),
                  (''modelReferences'', dict_get ''modelReferences'' JNull input)])])]))), upserted input w)
     | _ \<Rightarrow> (Inr (Answered 200 (JsonBody (JObj [(''data'', JObj [(''myself'', JObj [(''endpoints'',
            JArr (map JObj w))])])]))), w)),
     wall_clock = (\<lambda>w. 0), sleep = (\<lambda>s. pure ())\<rparr>"

lemma demo_platform_upserts: "upserts demo_platform environ key (\<lambda>w. w)"
  by (simp add: upserts_def demo_platform_def graphql_request_def or_else_def)

theorem set_model_references_lossless_witness:
  "\<exists>w' ep'. set_model_references demo_platform [] ''e1'' [''org/model''] ''k'' [demo_endpoint] =
      (Inr (JArr [JStr ''org/model'']), w') \<and> w' = [ep'] \<and> dict_get ''workersMax'' JNull ep' = JInt 3"
proof -
  have ep: "dict_get ''id'' JNull demo_endpoint = JStr ''e1''" "dict_get ''workersMax'' JNull demo_endpoint = JInt 3"
    "dict_wf demo_endpoint"
    by (simp_all add: demo_endpoint_def dict_get_def dict_wf_def)
  then show ?thesis
    using set_model_references_lossless [OF demo_platform_upserts, where ep = demo_endpoint and w = "[demo_endpoint]" and eid = "''e1''"
      and environ = "[]" and key = "''k''" and refs = "[''org/model'']"]
    by (auto simp: RESEND_FIELDS_def)
qed

end
