(* ===== verification/Provision.thy ===== *)
theory Provision
  imports Api_Client
begin

text \<open>
  \<open>provision/flash.py\<close>, \<open>provision/up.py\<close> and \<open>provision/down.py\<close>: deploying and undeploying
  endpoints, and the teardown of a run. A \<open>host\<close> is the
  controller's disk (the state files by path, \<open>data/last-runid\<close>, the lines printed) with the
  outside world.
\<close>

section \<open>The controller\<close>

record 'e host =
  state_files :: "(string, provision_state) pydict"
  last_runid :: "string option"
  printed :: "string list"
  world :: 'e

definition outside :: "('e, 'a) io \<Rightarrow> ('e host, 'a) io" where
  "outside m = (\<lambda>h. case m (world h) of (r, e) \<Rightarrow> (r, h\<lparr>world := e\<rparr>))"

definition save_state :: "string \<Rightarrow> provision_state \<Rightarrow> ('e host, unit) io" where
  "save_state path st = change (\<lambda>h. h\<lparr>state_files := AList.update path st (state_files h)\<rparr>)"

definition print_line :: "string \<Rightarrow> ('e host, unit) io" where
  "print_line s = change (\<lambda>h. h\<lparr>printed := printed h @ [s]\<rparr>)"

definition write_last_runid :: "string \<Rightarrow> ('e host, unit) io" where
  "write_last_runid runid = change (\<lambda>h. h\<lparr>last_runid := Some runid\<rparr>)"

lemma run_outside: "outside m h = (fst (m (world h)), h\<lparr>world := snd (m (world h))\<rparr>)"
  by (simp add: outside_def split: prod.split)

section \<open>Deploying\<close>

definition volume_name :: "string \<Rightarrow> string" where
  "volume_name runid = ''xet-vc-'' @ runid"

definition base_env :: "worker_spec \<Rightarrow> config \<Rightarrow> string \<Rightarrow> string \<Rightarrow> environment" where
  "base_env spec cfg hf_token runid =
    [(''MECHANISM'', cfg_mechanism cfg), (''MODELS'', join_commas (cfg_models cfg)),
     (''HF_TOKEN'', hf_token), (''WORKER_CPU'', cfg_worker_cpu cfg), (''WORKER_GPU'', cfg_worker_gpu cfg),
     (''WORKER_DEPS'', join_commas (if ws_deps spec = [] then cfg_worker_deps cfg else ws_deps spec)),
     (''WORKER_MAX'', str_int (cfg_burst cfg)), (''FLASH_ENV'', ''xet-'' @ runid)]"

definition deploy_env :: "worker_spec \<Rightarrow> config \<Rightarrow> string \<Rightarrow> string \<Rightarrow> environment" where
  "deploy_env spec cfg hf_token runid =
    (let env = dict_update (base_env spec cfg hf_token runid) (ws_env spec)
     in case ws_network_volume_gb spec of
          None \<Rightarrow> env
        | Some gb \<Rightarrow> AList.update ''VOLUME_GB'' (str_int gb)
                       (AList.update ''VOLUME_NAME'' (volume_name runid) env))"

lemma base_env_wf [simp]: "dict_wf (base_env spec cfg hf_token runid)"
  by (simp add: base_env_def dict_wf_def)

lemma deploy_env_wf: "dict_wf (deploy_env spec cfg token runid)"
  by (simp add: deploy_env_def Let_def split: option.split)

text \<open>\<open>flash deploy\<close> runs in the worker directory with the controller's environment and \<open>env\<close>.\<close>

definition flash_deploy :: "'e cloud \<Rightarrow> environment \<Rightarrow> environment \<Rightarrow> ('e, unit) io" where
  "flash_deploy c environ env =
    bind_call (lift_res (dict_item ''FLASH_ENV'' env)) (\<lambda>name.
      run_flash c [''flash'', ''deploy'', ''--env'', name] (dict_update environ env) True)"

definition manifest_endpoint_ids :: "'e cloud \<Rightarrow> ('e, (string, string) pydict) io" where
  "manifest_endpoint_ids c = bind_call (read_manifest c) (\<lambda>m. lift_res (endpoint_ids m))"

definition flash_deploy_env :: "(string, string) pydict \<Rightarrow> config \<Rightarrow> string \<Rightarrow> environment" where
  "flash_deploy_env addrs cfg hf_token =
    dict_update (dict_update [] (map (\<lambda>(g, a). (''POD_ADDR_'' @ g, a)) addrs))
      [(''HF_TOKEN'', hf_token), (''WORKER_CPU'', cfg_worker_cpu cfg), (''WORKER_GPU'', cfg_worker_gpu cfg),
       (''WORKER_DEPS'', join_commas (cfg_worker_deps cfg)), (''WORKER_MAX'', str_int (cfg_burst cfg))]"

section \<open>Teardown\<close>

definition SHIM_ENDPOINTS :: "string list" where
  "SHIM_ENDPOINTS = [''xet-dl-A'', ''xet-dl-B'', ''xet-dl-C'']"

definition cli_undeploy :: "'e cloud \<Rightarrow> string \<Rightarrow> string list \<Rightarrow> ('e, unit) io" where
  "cli_undeploy c env_name names =
    for_each (\<lambda>name. run_flash c [''flash'', ''undeploy'', name, ''--force''] [] False) names"

text \<open>The older state of a shim run, and its teardown, which collects what failed.\<close>

record legacy_state =
  legacy_runid :: string
  legacy_pods :: "string list"
  legacy_flash_env :: string

definition attempt :: "('e, unit) io \<Rightarrow> (pyerr \<Rightarrow> string) \<Rightarrow> ('e, string list) io" where
  "attempt m describe = try_call (bind_call m (\<lambda>_. pure [])) (\<lambda>e. pure [describe e])"

definition shim_teardown_legacy ::
  "'e cloud \<Rightarrow> (string \<Rightarrow> ('e, unit) io) \<Rightarrow> legacy_state \<Rightarrow> ('e, string list) io" where
  "shim_teardown_legacy c undeploy st =
    bind_call (attempt (undeploy (legacy_flash_env st)) (\<lambda>e. legacy_flash_env st)) (\<lambda>first.
    bind_call (map_each (\<lambda>pid. attempt (terminate_pod c pid) (\<lambda>e. pid)) (legacy_pods st)) (\<lambda>pods.
      pure (first @ concat pods)))"

text \<open>\<open>teardown\<close> is the mechanism's own part, \<open>name\<close> its name.\<close>

definition teardown_all ::
  "'e cloud \<Rightarrow> environment \<Rightarrow> string \<Rightarrow> (provision_state \<Rightarrow> ('e host, unit) io) \<Rightarrow>
   provision_state \<Rightarrow> ('e host, string list) io" where
  "teardown_all c environ name teardown st =
    bind_call (attempt (teardown st) (\<lambda>e. name @ '' teardown: '' @ err_text e)) (\<lambda>own.
    bind_call (attempt (outside (cli_undeploy c (''xet-'' @ st_runid st) [endpoint_name BASELINE_LABEL]))
        (\<lambda>e. ''baseline undeploy: '' @ err_text e)) (\<lambda>base.
    bind_call (map_each (\<lambda>(label, vid). attempt (outside (delete_network_volume c environ vid))
        (\<lambda>e. ''volume '' @ label @ ''='' @ vid @ '': '' @ err_text e)) (st_volumes st)) (\<lambda>vols.
      pure (own @ base @ concat vols))))"

end
