(* ===== verification/Mechanisms.thy ===== *)
theory Mechanisms
  imports Provision
begin

text \<open>
  \<open>mechanisms/shim.py\<close>, \<open>mechanisms/volumecache.py\<close>, \<open>mechanisms/modelstore.py\<close>, the registry
  \<open>mechanisms/__init__.py\<close> and \<open>provision/up.py\<close>'s \<open>main\<close>: the jobs of each mechanism, what it
  provisions, in which order and what it has saved at each point, and what it tears down. The
  reports are in another theory.
\<close>

section \<open>Jobs and specifications\<close>

definition shim_spec :: "config \<Rightarrow> worker_spec" where
  "shim_spec cfg = \<lparr>ws_handler = ''shim'', ws_env = [], ws_deps = [], ws_network_volume_gb = None\<rparr>"

definition volumecache_spec :: "config \<Rightarrow> worker_spec" where
  "volumecache_spec cfg = \<lparr>ws_handler = ''volumecache'', ws_env = [], ws_deps = [],
     ws_network_volume_gb = Some (cfg_volume_gb cfg)\<rparr>"

definition modelstore_spec :: "config \<Rightarrow> worker_spec" where
  "modelstore_spec cfg =
     \<lparr>ws_handler = ''modelstore'', ws_env = [], ws_deps = [], ws_network_volume_gb = None\<rparr>"

definition shim_jobs :: "config \<Rightarrow> job list" where
  "shim_jobs cfg =
    map (\<lambda>j. j\<lparr>job_mechanism := Some ''shim'', job_endpoint := job_group j\<rparr>)
      (expand_jobs (cfg_overlap cfg) (cfg_burst cfg))"

definition VOLUME_LABEL :: string where
  "VOLUME_LABEL = ''volumecache''"

definition volumecache_jobs :: "config \<Rightarrow> job list" where
  "volumecache_jobs cfg =
    concat (map (\<lambda>m. mechanism_job ''volumecache'' VOLUME_LABEL m ''populate'' 0 #
        map (\<lambda>r. mechanism_job ''volumecache'' VOLUME_LABEL m ''warm'' r) (burst_range (cfg_burst cfg)))
      (cfg_models cfg))"

definition REUSED_PREFIX :: string where
  "REUSED_PREFIX = ''reused-''"

definition model_label :: "nat \<Rightarrow> string" where
  "model_label i = ''m'' @ str_nat i"

definition modelstore_jobs :: "config \<Rightarrow> job list" where
  "modelstore_jobs cfg =
    (let pre = (if cfg_modelstore_endpoints cfg \<noteq> [] then REUSED_PREFIX else [])
     in concat (map (\<lambda>(i, m). map (\<lambda>r. mechanism_job ''modelstore'' (pre @ model_label i) m ''warm'' r)
            (burst_range (cfg_burst cfg))) (enumerate 0 (cfg_models cfg))))"

section \<open>The shim\<close>

definition POD_WAIT_S :: rat where
  "POD_WAIT_S = 300"

definition POLL_S :: rat where
  "POLL_S = 3"

text \<open>300 seconds in steps of 3 (\<open>poll_while_returns\<close>).\<close>

definition POD_POLLS :: nat where
  "POD_POLLS = 102"

definition wait_addr :: "'e cloud \<Rightarrow> string \<Rightarrow> rat \<Rightarrow> ('e, string) io" where
  "wait_addr c pid timeout_s =
    bind_call (look (wall_clock c)) (\<lambda>t0.
      poll_while POD_POLLS (wall_clock c) (t0 + timeout_s)
        (bind_call (get_pod_ports c pid) (\<lambda>ports. lift_res (parse_external_addr ports)))
        (sleep c POLL_S)
        (TimeoutError (''pod '' @ pid @ '' never exposed a public tcp addr (usual cause: the image '' @
           ''failed to pull or the shim never started '' @ em_dash @ '' check the pod'' @ [CHR 0x27] @ ''s status/logs '' @
           ''in the Runpod console and confirm cache_image is pushed and reachable)'')))"

definition wait_healthz :: "'e cloud \<Rightarrow> string \<Rightarrow> rat \<Rightarrow> ('e, unit) io" where
  "wait_healthz c addr timeout_s =
    bind_call (look (wall_clock c)) (\<lambda>t0.
      poll_while POD_POLLS (wall_clock c) (t0 + timeout_s)
        (try_call (bind_call (http_status c (addr @ ''/healthz''))
                     (\<lambda>status. pure (if status = 200 then Some () else None)))
           (\<lambda>e. pure None))
        (sleep c POLL_S)
        (TimeoutError (addr @ ''/healthz never green'')))"

definition pod_env :: "string \<Rightarrow> nat \<Rightarrow> environment \<Rightarrow> environment res" where
  "pod_env runid fleet_size environ =
    res_bind (dict_item ''RUNPOD_API_KEY'' environ) (\<lambda>key.
      Inr [(''XORB_CACHE_MAX_GIB'', ''0''),
           (''SHIM_AUTH_TOKEN'', dict_get ''SHIM_AUTH_TOKEN'' [] environ),
           (''RUNPOD_API_KEY'', key), (''FLEET_PREFIX'', ''xet-cache-'' @ runid @ ''-''),
           (''FLEET_SIZE'', str_nat fleet_size),
           (''STREAM_CACHE_HITS'', dict_get ''STREAM_CACHE_HITS'' [] environ)])"

definition pod_name :: "string \<Rightarrow> string \<Rightarrow> string" where
  "pod_name runid g = ''xet-cache-'' @ runid @ ''-'' @ g"

definition create_pod_of ::
  "'e cloud \<Rightarrow> config \<Rightarrow> string \<Rightarrow> environment \<Rightarrow> string \<Rightarrow> ('e, string) io" where
  "create_pod_of c cfg runid penv g =
    create_cache_pod c \<lparr>req_name = pod_name runid g, req_image = cfg_cache_image cfg,
      req_instance_id = cfg_pod_instance_id cfg, req_disk_gb = cfg_container_disk_gb cfg,
      req_dc = cfg_dc cfg, req_env = penv\<rparr>"

fun create_pods ::
  "(string \<Rightarrow> ('e, string) io) \<Rightarrow> string \<Rightarrow> string list \<Rightarrow> provision_state \<Rightarrow>
   ('e host, provision_state) io" where
  "create_pods create runid [] st = pure st"
| "create_pods create runid (g # gs) st =
    bind_call (outside (create g)) (\<lambda>pid.
      let st' = st\<lparr>st_pods := AList.update g pid (st_pods st)\<rparr>
      in then_call (save_state (state_path runid) st') (create_pods create runid gs st'))"

fun wait_pods ::
  "'e cloud \<Rightarrow> (string \<times> string) list \<Rightarrow> provision_state \<Rightarrow> ('e host, provision_state) io" where
  "wait_pods c [] st = pure st"
| "wait_pods c ((g, pid) # ps) st =
    bind_call (outside (wait_addr c pid POD_WAIT_S)) (\<lambda>addr.
    then_call (outside (wait_healthz c addr POD_WAIT_S))
      (wait_pods c ps (st\<lparr>st_metrics_urls := AList.update g addr (st_metrics_urls st)\<rparr>)))"

text \<open>What follows the pods: deploy, record the endpoints, name the run.\<close>

definition finish_provision :: "string \<Rightarrow> provision_state \<Rightarrow> ('e host, provision_state) io" where
  "finish_provision runid st =
    then_call (save_state (state_path runid) st)
      (then_call (write_last_runid runid) (pure st))"

definition shim_provision ::
  "'e cloud \<Rightarrow> environment \<Rightarrow> config \<Rightarrow> string \<Rightarrow> ('e host, provision_state) io" where
  "shim_provision c environ cfg runid =
    bind_call (lift_res (dict_item ''RUNPOD_API_KEY'' environ)) (\<lambda>key.
      let groups = dict_keys (cfg_overlap cfg)
      in if cfg_max_pods cfg < int (length groups)
         then throw (ValueError ''overlap groups exceed max_pods'')
         else
           bind_call (lift_res (pod_env runid (length groups) environ)) (\<lambda>penv.
           bind_call (create_pods (create_pod_of c cfg runid penv) runid groups (new_state ''shim'' runid))
             (\<lambda>st1.
           bind_call (wait_pods c (st_pods st1) st1) (\<lambda>st2.
           bind_call (lift_res (dict_item ''HF_TOKEN'' environ)) (\<lambda>token.
           then_call (outside (flash_deploy c environ
               (deploy_env ((shim_spec cfg)\<lparr>ws_env := flash_deploy_env (st_metrics_urls st2) cfg token\<rparr>)
                  cfg token runid)))
             (bind_call (outside (manifest_endpoint_ids c)) (\<lambda>eps.
               finish_provision runid (st2\<lparr>st_endpoints := eps\<rparr>))))))))"

definition shim_teardown ::
  "'e cloud \<Rightarrow> environment \<Rightarrow> provision_state \<Rightarrow> ('e host, unit) io" where
  "shim_teardown c environ st =
    then_call (lift_res (dict_item ''RUNPOD_API_KEY'' environ))
   (bind_call (outside (shim_teardown_legacy c (\<lambda>env. cli_undeploy c env SHIM_ENDPOINTS)
        \<lparr>legacy_runid = st_runid st, legacy_pods = map snd (st_pods st),
         legacy_flash_env = ''xet-'' @ st_runid st\<rparr>)) (\<lambda>errored.
      print_line (''shim teardown done; errored (tolerated): '' @ repr_list errored)))"

section \<open>The volume cache\<close>

definition volumecache_provision ::
  "'e cloud \<Rightarrow> environment \<Rightarrow> config \<Rightarrow> string \<Rightarrow> ('e host, provision_state) io" where
  "volumecache_provision c environ cfg runid =
    (let st = new_state ''volumecache'' runid
     in then_call (save_state (state_path runid) st)
       (bind_call (lift_res (dict_item ''HF_TOKEN'' environ)) (\<lambda>token.
        then_call (outside (flash_deploy c environ (deploy_env (volumecache_spec cfg) cfg token runid)))
       (bind_call (outside (manifest_endpoint_ids c)) (\<lambda>eps.
        bind_call (lift_res (dict_item ''RUNPOD_API_KEY'' environ)) (\<lambda>key.
        bind_call (outside (list_network_volumes c key)) (\<lambda>volumes.
        bind_call (lift_res (find_volume_id (volume_name runid) volumes)) (\<lambda>vid.
          if truthy vid
          then bind_call (lift_res (json_text vid)) (\<lambda>v.
            finish_provision runid (st\<lparr>st_endpoints := eps,
              st_volumes := AList.update VOLUME_LABEL v (st_volumes st)\<rparr>))
          else then_call (print_line (''warning: network volume '' @ py_repr (volume_name runid) @
                 '' not found after deploy '' @ em_dash @
                 '' teardown cannot remove it; check Storage in the Runpod console''))
            (finish_provision runid (st\<lparr>st_endpoints := eps\<rparr>))))))))))"

definition volumecache_teardown :: "'e cloud \<Rightarrow> provision_state \<Rightarrow> ('e host, unit) io" where
  "volumecache_teardown c st =
    outside (cli_undeploy c (''xet-'' @ st_runid st) [endpoint_name VOLUME_LABEL])"

section \<open>The model store\<close>

definition normalize_model_ref :: "string \<Rightarrow> string" where
  "normalize_model_ref model =
    (let repo = before_char CHR ''@'' model; revision = after_char CHR ''@'' model
     in lower_text (if revision = [] then repo else repo @ '':'' @ revision))"

definition manual_step_lines :: "config \<Rightarrow> provision_state \<Rightarrow> string list" where
  "manual_step_lines cfg st =
    [''MANUAL STEP (Model Store is console-only per the Phase 0 spike):'',
     ''  In the Runpod console, Serverless -> edit each endpoint below -> declare its cached model,'',
     ''  then wait until the worker shows the files under '' @ MODELSTORE_ROOT @
       ''/models--<org>--<name>/snapshots/<hash>/.'',
     ''  Then run: make -C runpod_testbed drive RUNID='' @ st_runid st] @
    concat (map (\<lambda>(i, model). case map_of (st_endpoints st) (model_label i) of
         None \<Rightarrow> []
       | Some eid \<Rightarrow> [''    - '' @ endpoint_name (model_label i) @ '' ('' @ eid @ ''): cache '' @ model])
      (enumerate 0 (cfg_models cfg)))"

definition endpoint_id_list :: "json \<Rightarrow> json list res" where
  "endpoint_id_list answer =
    res_bind (json_item ''data'' answer) (\<lambda>data.
    res_bind (json_item ''myself'' data) (\<lambda>myself.
    res_bind (json_item ''endpoints'' myself) (\<lambda>eps.
    res_bind (json_list eps) (map_res (json_item ''id'')))))"

definition validate_reused :: "'e cloud \<Rightarrow> config \<Rightarrow> ('e, (string, string) pydict) io" where
  "validate_reused c cfg =
    (let eps = cfg_modelstore_endpoints cfg;
         missing = filter (\<lambda>m. \<not> has_key m eps) (cfg_models cfg)
     in if missing \<noteq> []
        then throw (ValueError (''[modelstore.endpoints] must map every model; missing '' @ repr_list missing))
        else bind_call (graphql c ''query { myself { endpoints { id name } } }'') (\<lambda>answer.
          bind_call (lift_res (endpoint_id_list answer)) (\<lambda>live.
            let unknown = sort (filter (\<lambda>e. JStr e \<notin> set live) (map snd eps))
            in if unknown \<noteq> []
               then throw (ValueError (''[modelstore.endpoints] ids not found on the account: '' @
                      repr_list unknown))
               else pure (dict_update [] (map (\<lambda>(i, m). (REUSED_PREFIX @ model_label i, the (map_of eps m)))
                      (enumerate 0 (cfg_models cfg)))))))"

text \<open>One model: its reference on its endpoint; \<open>Some\<close> is a failure (label, reference, error).\<close>

definition declare_one ::
  "'e cloud \<Rightarrow> environment \<Rightarrow> string \<Rightarrow> provision_state \<Rightarrow> nat \<times> string \<Rightarrow>
   ('e host, (string \<times> string \<times> pyerr) list) io" where
  "declare_one c environ key st im =
    (let label = model_label (fst im); ref = normalize_model_ref (snd im)
     in case map_of (st_endpoints st) label of
          None \<Rightarrow> pure []
        | Some eid \<Rightarrow>
            try_call (then_call (outside (set_model_references c environ eid [ref] key))
              (then_call (print_line (''declared '' @ ref @ '' on '' @ endpoint_name label @ '' ('' @ eid @ '')''))
                 (pure [])))
              (\<lambda>e. pure [(label, ref, e)]))"

definition declare_cached_models ::
  "'e cloud \<Rightarrow> environment \<Rightarrow> config \<Rightarrow> provision_state \<Rightarrow> ('e host, unit) io" where
  "declare_cached_models c environ cfg st =
    bind_call (lift_res (dict_item ''RUNPOD_API_KEY'' environ)) (\<lambda>key.
    bind_call (map_each (declare_one c environ key st) (enumerate 0 (cfg_models cfg))) (\<lambda>fs.
      let failures = concat fs
      in if failures = [] then pure ()
         else then_call (for_each (\<lambda>(label, ref, e). print_line (''WARNING: failed to declare '' @ ref @
                '' on '' @ endpoint_name label @ '': '' @ err_text e)) failures)
           (print_line (join_text [CHR 0x0A] (manual_step_lines cfg st)))))"

text \<open>Endpoints of an earlier run are validated before anything is spent, and then only the
  baseline is deployed (an empty list of models).\<close>

definition reuse_endpoints ::
  "'e cloud \<Rightarrow> environment \<Rightarrow> config \<Rightarrow> ('e host, (string, string) pydict) io" where
  "reuse_endpoints c environ cfg =
    (if cfg_modelstore_endpoints cfg \<noteq> []
     then then_call (lift_res (dict_item ''RUNPOD_API_KEY'' environ)) (outside (validate_reused c cfg))
     else pure [])"

definition modelstore_env :: "config \<Rightarrow> string \<Rightarrow> string \<Rightarrow> environment" where
  "modelstore_env cfg token runid =
    (let env = deploy_env (modelstore_spec cfg) cfg token runid
     in if cfg_modelstore_endpoints cfg \<noteq> [] then AList.update ''MODELS'' [] env else env)"

definition modelstore_provision ::
  "'e cloud \<Rightarrow> environment \<Rightarrow> config \<Rightarrow> string \<Rightarrow> ('e host, provision_state) io" where
  "modelstore_provision c environ cfg runid =
    (let st = new_state ''modelstore'' runid
     in bind_call (lift_res (dict_item ''HF_TOKEN'' environ)) (\<lambda>token.
        bind_call (reuse_endpoints c environ cfg) (\<lambda>reused.
           then_call (save_state (state_path runid) st)
          (then_call (outside (flash_deploy c environ (modelstore_env cfg token runid)))
          (bind_call (outside (manifest_endpoint_ids c)) (\<lambda>eps.
           bind_call (finish_provision runid (st\<lparr>st_endpoints := dict_update eps reused\<rparr>)) (\<lambda>st'.
             if reused = [] then then_call (declare_cached_models c environ cfg st') (pure st')
             else pure st')))))))"

definition modelstore_owned :: "provision_state \<Rightarrow> string list" where
  "modelstore_owned st =
    map endpoint_name (filter (\<lambda>label. label \<noteq> BASELINE_LABEL \<and> \<not> starts_with REUSED_PREFIX label)
      (dict_keys (st_endpoints st)))"

definition modelstore_teardown :: "'e cloud \<Rightarrow> provision_state \<Rightarrow> ('e host, unit) io" where
  "modelstore_teardown c st =
    (if modelstore_owned st \<noteq> []
     then outside (cli_undeploy c (''xet-'' @ st_runid st) (modelstore_owned st)) else pure ())"

section \<open>The registry, and a run from start to end\<close>

text \<open>The operations of the \<open>Mechanism\<close> protocol that provisioning and driving use.\<close>

record 'e mechanism =
  mech_name :: string
  mech_jobs :: "config \<Rightarrow> job list"
  mech_has_metrics :: bool
  mech_provision :: "config \<Rightarrow> string \<Rightarrow> ('e host, provision_state) io"
  mech_teardown :: "provision_state \<Rightarrow> ('e host, unit) io"

definition mechanisms :: "'e cloud \<Rightarrow> environment \<Rightarrow> (string, 'e mechanism) pydict" where
  "mechanisms c environ =
    [(''shim'', \<lparr>mech_name = ''shim'', mech_jobs = shim_jobs, mech_has_metrics = True,
        mech_provision = shim_provision c environ, mech_teardown = shim_teardown c environ\<rparr>),
     (''volumecache'', \<lparr>mech_name = ''volumecache'', mech_jobs = volumecache_jobs,
        mech_has_metrics = False, mech_provision = volumecache_provision c environ,
        mech_teardown = volumecache_teardown c\<rparr>),
     (''modelstore'', \<lparr>mech_name = ''modelstore'', mech_jobs = modelstore_jobs,
        mech_has_metrics = False, mech_provision = modelstore_provision c environ,
        mech_teardown = modelstore_teardown c\<rparr>)]"

definition get_mechanism :: "'e cloud \<Rightarrow> environment \<Rightarrow> string \<Rightarrow> 'e mechanism res" where
  "get_mechanism c environ name =
    (case map_of (mechanisms c environ) name of
       None \<Rightarrow> Inl (ValueError (''unknown mechanism '' @ py_repr name @ ''; known: '' @
                 repr_list (sort (dict_keys (mechanisms c environ)))))
     | Some m \<Rightarrow> Inr m)"

text \<open>\<open>up.main\<close> after the configuration is loaded and the run is named.\<close>

definition up_main ::
  "'e cloud \<Rightarrow> environment \<Rightarrow> 'e mechanism \<Rightarrow> config \<Rightarrow> string \<Rightarrow> ('e host, provision_state) io" where
  "up_main c environ mech cfg runid =
    try_call (mech_provision mech cfg runid) (\<lambda>e.
      then_call (print_line ''provision failed; tearing down'')
     (bind_call (look (\<lambda>h. map_of (state_files h) (state_path runid))) (\<lambda>saved. case saved of
          None \<Rightarrow> throw e
        | Some st \<Rightarrow>
            bind_call (teardown_all c environ (mech_name mech) (mech_teardown mech) st) (\<lambda>errored.
            then_call (print_line (repr_list errored)) (throw e)))))"

section \<open>What a deployment records\<close>

text \<open>
  The manifest that \<open>flash deploy\<close> writes for the module's endpoints: each by its name, with the
  id \<open>eid\<close> that the platform gave it.
\<close>

definition flash_manifest :: "(string \<Rightarrow> string) \<Rightarrow> (string, flash_endpoint) pydict \<Rightarrow> json" where
  "flash_manifest eid app = JObj [(''resources'', JObj (map (\<lambda>(b, e).
     (flash_name e, JObj [(''endpoint_id'', JStr (eid (flash_name e)))])) app))]"

lemma endpoint_name_plan: "endpoint_name label = PLAN_PREFIX @ ''-'' @ label"
  by (simp add: endpoint_name_def ENDPOINT_PREFIX_def PLAN_PREFIX_def)

lemma endpoint_ids_fold:
  assumes "distinct (map fst out @ labels)" and "list_all (\<lambda>l. CHR ''-'' \<notin> set l) labels"
  shows "fold_res (\<lambda>(res_name, res) out. res_bind (json_obj res) (\<lambda>r.
      res_bind (res_bind (dict_item ''endpoint_id'' r) json_text) (\<lambda>i.
        Inr (AList.update (after_last CHR ''-'' res_name) i out))))
    (map (\<lambda>l. (endpoint_name l, JObj [(''endpoint_id'', JStr (eid (endpoint_name l)))])) labels) out =
   Inr (out @ map (\<lambda>l. (l, eid (endpoint_name l))) labels)"
  using assms
proof (induction labels arbitrary: out)
  case (Cons l labels)
  have "after_last CHR ''-'' (endpoint_name l) = l"
    using Cons.prems(2) label_of_name [of l] by (simp add: endpoint_name_plan)
  moreover have "AList.update l i out = out @ [(l, i)]" for i
    using Cons.prems(1) by (intro update_fresh) auto
  ultimately show ?case using Cons
    by (simp add: json_obj_def json_text_def dict_item_def)
qed simp

lemma manifest_records_labels:
  assumes "flash_app groups types env = Inr app"
  shows "endpoint_ids (flash_manifest eid app) = Inr (map (\<lambda>l. (l, eid (endpoint_name l)))
    (planned_labels (dict_get ''MECHANISM'' ''shim'' env) (length (split_commas (dict_get ''MODELS'' [] env)))))"
proof -
  let ?labels = "planned_labels (dict_get ''MECHANISM'' ''shim'' env)
      (length (split_commas (dict_get ''MODELS'' [] env)))"
  let ?entry = "\<lambda>name. (name, JObj [(''endpoint_id'', JStr (eid name))])"
  have "map (\<lambda>(b, e). ?entry (flash_name e)) app = map ?entry (map (flash_name \<circ> snd) app)"
    by (simp add: case_prod_unfold)
  also have "\<dots> = map (\<lambda>l. ?entry (endpoint_name l)) ?labels"
    unfolding flash_app_names [OF assms] by (simp add: endpoint_name_plan)
  finally have manifest: "flash_manifest eid app =
      JObj [(''resources'', JObj (map (\<lambda>l. ?entry (endpoint_name l)) ?labels))]"
    by (simp add: flash_manifest_def)
  have "list_all (\<lambda>l. CHR ''-'' \<notin> set l) ?labels"
    using label_clean by (fastforce simp: list_all_iff)
  then show ?thesis
    using endpoint_ids_fold [of "[]" ?labels eid] planned_labels_distinct
    by (simp add: endpoint_ids_def manifest json_obj_def dict_get_def)
qed

lemma map_of_labels:
  "map_of (map (\<lambda>l. (l, f l)) ls) k = (if k \<in> set ls then Some (f k) else None)"
  by (induction ls) auto

section \<open>The contract of a mechanism's jobs\<close>

text \<open>The job list of a run: the baseline first, then the mechanism's plan.\<close>

definition drive_jobs :: "(config \<Rightarrow> job list) \<Rightarrow> config \<Rightarrow> job list" where
  "drive_jobs jobs cfg = baseline_jobs (cfg_models cfg) @ jobs cfg"

definition shim_labels :: "config \<Rightarrow> string list" where
  "shim_labels cfg = SHIM_LABELS"

definition volumecache_labels :: "config \<Rightarrow> string list" where
  "volumecache_labels cfg = [VOLUME_LABEL]"

definition modelstore_labels :: "config \<Rightarrow> string list" where
  "modelstore_labels cfg =
    map (\<lambda>i. (if cfg_modelstore_endpoints cfg \<noteq> [] then REUSED_PREFIX else []) @ model_label i)
      [0..<length (cfg_models cfg)]"

text \<open>
  What the driver relies on: the jobs carry the mechanism's name, run on its labels and over the
  configured models, in phases of the timing schema.
\<close>

locale planned_jobs =
  fixes name :: string and jobs :: "config \<Rightarrow> job list" and labels :: "config \<Rightarrow> string list"
  assumes named: "j \<in> set (jobs cfg) \<Longrightarrow> job_mechanism j = Some name"
    and labelled: "config_ok cfg \<Longrightarrow> cfg_mechanism cfg = name \<Longrightarrow> j \<in> set (jobs cfg) \<Longrightarrow>
      \<exists>l \<in> set (labels cfg). job_endpoint j = Some l"
    and listed: "config_ok cfg \<Longrightarrow> cfg_mechanism cfg = name \<Longrightarrow> j \<in> set (jobs cfg) \<Longrightarrow>
      job_model j \<in> set (cfg_models cfg)"
    and phased: "j \<in> set (jobs cfg) \<Longrightarrow> schema_phase (job_phase j) = ''populate'' \<or> job_phase j = ''warm''"
begin

lemma drive_jobs_resolve:
  assumes "config_ok cfg" and "cfg_mechanism cfg = name"
    and "list_all (\<lambda>l. has_key l endpoints) (BASELINE_LABEL # labels cfg)"
  shows "\<exists>eids. resolve_endpoints (drive_jobs jobs cfg) endpoints = Inr eids \<and>
    list_all (\<lambda>j. \<exists>l e. job_endpoint j = Some l \<and> map_of endpoints l = Some e \<and> map_of eids l = Some e)
      (drive_jobs jobs cfg)"
proof -
  have "\<exists>l. job_endpoint j = Some l \<and> has_key l endpoints" if j: "j \<in> set (drive_jobs jobs cfg)" for j
  proof (cases "j \<in> set (jobs cfg)")
    case True
    then obtain l where "l \<in> set (labels cfg)" "job_endpoint j = Some l"
      using labelled assms by blast
    then show ?thesis using assms(3) unfolding list_all_iff by simp
  next
    case False
    then have "job_endpoint j = Some BASELINE_LABEL"
      using j by (auto simp: drive_jobs_def baseline_jobs_def mechanism_job_def)
    then show ?thesis using assms(3) by simp
  qed
  then have "list_all (\<lambda>j. \<exists>l. job_endpoint j = Some l \<and> has_key l endpoints) (drive_jobs jobs cfg)"
    unfolding list_all_iff by blast
  then show ?thesis by (rule resolve_endpoints_total) (intro exI conjI; assumption)
qed

lemma drive_jobs_schema:
  assumes "config_ok cfg" and "cfg_mechanism cfg = name" and "j \<in> set (drive_jobs jobs cfg)"
  shows "schema_phase (job_phase j) \<in> set SCHEMA_PHASES \<and> job_model j \<in> set (cfg_models cfg) \<and>
    (job_mechanism j = Some BASELINE_MECHANISM \<or> job_mechanism j = Some name)"
proof (cases "j \<in> set (jobs cfg)")
  case True
  then have "schema_phase (job_phase j) = ''populate'' \<or> schema_phase (job_phase j) = ''warm''"
    using phased by fastforce
  then show ?thesis using True named listed [OF assms(1,2)] by (auto simp: SCHEMA_PHASES_def)
next
  case False
  then show ?thesis using assms(3)
    by (auto simp: drive_jobs_def baseline_jobs_def mechanism_job_def SCHEMA_PHASES_def)
qed

end

lemma shim_jobs_cases:
  assumes "j \<in> set (shim_jobs cfg)"
  obtains g m ms where "(g, ms) \<in> set (cfg_overlap cfg)" and "m \<in> set ms"
    and "job_endpoint j = Some g" and "job_model j = m" and "job_mechanism j = Some ''shim''"
    and "job_phase j = ''cold'' \<or> job_phase j = ''warm''"
  using assms by (auto simp: shim_jobs_def expand_jobs_def group_job_def)

lemma overlap_pairs_iff: "(g, m) \<in> set (overlap_pairs ov) \<longleftrightarrow> (\<exists>ms. (g, ms) \<in> set ov \<and> m \<in> set ms)"
  by (auto simp: overlap_pairs_def)

interpretation shim_plan: planned_jobs "''shim''" shim_jobs shim_labels
proof unfold_locales
  fix j cfg
  assume j: "j \<in> set (shim_jobs cfg)"
  show "job_mechanism j = Some ''shim''" using j by (rule shim_jobs_cases)
  show "schema_phase (job_phase j) = ''populate'' \<or> job_phase j = ''warm''"
    using j by (rule shim_jobs_cases) auto
  assume cfg: "config_ok cfg" "cfg_mechanism cfg = ''shim''"
  have keys: "fst ` set (cfg_overlap cfg) = set SHIM_LABELS"
    and models: "list_all (\<lambda>(g, m). m \<in> set (cfg_models cfg)) (overlap_pairs (cfg_overlap cfg))"
    using cfg unfolding config_ok_def SHIM_LABELS_def by simp_all
  show "\<exists>l\<in>set (shim_labels cfg). job_endpoint j = Some l"
    using j keys by (rule_tac shim_jobs_cases [OF j]) (force simp: shim_labels_def)
  show "job_model j \<in> set (cfg_models cfg)"
    using j
  proof (rule shim_jobs_cases)
    fix g m ms
    assume "(g, ms) \<in> set (cfg_overlap cfg)" "m \<in> set ms" "job_model j = m"
    then have "(g, m) \<in> set (overlap_pairs (cfg_overlap cfg))"
      unfolding overlap_pairs_iff by blast
    then show ?thesis using models \<open>job_model j = m\<close> by (fastforce simp: list_all_iff)
  qed
qed

interpretation volumecache_plan: planned_jobs "''volumecache''" volumecache_jobs volumecache_labels
  by unfold_locales (auto simp: volumecache_jobs_def mechanism_job_def volumecache_labels_def)

interpretation modelstore_plan: planned_jobs "''modelstore''" modelstore_jobs modelstore_labels
proof unfold_locales
  fix j cfg
  assume "j \<in> set (modelstore_jobs cfg)"
  then obtain i m r where i: "(i, m) \<in> set (enumerate 0 (cfg_models cfg))"
    and j: "j = mechanism_job ''modelstore'' ((if cfg_modelstore_endpoints cfg \<noteq> [] then REUSED_PREFIX
        else []) @ model_label i) m ''warm'' r"
    by (auto simp: modelstore_jobs_def Let_def)
  have "i < length (cfg_models cfg)" "m \<in> set (cfg_models cfg)"
    using i by (auto simp: in_set_enumerate_eq dest: nth_mem)
  then show "\<exists>l\<in>set (modelstore_labels cfg). job_endpoint j = Some l"
      "job_model j \<in> set (cfg_models cfg)"
    by (auto simp: j mechanism_job_def modelstore_labels_def)
  show "job_mechanism j = Some ''modelstore''"
      "schema_phase (job_phase j) = ''populate'' \<or> job_phase j = ''warm''"
    by (simp_all add: j mechanism_job_def)
qed

section \<open>Provisioning gives every job an endpoint\<close>

lemma deploy_env_lookup:
  assumes "map_of (ws_env spec) k = None" and "dict_wf (ws_env spec)"
    and "k \<noteq> ''VOLUME_GB''" and "k \<noteq> ''VOLUME_NAME''"
  shows "map_of (deploy_env spec cfg token runid) k = map_of (base_env spec cfg token runid) k"
proof -
  have "map_of (dict_update (base_env spec cfg token runid) (ws_env spec)) k =
      map_of (base_env spec cfg token runid) k"
    using assms(1,2) by (simp add: map_of_dict_update_wf map_add_def)
  then show ?thesis using assms(3,4)
    by (cases "ws_network_volume_gb spec") (simp_all add: deploy_env_def Let_def update_conv')
qed

lemma base_env_lookup:
  "map_of (base_env spec cfg token runid) ''MECHANISM'' = Some (cfg_mechanism cfg)"
  "map_of (base_env spec cfg token runid) ''MODELS'' = Some (join_commas (cfg_models cfg))"
  by (simp_all add: base_env_def)

lemma deploy_env_reads:
  assumes "map_of (ws_env spec) ''MECHANISM'' = None" "map_of (ws_env spec) ''MODELS'' = None"
    and "dict_wf (ws_env spec)"
  shows "map_of (deploy_env spec cfg token runid) ''MECHANISM'' = Some (cfg_mechanism cfg)"
    "map_of (deploy_env spec cfg token runid) ''MODELS'' = Some (join_commas (cfg_models cfg))"
  using assms by (simp_all add: deploy_env_lookup base_env_lookup)

lemma dict_get_merged:
  "dict_wf env \<Longrightarrow> map_of env k = Some v \<Longrightarrow> dict_get k d (dict_update environ env) = v"
  by (simp add: dict_get_def map_of_dict_update_wf)

lemma flash_deploy_env_keys:
  "dict_wf (flash_deploy_env addrs cfg token) \<and>
   map_of (flash_deploy_env addrs cfg token) ''MECHANISM'' = None \<and>
   map_of (flash_deploy_env addrs cfg token) ''MODELS'' = None"
  by (auto simp: flash_deploy_env_def map_of_eq_None_iff)

lemma outside_Inr:
  assumes "outside m h = (Inr x, h')"
  shows "m (world h) = (Inr x, world h')"
  using assms by (cases "m (world h)") (auto simp: outside_def)

lemma finish_provision_ok:
  assumes "finish_provision runid st h = (Inr st', h')"
  shows "st' = st \<and> map_of (state_files h') (state_path runid) = Some st"
  using assms by (auto simp: finish_provision_def save_state_def write_last_runid_def run_then update_conv')

text \<open>
  What the testbed relies on of Flash: a deployment that succeeds is of the environment it was
  given, and the manifest read after it lists the endpoints of the worker module for it.
\<close>

definition flash_works ::
  "'e cloud \<Rightarrow> string list \<Rightarrow> string list \<Rightarrow> (string \<Rightarrow> string) \<Rightarrow> ('e \<Rightarrow> environment) \<Rightarrow> bool" where
  "flash_works c groups types eid deployed \<longleftrightarrow>
    (\<forall>name env w w'. run_flash c [''flash'', ''deploy'', ''--env'', name] env True w = (Inr (), w') \<longrightarrow>
       deployed w' = env) \<and>
    (\<forall>w m w'. read_manifest c w = (Inr m, w') \<longrightarrow>
       (\<exists>app. flash_app groups types (deployed w) = Inr app \<and> m = flash_manifest eid app))"

lemma deploy_then_manifest:
  assumes flash: "flash_works c groups types eid deployed"
    and deploy: "flash_deploy c environ env w = (Inr (), w1)"
    and manifest: "manifest_endpoint_ids c w1 = (Inr eps, w2)"
    and env: "dict_wf env" "map_of env ''MECHANISM'' = Some mechanism" "map_of env ''MODELS'' = Some models"
  shows "eps = map (\<lambda>l. (l, eid (endpoint_name l)))
    (planned_labels mechanism (length (split_commas models)))"
proof -
  obtain name where "run_flash c [''flash'', ''deploy'', ''--env'', name] (dict_update environ env) True w =
      (Inr (), w1)"
    using deploy by (auto simp: flash_deploy_def elim!: bind_Inr)
  then have deployed: "deployed w1 = dict_update environ env"
    using flash unfolding flash_works_def by blast
  obtain m where "read_manifest c w1 = (Inr m, w2)" and eps: "endpoint_ids m = Inr eps"
    using manifest by (auto simp: manifest_endpoint_ids_def elim!: bind_Inr)
  then obtain app where app: "flash_app groups types (dict_update environ env) = Inr app"
      and m: "m = flash_manifest eid app"
    using flash unfolding flash_works_def deployed [symmetric] by blast
  have "dict_get ''MECHANISM'' ''shim'' (dict_update environ env) = mechanism"
      "dict_get ''MODELS'' [] (dict_update environ env) = models"
    using env by (simp_all add: dict_get_merged)
  then show ?thesis using manifest_records_labels [OF app, of eid] eps m by simp
qed

lemma shim_provision_endpoints:
  assumes "shim_provision c environ cfg runid h = (Inr st, h')"
    and "flash_works c groups types eid deployed" and "cfg_mechanism cfg = ''shim''"
  shows "st_endpoints st = map (\<lambda>l. (l, eid (endpoint_name l))) (planned_labels ''shim''
      (length (split_commas (join_commas (cfg_models cfg))))) \<and>
    map_of (state_files h') (state_path runid) = Some st"
proof -
  obtain st2 token eps h1 h2 h3 where
      deploy: "outside (flash_deploy c environ (deploy_env
        ((shim_spec cfg)\<lparr>ws_env := flash_deploy_env (st_metrics_urls st2) cfg token\<rparr>) cfg token runid)) h1 =
        (Inr (), h2)"
    and manifest: "outside (manifest_endpoint_ids c) h2 = (Inr eps, h3)"
    and finish: "finish_provision runid (st2\<lparr>st_endpoints := eps\<rparr>) h3 = (Inr st, h')"
    using assms(1)
    by (auto simp: shim_provision_def Let_def then_call_def elim!: bind_Inr split: if_splits)
  let ?env = "deploy_env ((shim_spec cfg)\<lparr>ws_env := flash_deploy_env (st_metrics_urls st2) cfg token\<rparr>)
    cfg token runid"
  have "map_of ?env ''MECHANISM'' = Some ''shim''" "map_of ?env ''MODELS'' = Some (join_commas (cfg_models cfg))"
    using flash_deploy_env_keys assms(3) by (simp_all add: deploy_env_reads)
  from deploy_then_manifest [OF assms(2) outside_Inr [OF deploy] outside_Inr [OF manifest] deploy_env_wf this]
  show ?thesis using finish_provision_ok [OF finish] by simp
qed

lemma volumecache_provision_endpoints:
  assumes "volumecache_provision c environ cfg runid h = (Inr st, h')"
    and "flash_works c groups types eid deployed" and "cfg_mechanism cfg = ''volumecache''"
  shows "st_endpoints st = map (\<lambda>l. (l, eid (endpoint_name l))) (planned_labels ''volumecache''
      (length (split_commas (join_commas (cfg_models cfg))))) \<and>
    map_of (state_files h') (state_path runid) = Some st"
proof -
  obtain st1 token eps h1 h2 h3 h4 where
      deploy: "outside (flash_deploy c environ (deploy_env (volumecache_spec cfg) cfg token runid)) h1 =
        (Inr (), h2)"
    and manifest: "outside (manifest_endpoint_ids c) h2 = (Inr eps, h3)"
    and finish: "finish_provision runid st1 h4 = (Inr st, h')" and st1: "st_endpoints st1 = eps"
    using assms(1)
    by (auto simp: volumecache_provision_def Let_def then_call_def elim!: bind_Inr split: if_splits)
  let ?env = "deploy_env (volumecache_spec cfg) cfg token runid"
  have "map_of ?env ''MECHANISM'' = Some ''volumecache''"
      "map_of ?env ''MODELS'' = Some (join_commas (cfg_models cfg))"
    using assms(3) by (simp_all add: deploy_env_reads volumecache_spec_def)
  from deploy_then_manifest [OF assms(2) outside_Inr [OF deploy] outside_Inr [OF manifest] deploy_env_wf this]
  show ?thesis using finish_provision_ok [OF finish] st1 by simp
qed

end
