(* ===== verification/Run_Contracts.thy ===== *)
theory Run_Contracts
  imports Mechanisms
begin

text \<open>
  What holds across the components of a run: provisioning gives every job of the driver an
  endpoint, a provisioning that fails leaves no cache pod behind, teardown reaches every
  resource and no endpoint that the run does not own.
\<close>

section \<open>Provisioning gives every job an endpoint\<close>

lemma validate_reused_keys:
  assumes "validate_reused c cfg w = (Inr reused, w')"
  shows "fst ` set reused = set (map (\<lambda>i. REUSED_PREFIX @ model_label i) [0..<length (cfg_models cfg)])"
proof -
  have "reused = dict_update [] (map (\<lambda>(i, m). (REUSED_PREFIX @ model_label i,
      the (map_of (cfg_modelstore_endpoints cfg) m))) (enumerate 0 (cfg_models cfg)))"
    using assms by (auto simp: validate_reused_def Let_def elim!: bind_Inr split: if_splits)
  then have "fst ` set reused = fst ` set (map (\<lambda>(i, m). (REUSED_PREFIX @ model_label i,
      the (map_of (cfg_modelstore_endpoints cfg) m))) (enumerate 0 (cfg_models cfg)))"
    by simp
  also have "\<dots> = set (map (\<lambda>(i, m). REUSED_PREFIX @ model_label i) (enumerate 0 (cfg_models cfg)))"
    by (force simp: image_image case_prod_unfold)
  finally show ?thesis by (simp only: map_enumerate) simp
qed

lemma modelstore_provision_endpoints:
  assumes "modelstore_provision c environ cfg runid h = (Inr st, h')"
    and "flash_works c groups types eid deployed" and "cfg_mechanism cfg = ''modelstore''"
  shows "\<exists>reused. st_endpoints st = dict_update (map (\<lambda>l. (l, eid (endpoint_name l)))
      (planned_labels ''modelstore'' (length (split_commas
        (if cfg_modelstore_endpoints cfg \<noteq> [] then [] else join_commas (cfg_models cfg)))))) reused \<and>
    fst ` set reused = (if cfg_modelstore_endpoints cfg \<noteq> []
      then set (map (\<lambda>i. REUSED_PREFIX @ model_label i) [0..<length (cfg_models cfg)]) else {})"
proof -
  let ?reuse = "cfg_modelstore_endpoints cfg \<noteq> []"
  obtain token reused h1 h2 h3 h4 h5 h6 eps st' where
      reused: "reuse_endpoints c environ cfg h1 = (Inr reused, h2)"
    and deploy: "outside (flash_deploy c environ (modelstore_env cfg token runid)) h3 = (Inr (), h4)"
    and manifest: "outside (manifest_endpoint_ids c) h4 = (Inr eps, h5)"
    and finish: "finish_provision runid ((new_state ''modelstore'' runid)\<lparr>st_endpoints :=
          dict_update eps reused\<rparr>) h5 = (Inr st', h6)"
    and last: "(if reused = [] then then_call (declare_cached_models c environ cfg st') (pure st')
             else pure st') h6 = (Inr st, h')"
    using assms(1) unfolding modelstore_provision_def Let_def
    by (elim bind_Inr then_Inr) blast
  have "st' = st"
    using last by (auto elim!: then_Inr split: if_splits)
  note st = finish [unfolded this]
  have env: "dict_wf (modelstore_env cfg token runid)"
      "map_of (modelstore_env cfg token runid) ''MECHANISM'' = Some ''modelstore''"
      "map_of (modelstore_env cfg token runid) ''MODELS'' =
         Some (if ?reuse then [] else join_commas (cfg_models cfg))"
    using deploy_env_wf assms(3)
    by (simp_all add: modelstore_env_def Let_def deploy_env_reads modelstore_spec_def update_conv')
  have eps: "eps = map (\<lambda>l. (l, eid (endpoint_name l))) (planned_labels ''modelstore''
      (length (split_commas (if ?reuse then [] else join_commas (cfg_models cfg)))))"
    by (rule deploy_then_manifest [OF assms(2) outside_Inr [OF deploy] outside_Inr [OF manifest] env])
  have "fst ` set reused = (if ?reuse
      then set (map (\<lambda>i. REUSED_PREFIX @ model_label i) [0..<length (cfg_models cfg)]) else {})"
  proof (cases ?reuse)
    case True
    then obtain w where "outside (validate_reused c cfg) w = (Inr reused, h2)"
      using reused by (auto simp: reuse_endpoints_def then_call_def elim!: bind_Inr)
    from validate_reused_keys [OF outside_Inr [OF this]] show ?thesis using True by simp
  next
    case False
    then show ?thesis using reused by (simp add: reuse_endpoints_def)
  qed
  moreover have "st_endpoints st = dict_update eps reused"
    using finish_provision_ok [OF st] by simp
  ultimately show ?thesis using eps by blast
qed

lemma get_mechanism_cases:
  assumes "get_mechanism c environ name = Inr mech"
  obtains "name = ''shim''" "mech_provision mech = shim_provision c environ" "mech_jobs mech = shim_jobs"
      "mech_teardown mech = shim_teardown c environ" "mech_name mech = name"
  | "name = ''volumecache''" "mech_provision mech = volumecache_provision c environ"
      "mech_jobs mech = volumecache_jobs" "mech_teardown mech = volumecache_teardown c" "mech_name mech = name"
  | "name = ''modelstore''" "mech_provision mech = modelstore_provision c environ"
      "mech_jobs mech = modelstore_jobs" "mech_teardown mech = modelstore_teardown c" "mech_name mech = name"
proof -
  consider "name = ''shim''" | "name = ''volumecache''" | "name = ''modelstore''"
    | "name \<noteq> ''shim''" "name \<noteq> ''volumecache''" "name \<noteq> ''modelstore''"
    by blast
  then show thesis
  proof cases
    case 1
    then have "mech = snd (mechanisms c environ ! 0)"
      using assms by (simp add: get_mechanism_def mechanisms_def)
    then show thesis using 1 by (intro that(1)) (simp_all add: mechanisms_def)
  next
    case 2
    then have "mech = snd (mechanisms c environ ! 1)"
      using assms by (simp add: get_mechanism_def mechanisms_def)
    then show thesis using 2 by (intro that(2)) (simp_all add: mechanisms_def)
  next
    case 3
    then have "mech = snd (mechanisms c environ ! 2)"
      using assms by (simp add: get_mechanism_def mechanisms_def)
    then show thesis using 3 by (intro that(3)) (simp_all add: mechanisms_def numeral_2_eq_2)
  next
    case 4
    then show thesis using assms by (simp add: get_mechanism_def mechanisms_def)
  qed
qed

lemma labels_recorded:
  assumes "fst ` set endpoints = set labels" and "set wanted \<subseteq> set labels"
  shows "list_all (\<lambda>l. has_key l endpoints) wanted"
  using assms unfolding list_all_iff has_key_iff by blast

lemma keys_of_map: "fst ` (\<lambda>l. (l, f l)) ` ls = ls"
  by force

lemma modelstore_labels_planned:
  "cfg_modelstore_endpoints cfg = [] \<Longrightarrow>
     set (BASELINE_LABEL # modelstore_labels cfg) =
     set (planned_labels ''modelstore'' (length (cfg_models cfg)))"
  by (simp add: modelstore_labels_def planned_labels_modelstore BASELINE_LABEL_def model_label_def)

text \<open>What each mechanism records when it provisions: an endpoint for the baseline and for
  each of its own labels.\<close>

lemma shim_labels_recorded:
  assumes "comma_items (cfg_models cfg)" and "flash_works c groups types eid deployed"
    and "cfg_mechanism cfg = ''shim''" and "shim_provision c environ cfg runid h = (Inr st, h')"
  shows "list_all (\<lambda>l. has_key l (st_endpoints st)) (BASELINE_LABEL # shim_labels cfg)"
proof (rule labels_recorded)
  show "fst ` set (st_endpoints st) = set (planned_labels ''shim'' (length (cfg_models cfg)))"
    using shim_provision_endpoints [OF assms(4,2,3)] by (simp add: split_join_commas [OF assms(1)] keys_of_map)
  show "set (BASELINE_LABEL # shim_labels cfg) \<subseteq> set (planned_labels ''shim'' (length (cfg_models cfg)))"
    by (simp add: planned_labels_shim shim_labels_def BASELINE_LABEL_def)
qed

lemma volumecache_labels_recorded:
  assumes "comma_items (cfg_models cfg)" and "flash_works c groups types eid deployed"
    and "cfg_mechanism cfg = ''volumecache''" and "volumecache_provision c environ cfg runid h = (Inr st, h')"
  shows "list_all (\<lambda>l. has_key l (st_endpoints st)) (BASELINE_LABEL # volumecache_labels cfg)"
proof (rule labels_recorded)
  show "fst ` set (st_endpoints st) = set (planned_labels ''volumecache'' (length (cfg_models cfg)))"
    using volumecache_provision_endpoints [OF assms(4,2,3)] by (simp add: split_join_commas [OF assms(1)] keys_of_map)
  show "set (BASELINE_LABEL # volumecache_labels cfg) \<subseteq> set (planned_labels ''volumecache'' (length (cfg_models cfg)))"
    by (simp add: planned_labels_volumecache volumecache_labels_def VOLUME_LABEL_def BASELINE_LABEL_def)
qed

lemma modelstore_labels_recorded:
  assumes "comma_items (cfg_models cfg)" and "flash_works c groups types eid deployed"
    and "cfg_mechanism cfg = ''modelstore''" and "modelstore_provision c environ cfg runid h = (Inr st, h')"
  shows "list_all (\<lambda>l. has_key l (st_endpoints st)) (BASELINE_LABEL # modelstore_labels cfg)"
proof -
  obtain reused where st: "st_endpoints st = dict_update (map (\<lambda>l. (l, eid (endpoint_name l)))
      (planned_labels ''modelstore'' (length (split_commas
        (if cfg_modelstore_endpoints cfg \<noteq> [] then [] else join_commas (cfg_models cfg)))))) reused"
    and reused: "fst ` set reused = (if cfg_modelstore_endpoints cfg \<noteq> []
      then set (map (\<lambda>i. REUSED_PREFIX @ model_label i) [0..<length (cfg_models cfg)]) else {})"
    using modelstore_provision_endpoints [OF assms(4,2,3)] by auto
  have keys: "fst ` set (st_endpoints st) = set (planned_labels ''modelstore'' (length (split_commas
        (if cfg_modelstore_endpoints cfg \<noteq> [] then [] else join_commas (cfg_models cfg))))) \<union> fst ` set reused"
    by (simp only: st set_keys_dict_update set_map keys_of_map)
  have "set (BASELINE_LABEL # modelstore_labels cfg) \<subseteq> fst ` set (st_endpoints st)"
  proof (cases "cfg_modelstore_endpoints cfg = []")
    case True
    then show ?thesis
      using modelstore_labels_planned [OF True] unfolding keys by (simp add: split_join_commas [OF assms(1)])
  next
    case False
    then show ?thesis unfolding keys reused
      by (simp add: modelstore_labels_def planned_labels_modelstore BASELINE_LABEL_def) blast
  qed
  then show ?thesis unfolding list_all_iff has_key_iff by blast
qed

text \<open>C8: Whatever the mechanism, after a provisioning that succeeds every job of the driver, of the
  baseline and of the mechanism, finds the endpoint that was deployed for it: the driver's
  resolution of endpoints does not fail and gives each job the id recorded under its label.
  The models are names without commas, which is how they travel to the worker module; for
  Flash, see \<open>flash_works\<close>.\<close>

theorem provision_then_resolve:
  assumes "config_ok cfg" and "comma_items (cfg_models cfg)"
    and "flash_works c groups types eid deployed"
    and "get_mechanism c environ (cfg_mechanism cfg) = Inr mech"
    and "mech_provision mech cfg runid h = (Inr st, h')"
  shows "\<exists>eids. resolve_endpoints (drive_jobs (mech_jobs mech) cfg) (st_endpoints st) = Inr eids \<and>
    list_all (\<lambda>j. \<exists>l e. job_endpoint j = Some l \<and> map_of (st_endpoints st) l = Some e \<and>
        map_of eids l = Some e) (drive_jobs (mech_jobs mech) cfg)"
  using assms(4)
proof (cases rule: get_mechanism_cases)
  case 1
  note recorded = shim_labels_recorded [OF assms(2,3) 1(1) assms(5) [unfolded 1(2)]]
  show ?thesis unfolding 1(3) by (rule shim_plan.drive_jobs_resolve [OF assms(1) 1(1) recorded])
next
  case 2
  note recorded = volumecache_labels_recorded [OF assms(2,3) 2(1) assms(5) [unfolded 2(2)]]
  show ?thesis unfolding 2(3) by (rule volumecache_plan.drive_jobs_resolve [OF assms(1) 2(1) recorded])
next
  case 3
  note recorded = modelstore_labels_recorded [OF assms(2,3) 3(1) assms(5) [unfolded 3(2)]]
  show ?thesis unfolding 3(3) by (rule modelstore_plan.drive_jobs_resolve [OF assms(1) 3(1) recorded])
qed

text \<open>A platform that deploys what it is given, and a configuration of the volume cache on it.\<close>

definition flash_cloud :: "environment cloud" where
  "flash_cloud = \<lparr>graphql = (\<lambda>q. pure (JObj [])), sdk_create_pod = (\<lambda>r. pure (JObj [])),
     sdk_terminate_pod = (\<lambda>p. pure ()), http_status = (\<lambda>u. pure 200),
     run_flash = (\<lambda>args env chk. change (\<lambda>w. env)),
     read_manifest = (\<lambda>w. (res_bind (flash_app [] [] w) (\<lambda>app. Inr (flash_manifest (\<lambda>n. n) app)), w)),
     http_open = (\<lambda>r. pure (Answered 200 NoBody)),
     wall_clock = (\<lambda>w. 0), sleep = (\<lambda>s. pure ())\<rparr>"

definition vc_config :: config where
  "vc_config = example_config\<lparr>cfg_mechanism := ''volumecache'', cfg_registry := [], cfg_cache_image := [],
     cfg_overlap := [], cfg_max_pods := 0, cfg_pod_instance_id := [], cfg_volume_gb := 50\<rparr>"

definition vc_environ :: environment where
  "vc_environ = [(''HF_TOKEN'', ''t''), (''RUNPOD_API_KEY'', ''k'')]"

definition empty_host :: "'e \<Rightarrow> 'e host" where
  "empty_host w = \<lparr>state_files = [], last_runid = None, printed = [], world = w\<rparr>"

lemma flash_cloud_works: "flash_works flash_cloud [] [] (\<lambda>n. n) (\<lambda>w. w)"
  by (auto simp: flash_works_def flash_cloud_def res_bind_eq_Inr)

lemma vc_env: "deploy_env (volumecache_spec vc_config) vc_config ''t'' ''r'' =
  [(''MECHANISM'', ''volumecache''), (''MODELS'', ''o/a@r,o/b''), (''HF_TOKEN'', ''t''),
   (''WORKER_CPU'', ''cpu5c-4-8''), (''WORKER_GPU'', []), (''WORKER_DEPS'', ''hf_xet''),
   (''WORKER_MAX'', ''2''), (''FLASH_ENV'', ''xet-r''), (''VOLUME_NAME'', ''xet-vc-r''), (''VOLUME_GB'', ''50'')]"
  by code_simp

definition vc_flash_env :: environment where
  "vc_flash_env = dict_update vc_environ (deploy_env (volumecache_spec vc_config) vc_config ''t'' ''r'')"

lemma vc_deploys: "\<exists>app. flash_app [] [] vc_flash_env = Inr app"
proof -
  have "\<not> isl (flash_app [] [] vc_flash_env)" by code_simp
  then show ?thesis using res_not_isl by blast
qed

lemma vc_provision: "\<exists>st h'. volumecache_provision flash_cloud vc_environ vc_config ''r'' (empty_host w) = (Inr st, h')"
proof -
  obtain app where app: "flash_app [] [] vc_flash_env = Inr app" using vc_deploys by blast
  let ?h = "empty_host w\<lparr>state_files := AList.update (state_path ''r'') (new_state ''volumecache'' ''r'') []\<rparr>"
  have saved: "save_state (state_path ''r'') (new_state ''volumecache'' ''r'') (empty_host w) = (Inr (), ?h)"
    by (simp add: save_state_def empty_host_def)
  have item: "dict_item ''HF_TOKEN'' vc_environ = Inr ''t''" "dict_item ''RUNPOD_API_KEY'' vc_environ = Inr ''k''"
    by code_simp+
  have flash_env: "dict_item ''FLASH_ENV'' (deploy_env (volumecache_spec vc_config) vc_config ''t'' ''r'') =
      Inr ''xet-r''"
    unfolding vc_env by code_simp
  have deploy: "outside (flash_deploy flash_cloud vc_environ
      (deploy_env (volumecache_spec vc_config) vc_config ''t'' ''r'')) h =
      (Inr (), h\<lparr>world := vc_flash_env\<rparr>)" for h
    by (simp add: outside_def flash_deploy_def run_bind flash_env flash_cloud_def vc_flash_env_def [symmetric]
        del: dict_update.simps)
  obtain eps where eps: "endpoint_ids (flash_manifest (\<lambda>n. n) app) = Inr eps"
    using manifest_records_labels [OF app] by blast
  have manifest: "outside (manifest_endpoint_ids flash_cloud) (h\<lparr>world := vc_flash_env\<rparr>) =
      (Inr eps, h\<lparr>world := vc_flash_env\<rparr>)" for h
    by (simp add: outside_def manifest_endpoint_ids_def run_bind flash_cloud_def app eps)
  have volumes: "outside (list_network_volumes flash_cloud key) h = (Inr [], h)" for key h
    by (simp add: outside_def list_network_volumes_def rest_request_def run_bind flash_cloud_def)
  show ?thesis
    by (simp add: volumecache_provision_def Let_def run_bind run_then saved item deploy manifest volumes
        print_line_def finish_provision_def save_state_def write_last_runid_def)
qed

theorem provision_then_resolve_witness:
  "\<exists>st h' eids. volumecache_provision flash_cloud vc_environ vc_config ''r'' (empty_host []) = (Inr st, h') \<and>
     resolve_endpoints (drive_jobs volumecache_jobs vc_config) (st_endpoints st) = Inr eids"
proof -
  obtain st h' where run: "volumecache_provision flash_cloud vc_environ vc_config ''r'' (empty_host []) = (Inr st, h')"
    using vc_provision by blast
  let ?mech = "snd (mechanisms flash_cloud vc_environ ! 1)"
  have cfg: "config_ok vc_config" "comma_items (cfg_models vc_config)" "cfg_mechanism vc_config = ''volumecache''"
    by code_simp+
  have mech: "get_mechanism flash_cloud vc_environ (cfg_mechanism vc_config) = Inr ?mech"
    unfolding cfg(3) by (simp add: get_mechanism_def mechanisms_def)
  have jobs: "mech_jobs ?mech = volumecache_jobs" "mech_provision ?mech = volumecache_provision flash_cloud vc_environ"
    by (simp_all add: mechanisms_def)
  from provision_then_resolve [OF cfg(1,2) flash_cloud_works mech, unfolded jobs, OF run] run
  show ?thesis by blast
qed

section \<open>Best-effort teardown\<close>

lemma run_attempt:
  "attempt m describe w = (Inr (case fst (m w) of Inl e \<Rightarrow> [describe e] | Inr x \<Rightarrow> []), snd (m w))"
  by (cases "m w"; cases "fst (m w)") (auto simp: attempt_def io_simps)

text \<open>A loop of attempts makes every call, whatever became of the ones before.\<close>

fun attempt_errors :: "('a \<Rightarrow> ('w, unit) io) \<Rightarrow> ('a \<Rightarrow> pyerr \<Rightarrow> string) \<Rightarrow> 'a list \<Rightarrow> 'w \<Rightarrow> string list" where
  "attempt_errors f d [] w = []"
| "attempt_errors f d (x # xs) w =
    (case fst (f x w) of Inl e \<Rightarrow> [d x e] | Inr _ \<Rightarrow> []) @ attempt_errors f d xs (snd (f x w))"

lemma run_map_each_attempt:
  obtains ys where "map_each (\<lambda>x. attempt (f x) (d x)) xs w = (Inr ys, fold (\<lambda>x w. snd (f x w)) xs w)"
    and "concat ys = attempt_errors f d xs w"
proof -
  have "\<exists>ys. map_each (\<lambda>x. attempt (f x) (d x)) xs w = (Inr ys, fold (\<lambda>x w. snd (f x w)) xs w) \<and>
      concat ys = attempt_errors f d xs w"
  proof (induction xs arbitrary: w)
    case (Cons x xs)
    let ?e = "case fst (f x w) of Inl e \<Rightarrow> [d x e] | Inr _ \<Rightarrow> []"
    obtain ys where "map_each (\<lambda>x. attempt (f x) (d x)) xs (snd (f x w)) =
        (Inr ys, fold (\<lambda>x w. snd (f x w)) xs (snd (f x w)))"
      and "concat ys = attempt_errors f d xs (snd (f x w))"
      using Cons.IH by blast
    moreover have "attempt (f x) (d x) w = (Inr ?e, snd (f x w))" by (rule run_attempt)
    ultimately show ?case by (intro exI [of _ "?e # ys"]) (simp add: run_bind)
  qed simp
  then show thesis using that by blast
qed

text \<open>C31: Teardown is best-effort: \<open>teardown_all\<close> never raises; whatever failed before, it calls the
  mechanism's teardown, then the undeployment of the baseline, then the deletion of
  every volume of the state, and it returns one line for each of these calls that raised.\<close>

theorem teardown_all_best_effort:
  "let undeploy = outside (cli_undeploy c (''xet-'' @ st_runid st) [endpoint_name BASELINE_LABEL]);
       delete = (\<lambda>lv. outside (delete_network_volume c environ (snd lv)));
       h1 = snd (teardown st h); h2 = snd (undeploy h1)
   in teardown_all c environ name teardown st h =
     (Inr ((case fst (teardown st h) of Inl e \<Rightarrow> [name @ '' teardown: '' @ err_text e] | Inr _ \<Rightarrow> []) @
           (case fst (undeploy h1) of Inl e \<Rightarrow> [''baseline undeploy: '' @ err_text e] | Inr _ \<Rightarrow> []) @
           attempt_errors delete (\<lambda>lv e. ''volume '' @ fst lv @ ''='' @ snd lv @ '': '' @ err_text e)
             (st_volumes st) h2),
      fold (\<lambda>lv h. snd (delete lv h)) (st_volumes st) h2)"
proof -
  let ?delete = "\<lambda>lv. outside (delete_network_volume c environ (snd lv))"
  let ?line = "\<lambda>lv e. ''volume '' @ fst lv @ ''='' @ snd lv @ '': '' @ err_text e"
  let ?undeploy = "outside (cli_undeploy c (''xet-'' @ st_runid st) [endpoint_name BASELINE_LABEL])"
  let ?h2 = "snd (?undeploy (snd (teardown st h)))"
  obtain ys where "map_each (\<lambda>lv. attempt (?delete lv) (?line lv)) (st_volumes st) ?h2 =
      (Inr ys, fold (\<lambda>lv h. snd (?delete lv h)) (st_volumes st) ?h2)"
    and "concat ys = attempt_errors ?delete ?line (st_volumes st) ?h2"
    by (rule run_map_each_attempt)
  moreover note run_attempt [of "teardown st" "\<lambda>e. name @ '' teardown: '' @ err_text e" h]
    run_attempt [of ?undeploy "\<lambda>e. ''baseline undeploy: '' @ err_text e" "snd (teardown st h)"]
  ultimately show ?thesis
    unfolding teardown_all_def Let_def by (simp only: run_bind case_prod_unfold prod.case sum.case pure_def fst_conv snd_conv append_assoc)
qed

end
