(* ===== verification/Pod_Leaks.thy ===== *)
theory Pod_Leaks
  imports Run_Contracts
begin

text \<open>
  What a failed provisioning of the shim leaves behind. The rules for \<open>valid\<close> are those of a
  Hoare logic with a postcondition for the value and one for the exception; the pods that run
  are a set that the platform's world determines.
\<close>

section \<open>Triples\<close>

definition valid :: "('w \<Rightarrow> bool) \<Rightarrow> ('w, 'a) io \<Rightarrow> ('a \<Rightarrow> 'w \<Rightarrow> bool) \<Rightarrow> ('w \<Rightarrow> bool) \<Rightarrow> bool" where
  "valid P m Q E \<longleftrightarrow> (\<forall>w. P w \<longrightarrow> (case m w of (Inr x, w') \<Rightarrow> Q x w' | (Inl e, w') \<Rightarrow> E w'))"

named_theorems valid_rules \<open>the rules of the logic\<close>

lemma validD_Inr: "valid P m Q E \<Longrightarrow> P w \<Longrightarrow> m w = (Inr x, w') \<Longrightarrow> Q x w'"
  and validD_Inl: "valid P m Q E \<Longrightarrow> P w \<Longrightarrow> m w = (Inl e, w') \<Longrightarrow> E w'"
  by (auto simp: valid_def)

lemma valid_pure [valid_rules]: "(\<And>w. P w \<Longrightarrow> Q x w) \<Longrightarrow> valid P (pure x) Q E"
  by (simp add: valid_def)

lemma valid_throw [valid_rules]: "(\<And>w. P w \<Longrightarrow> E w) \<Longrightarrow> valid P (throw e) Q E"
  by (simp add: valid_def)

lemma valid_change [valid_rules]: "(\<And>w. P w \<Longrightarrow> Q () (f w)) \<Longrightarrow> valid P (change f) Q E"
  by (simp add: valid_def)

lemma valid_lift [valid_rules]:
  "(\<And>x w. r = Inr x \<Longrightarrow> P w \<Longrightarrow> Q x w) \<Longrightarrow> (\<And>w. P w \<Longrightarrow> E w) \<Longrightarrow> valid P (lift_res r) Q E"
  by (cases r) (simp_all add: valid_def)

lemma valid_bind [valid_rules]:
  assumes "valid P m R E" and "\<And>x. valid (R x) (f x) Q E"
  shows "valid P (bind_call m f) Q E"
proof -
  have "case bind_call m f w of (Inr x, w') \<Rightarrow> Q x w' | (Inl e, w') \<Rightarrow> E w'" if "P w" for w
  proof -
    obtain r w1 where "m w = (r, w1)" by force
    then show ?thesis using that assms by (cases r) (force simp: run_bind valid_def)+
  qed
  then show ?thesis by (simp add: valid_def)
qed

lemma valid_then [valid_rules]:
  "valid P m (\<lambda>_. R) E \<Longrightarrow> valid R n Q E \<Longrightarrow> valid P (then_call m n) Q E"
  unfolding then_call_def by (rule valid_bind)

lemma valid_if [valid_rules]:
  "valid P m Q E \<Longrightarrow> valid P n Q E \<Longrightarrow> valid P (if b then m else n) Q E"
  by simp

lemma valid_weaken:
  "valid P m Q E \<Longrightarrow> (\<And>w. P' w \<Longrightarrow> P w) \<Longrightarrow> (\<And>x w. Q x w \<Longrightarrow> Q' x w) \<Longrightarrow> (\<And>w. E w \<Longrightarrow> E' w) \<Longrightarrow>
   valid P' m Q' E'"
  by (fastforce simp: valid_def split: prod.splits sum.splits)

lemma keeps_valid: "keeps P m \<Longrightarrow> valid P m (\<lambda>_. P) P"
  by (fastforce simp: valid_def keeps_def split: prod.split sum.split)

lemma keeps_outside: "keeps P m \<Longrightarrow> keeps (\<lambda>h. P (world h)) (outside m)"
  by (simp add: keeps_def run_outside)

lemma keeps_case_prod [keeps_intros]: "(\<And>a b. keeps P (f a b)) \<Longrightarrow> keeps P (case p of (a, b) \<Rightarrow> f a b)"
  by (cases p) simp

section \<open>The pods of the platform\<close>

text \<open>
  What the testbed relies on of the platform: a pod runs that was created, under the id that
  \<open>create\<close> returned; one that was terminated without an exception does not run; nothing else
  starts pods.
\<close>

definition pods_tracked :: "'e cloud \<Rightarrow> ('e \<Rightarrow> string set) \<Rightarrow> bool" where
  "pods_tracked c live \<longleftrightarrow>
    (\<forall>r w. case create_cache_pod c r w of (Inr pid, w') \<Rightarrow> live w' \<subseteq> insert pid (live w)
       | (Inl e, w') \<Rightarrow> live w' \<subseteq> live w) \<and>
    (\<forall>pid w. case terminate_pod c pid w of (Inr u, w') \<Rightarrow> live w' \<subseteq> live w - {pid}
       | (Inl e, w') \<Rightarrow> live w' \<subseteq> live w) \<and>
    (\<forall>q w. live (snd (graphql c q w)) \<subseteq> live w) \<and>
    (\<forall>u w. live (snd (http_status c u w)) \<subseteq> live w) \<and>
    (\<forall>args env chk w. live (snd (run_flash c args env chk w)) \<subseteq> live w) \<and>
    (\<forall>w. live (snd (read_manifest c w)) \<subseteq> live w) \<and>
    (\<forall>r w. live (snd (http_open c r w)) \<subseteq> live w) \<and>
    (\<forall>s w. live (snd (sleep c s w)) \<subseteq> live w)"

text \<open>The pods that the platform can refuse to terminate.\<close>

definition stuck_pods :: "'e cloud \<Rightarrow> string set" where
  "stuck_pods c = {pid. \<exists>w e w'. terminate_pod c pid w = (Inl e, w')}"

definition confined :: "('e \<Rightarrow> string set) \<Rightarrow> string set \<Rightarrow> 'e \<Rightarrow> bool" where
  "confined live X w \<longleftrightarrow> live w \<subseteq> X"

lemma keeps_confined: "(\<And>w. live (snd (m w)) \<subseteq> live w) \<Longrightarrow> keeps (confined live X) m"
  unfolding keeps_def confined_def by blast

lemma confined_calls:
  assumes "pods_tracked c live"
  shows "keeps (confined live X) (graphql c q)" "keeps (confined live X) (http_status c u)"
    "keeps (confined live X) (run_flash c args env chk)" "keeps (confined live X) (read_manifest c)"
    "keeps (confined live X) (http_open c r)" "keeps (confined live X) (sleep c s)"
    "keeps (confined live X) (terminate_pod c pid)"
proof -
  have "live (snd (terminate_pod c pid w)) \<subseteq> live w" for w
  proof -
    obtain r w' where r: "terminate_pod c pid w = (r, w')" by force
    have "case terminate_pod c pid w of (Inr u, w') \<Rightarrow> live w' \<subseteq> live w - {pid} | (Inl e, w') \<Rightarrow> live w' \<subseteq> live w"
      using assms by (simp add: pods_tracked_def)
    then show ?thesis using r by (cases r) auto
  qed
  then show "keeps (confined live X) (terminate_pod c pid)" by (rule keeps_confined)
qed (rule keeps_confined, use assms in \<open>simp add: pods_tracked_def\<close>)+

lemma confined_deploy:
  assumes "pods_tracked c live"
  shows "keeps (confined live X) (flash_deploy c environ env)" "keeps (confined live X) (manifest_endpoint_ids c)"
    "keeps (confined live X) (cli_undeploy c env_name names)"
    "keeps (confined live X) (delete_network_volume c environ vid)"
    "keeps (confined live X) (wait_addr c pid timeout)" "keeps (confined live X) (wait_healthz c addr timeout)"
  unfolding flash_deploy_def manifest_endpoint_ids_def cli_undeploy_def delete_network_volume_def rest_request_def
    wait_addr_def wait_healthz_def get_pod_ports_def
  by (intro keeps_intros keeps_poll_while confined_calls [OF assms])+

section \<open>Provisioning\<close>

text \<open>The pods that the saved state of the run names.\<close>

definition saved_pods :: "string \<Rightarrow> 'e host \<Rightarrow> string set" where
  "saved_pods runid h = (case map_of (state_files h) (state_path runid) of None \<Rightarrow> {}
     | Some st \<Rightarrow> snd ` set (st_pods st))"

text \<open>While the pods are created: those that run were there before, or are in the state, which is saved.\<close>

definition accounted :: "('e \<Rightarrow> string set) \<Rightarrow> string set \<Rightarrow> string \<Rightarrow> (string, string) pydict \<Rightarrow> 'e host \<Rightarrow> bool" where
  "accounted live X runid pods h \<longleftrightarrow> live (world h) \<subseteq> X \<union> snd ` set pods \<and>
     (pods \<noteq> [] \<longrightarrow> snd ` set pods \<subseteq> saved_pods runid h)"

definition covered :: "('e \<Rightarrow> string set) \<Rightarrow> string set \<Rightarrow> string \<Rightarrow> 'e host \<Rightarrow> bool" where
  "covered live X runid h \<longleftrightarrow> live (world h) \<subseteq> X \<union> saved_pods runid h"

lemma accounted_covered: "accounted live X runid pods h \<Longrightarrow> covered live X runid h"
  by (auto simp: accounted_def covered_def)

lemma saved_after_save [simp]:
  "saved_pods runid (h\<lparr>state_files := AList.update (state_path runid) st (state_files h)\<rparr>) = snd ` set (st_pods st)"
  by (simp add: saved_pods_def update_conv')

lemma outside_files: "state_files (snd (outside m h)) = state_files h"
  by (simp add: run_outside)

lemma valid_outside:
  assumes "\<And>X. keeps (confined live X) m"
  shows "valid (accounted live X runid pods) (outside m) (\<lambda>_. accounted live X runid pods) (covered live X runid)"
proof -
  have "accounted live X runid pods (snd (outside m h))" if "accounted live X runid pods h" for h
  proof -
    have "live (world (snd (outside m h))) \<subseteq> live (world h)"
      using assms [of "live (world h)"] by (simp add: run_outside keeps_def confined_def)
    then show ?thesis using that outside_files [of m h] by (auto simp: accounted_def saved_pods_def)
  qed
  then show ?thesis using accounted_covered unfolding valid_def by (fastforce split: prod.split sum.split)
qed

lemma update_fresh_pods: "g \<notin> fst ` set pods \<Longrightarrow> snd ` set (AList.update g pid pods) = insert pid (snd ` set pods)"
  by (simp add: update_fresh)

lemma valid_create_pods:
  assumes "pods_tracked c live" and "distinct gs" and "fst ` set (st_pods st) \<inter> set gs = {}"
  shows "valid (accounted live X runid (st_pods st)) (create_pods (create_pod_of c cfg runid penv) runid gs st)
    (\<lambda>st'. accounted live X runid (st_pods st')) (covered live X runid)"
  using assms(2,3)
proof (induction gs arbitrary: st)
  case Nil
  show ?case unfolding create_pods.simps by (rule valid_pure)
next
  case (Cons g gs)
  have create: "valid (accounted live X runid (st_pods st)) (outside (create_pod_of c cfg runid penv g))
      (\<lambda>pid h. live (world h) \<subseteq> X \<union> insert pid (snd ` set (st_pods st))) (covered live X runid)"
  proof -
    let ?m = "create_pod_of c cfg runid penv g"
    have m: "case ?m w of (Inr pid, w') \<Rightarrow> live w' \<subseteq> insert pid (live w) | (Inl e, w') \<Rightarrow> live w' \<subseteq> live w" for w
      using assms(1) by (simp add: pods_tracked_def create_pod_of_def)
    have "case outside ?m h of (Inr pid, h') \<Rightarrow> live (world h') \<subseteq> X \<union> insert pid (snd ` set (st_pods st))
        | (Inl e, h') \<Rightarrow> covered live X runid h'" if h: "accounted live X runid (st_pods st) h" for h
    proof -
      obtain r w' where r: "?m (world h) = (r, w')" by force
      have "covered live X runid (h\<lparr>world := w'\<rparr>)" if "live w' \<subseteq> live (world h)"
        using accounted_covered [OF h] that by (auto simp: covered_def saved_pods_def)
      then show ?thesis using m [of "world h"] r h by (cases r) (auto simp: outside_def accounted_def)
    qed
    then show ?thesis unfolding valid_def by blast
  qed
  have "valid (\<lambda>h. live (world h) \<subseteq> X \<union> insert pid (snd ` set (st_pods st)))
      (then_call (save_state (state_path runid) (st\<lparr>st_pods := AList.update g pid (st_pods st)\<rparr>))
        (create_pods (create_pod_of c cfg runid penv) runid gs (st\<lparr>st_pods := AList.update g pid (st_pods st)\<rparr>)))
      (\<lambda>st'. accounted live X runid (st_pods st')) (covered live X runid)" for pid
  proof (rule valid_then)
    let ?st = "st\<lparr>st_pods := AList.update g pid (st_pods st)\<rparr>"
    show "valid (accounted live X runid (st_pods ?st)) (create_pods (create_pod_of c cfg runid penv) runid gs ?st)
        (\<lambda>st'. accounted live X runid (st_pods st')) (covered live X runid)"
      by (rule Cons.IH) (use Cons.prems in auto)
    show "valid (\<lambda>h. live (world h) \<subseteq> X \<union> insert pid (snd ` set (st_pods st))) (save_state (state_path runid) ?st)
        (\<lambda>_. accounted live X runid (st_pods ?st)) (covered live X runid)"
      unfolding save_state_def using Cons.prems
      by (intro valid_change) (auto simp: accounted_def update_fresh_pods)
  qed
  then show ?case using create by (simp add: Let_def valid_bind)
qed

lemma valid_wait_pods:
  assumes "pods_tracked c live"
  shows "valid (accounted live X runid (st_pods st)) (wait_pods c ps st)
    (\<lambda>st' h. st_pods st' = st_pods st \<and> accounted live X runid (st_pods st) h) (covered live X runid)"
proof (induction ps arbitrary: st)
  case Nil
  show ?case unfolding wait_pods.simps by (rule valid_pure) simp
next
  case (Cons p ps)
  obtain g pid where p: "p = (g, pid)" by force
  show ?case unfolding p wait_pods.simps
  proof (rule valid_bind [OF valid_outside], rule confined_deploy [OF assms])
    fix addr
    let ?st = "st\<lparr>st_metrics_urls := AList.update g addr (st_metrics_urls st)\<rparr>"
    show "valid (accounted live X runid (st_pods st)) (then_call (outside (wait_healthz c addr POD_WAIT_S)) (wait_pods c ps ?st))
        (\<lambda>st' h. st_pods st' = st_pods st \<and> accounted live X runid (st_pods st) h) (covered live X runid)"
      by (rule valid_then [OF valid_outside], rule confined_deploy [OF assms]) (use Cons [of ?st] in simp)
  qed
qed

lemma accounted_none: "accounted live X runid [] h \<longleftrightarrow> live (world h) \<subseteq> X"
  by (simp add: accounted_def)

lemma valid_shim_provision:
  assumes "pods_tracked c live" and "dict_wf (cfg_overlap cfg)"
  shows "valid (accounted live X runid []) (shim_provision c environ cfg runid) (\<lambda>_. covered live X runid) (covered live X runid)"
proof -
  have pods: "st_pods (new_state m runid) = []" for m by (simp add: new_state_def)
  have finish: "valid (accounted live X runid (st_pods st)) (finish_provision runid (st\<lparr>st_endpoints := eps\<rparr>))
      (\<lambda>_. covered live X runid) E" for E eps and st
    unfolding finish_provision_def save_state_def write_last_runid_def
    by (auto simp: valid_def run_then accounted_def covered_def saved_pods_def update_conv')
  have rest: "valid (accounted live X runid (st_pods st2))
     (bind_call (lift_res (dict_item ''HF_TOKEN'' environ)) (\<lambda>token.
        then_call (outside (flash_deploy c environ (deploy_env
          ((shim_spec cfg)\<lparr>ws_env := flash_deploy_env (st_metrics_urls st2) cfg token\<rparr>) cfg token runid)))
        (bind_call (outside (manifest_endpoint_ids c)) (\<lambda>eps.
           finish_provision runid (st2\<lparr>st_endpoints := eps\<rparr>))))) (\<lambda>_. covered live X runid) (covered live X runid)" for st2
    by (rule valid_bind [where R = "\<lambda>_. accounted live X runid (st_pods st2)"], rule valid_lift)
      (auto intro: accounted_covered valid_then [OF valid_outside] valid_bind [OF valid_outside] finish
        confined_deploy [OF assms(1)])
  have pods_phase: "valid (accounted live X runid [])
      (bind_call (create_pods (create_pod_of c cfg runid penv) runid (dict_keys (cfg_overlap cfg)) (new_state ''shim'' runid))
         (\<lambda>st1. bind_call (wait_pods c (st_pods st1) st1) f)) Q (covered live X runid)"
    if f: "\<And>st2. valid (accounted live X runid (st_pods st2)) (f st2) Q (covered live X runid)"
    for penv Q and f :: "provision_state \<Rightarrow> ('a host, provision_state) io"
  proof (rule valid_bind)
    show "valid (accounted live X runid []) (create_pods (create_pod_of c cfg runid penv) runid
        (dict_keys (cfg_overlap cfg)) (new_state ''shim'' runid))
        (\<lambda>st'. accounted live X runid (st_pods st')) (covered live X runid)"
      using valid_create_pods [OF assms(1), of "dict_keys (cfg_overlap cfg)" "new_state ''shim'' runid"] assms(2)
      by (simp add: pods dict_wf_def)
    fix st1
    show "valid (accounted live X runid (st_pods st1)) (bind_call (wait_pods c (st_pods st1) st1) f) Q (covered live X runid)"
      by (rule valid_bind [OF valid_wait_pods [OF assms(1)]])
        (rule valid_weaken [OF f], auto)
  qed
  show ?thesis
    unfolding shim_provision_def Let_def
    by (rule valid_bind [where R = "\<lambda>_. accounted live X runid []"], rule valid_lift)
      (auto intro!: valid_throw valid_bind [where R = "\<lambda>_. accounted live X runid []"] valid_lift pods_phase rest
        intro: accounted_covered)
qed

section \<open>Teardown\<close>

lemma terminate_all:
  assumes "pods_tracked c live"
  shows "live (fold (\<lambda>pid w. snd (terminate_pod c pid w)) pids w) \<subseteq> live w - (set pids - stuck_pods c)"
proof (induction pids arbitrary: w)
  case (Cons pid pids)
  obtain r w' where r: "terminate_pod c pid w = (r, w')" by force
  have "case terminate_pod c pid w of (Inr u, w') \<Rightarrow> live w' \<subseteq> live w - {pid} | (Inl e, w') \<Rightarrow> live w' \<subseteq> live w"
    using assms by (simp add: pods_tracked_def)
  then have "live w' \<subseteq> live w - ({pid} - stuck_pods c)"
    using r by (cases r) (auto simp: stuck_pods_def)
  then show ?case using Cons [of w'] r by auto
qed simp

lemma shim_teardown_terminates:
  assumes "pods_tracked c live" and "has_key ''RUNPOD_API_KEY'' environ"
  shows "live (world (snd (shim_teardown c environ st h))) \<subseteq>
    live (world h) - (snd ` set (st_pods st) - stuck_pods c)"
proof -
  let ?undeploy = "cli_undeploy c (''xet-'' @ st_runid st) SHIM_ENDPOINTS"
  let ?w = "snd (?undeploy (world h))"
  have live: "live ?w \<subseteq> live (world h)"
    using confined_deploy(3) [OF assms(1), of "live (world h)"] by (auto simp: keeps_def confined_def)
  obtain ys where "map_each (\<lambda>pid. attempt (terminate_pod c pid) (\<lambda>e. pid)) (map snd (st_pods st)) ?w =
      (Inr ys, fold (\<lambda>pid w. snd (terminate_pod c pid w)) (map snd (st_pods st)) ?w)"
    by (rule run_map_each_attempt)
  moreover note run_attempt [of ?undeploy "\<lambda>e. ''xet-'' @ st_runid st" "world h"]
  ultimately have "world (snd (shim_teardown c environ st h)) =
      fold (\<lambda>pid w. snd (terminate_pod c pid w)) (map snd (st_pods st)) ?w"
    using dict_item_eq [of "''RUNPOD_API_KEY''" environ] assms(2)
    by (simp add: shim_teardown_def shim_teardown_legacy_def run_then run_bind outside_def print_line_def
        del: fold_map)
  then show ?thesis using terminate_all [OF assms(1), of "map snd (st_pods st)" ?w] live by auto
qed


lemma confined_teardown:
  assumes "pods_tracked c live"
  shows "keeps (\<lambda>h. confined live X (world h)) (shim_teardown c environ st)"
    and "keeps (\<lambda>h. confined live X (world h)) (attempt (shim_teardown c environ st) f)"
    and "keeps (\<lambda>h. confined live X (world h)) (attempt (outside (cli_undeploy c env_name names)) g)"
    and "keeps (\<lambda>h. confined live X (world h)) (attempt (outside (delete_network_volume c environ vid)) g)"
proof -
  have print: "keeps (\<lambda>h. confined live X (world h)) (print_line s)" for s
    unfolding print_line_def by (rule keeps_change) simp
  show own: "keeps (\<lambda>h. confined live X (world h)) (shim_teardown c environ st)"
    unfolding shim_teardown_def shim_teardown_legacy_def attempt_def
    by (intro keeps_intros print keeps_outside confined_calls [OF assms] confined_deploy [OF assms])
  show "keeps (\<lambda>h. confined live X (world h)) (attempt (shim_teardown c environ st) f)"
    unfolding attempt_def by (intro keeps_intros own)
  show "keeps (\<lambda>h. confined live X (world h)) (attempt (outside (cli_undeploy c env_name names)) g)"
    unfolding attempt_def by (intro keeps_intros keeps_outside confined_deploy [OF assms])
  show "keeps (\<lambda>h. confined live X (world h)) (attempt (outside (delete_network_volume c environ vid)) g)"
    unfolding attempt_def
    by (rule keeps_try, rule keeps_bind, rule keeps_outside, rule confined_deploy [OF assms]) (rule keeps_pure)+
qed

lemma shim_teardown_all_leaves:
  assumes "pods_tracked c live"
  shows "live (world (snd (teardown_all c environ name (shim_teardown c environ) st h))) \<subseteq>
    live (world (snd (shim_teardown c environ st h)))"
proof -
  let ?X = "live (world (snd (shim_teardown c environ st h)))"
  have "keeps (\<lambda>h. confined live ?X (world h))
      (bind_call (attempt (outside (cli_undeploy c (''xet-'' @ st_runid st) [endpoint_name BASELINE_LABEL]))
          (\<lambda>e. ''baseline undeploy: '' @ err_text e)) (\<lambda>base.
       bind_call (map_each (\<lambda>(label, vid). attempt (outside (delete_network_volume c environ vid))
          (\<lambda>e. ''volume '' @ label @ ''='' @ vid @ '': '' @ err_text e)) (st_volumes st)) (\<lambda>vols.
         pure (own @ base @ concat vols))))" for own
    by (intro keeps_intros confined_teardown [OF assms])
  from keepsD [OF this, of "snd (shim_teardown c environ st h)"] show ?thesis
    by (simp add: teardown_all_def run_attempt run_bind [of "attempt (shim_teardown c environ st) d" for d] confined_def)
qed

lemma teardown_all_returns: "\<exists>errored. fst (teardown_all c environ name teardown st h) = Inr errored"
proof -
  let ?undeploy = "outside (cli_undeploy c (''xet-'' @ st_runid st) [endpoint_name BASELINE_LABEL])"
  let ?delete = "\<lambda>lv. outside (delete_network_volume c environ (snd lv))"
  let ?line = "\<lambda>lv e. ''volume '' @ fst lv @ ''='' @ snd lv @ '': '' @ err_text e"
  let ?h2 = "snd (?undeploy (snd (teardown st h)))"
  obtain ys h' where "map_each (\<lambda>lv. attempt (?delete lv) (?line lv)) (st_volumes st) ?h2 = (Inr ys, h')"
    using run_map_each_attempt [of ?delete ?line "st_volumes st" ?h2] by blast
  moreover note run_attempt [of "teardown st" "\<lambda>e. name @ '' teardown: '' @ err_text e" h]
    run_attempt [of ?undeploy "\<lambda>e. ''baseline undeploy: '' @ err_text e" "snd (teardown st h)"]
  ultimately show ?thesis
    unfolding teardown_all_def
    by (simp only: run_bind case_prod_unfold prod.case sum.case pure_def fst_conv snd_conv) blast
qed

text \<open>A provisioning that raises: the error goes on, after the teardown of the saved state.\<close>

lemma up_main_failed:
  assumes "up_main c environ mech cfg runid h = (Inl e, h')"
  obtains h1 where "mech_provision mech cfg runid h = (Inl e, h1)"
    and "map_of (state_files h1) (state_path runid) = None" and "world h' = world h1"
  | h1 h2 st where "mech_provision mech cfg runid h = (Inl e, h1)" and "world h2 = world h1"
    and "map_of (state_files h1) (state_path runid) = Some st"
    and "world h' = world (snd (teardown_all c environ (mech_name mech) (mech_teardown mech) st h2))"
proof -
  obtain r h1 where r: "mech_provision mech cfg runid h = (r, h1)" by force
  let ?h2 = "h1\<lparr>printed := printed h1 @ [''provision failed; tearing down'']\<rparr>"
  have fail: "r = Inl e"
  proof (cases "map_of (state_files h1) (state_path runid)")
    case None
    then show ?thesis using assms r by (cases r) (auto simp: up_main_def run_try run_then run_bind print_line_def)
  next
    case (Some st)
    obtain errored h3 where "teardown_all c environ (mech_name mech) (mech_teardown mech) st ?h2 = (Inr errored, h3)"
      using teardown_all_returns by (metis prod.collapse)
    then show ?thesis using assms r Some
      by (cases r) (auto simp: up_main_def run_try run_then run_bind print_line_def)
  qed
  show thesis
  proof (cases "map_of (state_files h1) (state_path runid)")
    case None
    then show thesis using assms r fail that(1) [of h1]
      by (auto simp: up_main_def run_try run_then run_bind print_line_def)
  next
    case (Some st)
    have "world h' = world (snd (teardown_all c environ (mech_name mech) (mech_teardown mech) st ?h2))"
      using assms r fail Some
      by (auto simp: up_main_def run_try run_then run_bind print_line_def split: prod.splits sum.splits)
    then show thesis using r fail Some that(2) [of h1 ?h2 st] by simp
  qed
qed

text \<open>C1: A provisioning of the shim that fails, wherever it fails, leaves no cache pod of its
  own running, but for those whose termination the platform itself refuses: every pod that was created
  is in the saved state before anything else happens, and the teardown terminates all of them.\<close>

theorem shim_failed_run_leaves_no_pod:
  assumes "pods_tracked c live" and "dict_wf (cfg_overlap cfg)"
    and "get_mechanism c environ ''shim'' = Inr mech"
    and "up_main c environ mech cfg runid h = (Inl e, h')"
  shows "live (world h') \<subseteq> live (world h) \<union> stuck_pods c"
proof -
  have mech: "mech_provision mech = shim_provision c environ" "mech_teardown mech = shim_teardown c environ"
    using assms(3) by (auto elim: get_mechanism_cases)
  have covered: "covered live (live (world h)) runid h1" if "mech_provision mech cfg runid h = (Inl e, h1)" for h1
    using validD_Inl [OF valid_shim_provision [OF assms(1,2)], of "live (world h)" runid h environ e h1] that
    by (simp add: mech accounted_none)
  from assms(4) show ?thesis
  proof (cases rule: up_main_failed)
    case (1 h1)
    then show ?thesis using covered [OF 1(1)] by (auto simp: covered_def saved_pods_def)
  next
    case (2 h1 h2 st)
    have left: "live (world h') \<subseteq> live (world (snd (shim_teardown c environ st h2)))"
      using shim_teardown_all_leaves [OF assms(1)] 2(4) mech(2) by metis
    show ?thesis
    proof (cases "has_key ''RUNPOD_API_KEY'' environ")
      case True
      have "live (world h1) \<subseteq> live (world h) \<union> snd ` set (st_pods st)"
        using covered [OF 2(1)] 2(3) by (auto simp: covered_def saved_pods_def)
      then show ?thesis
        using left shim_teardown_terminates [OF assms(1) True, of st h2] 2(2) by auto
    next
      case False
      obtain err where "dict_item ''RUNPOD_API_KEY'' environ = Inl err"
        using False by (auto simp: dict_item_def map_of_eq_None_iff [THEN iffD2])
      then have "h1 = h"
        using 2(1) by (simp add: mech shim_provision_def run_bind)
      moreover have "live (world (snd (shim_teardown c environ st h2))) \<subseteq> live (world h2)"
        using keepsD [OF confined_teardown(1) [OF assms(1)], of "live (world h2)" h2] by (simp add: confined_def)
      ultimately show ?thesis using left 2(2) by auto
    qed
  qed
qed


text \<open>A platform on which pods start, but cannot be asked for their ports.\<close>

definition deaf_cloud :: "string set cloud" where
  "deaf_cloud = \<lparr>graphql = (\<lambda>q. throw (RuntimeError ''500'')),
     sdk_create_pod = (\<lambda>r w. (Inr (JObj [(''id'', JStr (req_name r))]), insert (req_name r) w)),
     sdk_terminate_pod = (\<lambda>p. change (\<lambda>w. w - {p})), http_status = (\<lambda>u. pure 200),
     run_flash = (\<lambda>args env chk. pure ()), read_manifest = pure JNull,
     http_open = (\<lambda>r. pure (Answered 200 NoBody)),
     wall_clock = (\<lambda>w. 0), sleep = (\<lambda>s. pure ())\<rparr>"

lemma deaf_cloud_tracks: "pods_tracked deaf_cloud (\<lambda>w. w)" and deaf_cloud_stuck: "stuck_pods deaf_cloud = {}"
  by (auto simp: pods_tracked_def stuck_pods_def create_cache_pod_def terminate_pod_def deaf_cloud_def run_bind
      json_item_def json_obj_def json_text_def dict_item_def)

lemma deaf_cloud_fails:
  "fst (shim_provision deaf_cloud vc_environ example_config ''r'' (empty_host {})) = Inl (RuntimeError ''500'')"
proof -
  have key: "dict_item ''RUNPOD_API_KEY'' vc_environ = Inr ''k''"
    by code_simp
  have penv: "\<exists>e. pod_env ''r'' n vc_environ = Inr e" for n
    by (simp add: pod_env_def key)
  have create: "create_pod_of deaf_cloud cfg ''r'' e g w = (Inr (pod_name ''r'' g), insert (pod_name ''r'' g) w)" for cfg e g w
    by (simp add: create_pod_of_def create_cache_pod_def deaf_cloud_def run_bind json_item_def json_obj_def
        json_text_def dict_item_def)
  have ports: "get_pod_ports deaf_cloud pid w = (Inl (RuntimeError ''500''), w)" for pid w
    by (simp add: get_pod_ports_def deaf_cloud_def run_bind)
  have wait: "fst (wait_addr deaf_cloud pid POD_WAIT_S w) = Inl (RuntimeError ''500'')" for pid w
  proof -
    have loop: "poll_while (Suc n) (wall_clock deaf_cloud) POD_WAIT_S
        (bind_call (get_pod_ports deaf_cloud pid) f) nap err w = (Inl (RuntimeError ''500''), w)" for n f nap err
      by (simp add: run_bind ports) (simp add: deaf_cloud_def POD_WAIT_S_def)
    have polls: "POD_POLLS = Suc 101" by (simp add: POD_POLLS_def)
    have clock: "wall_clock deaf_cloud w = 0" by (simp add: deaf_cloud_def)
    show ?thesis unfolding wait_addr_def run_look_bind clock add_0 polls by (simp only: loop fst_conv)
  qed
  have wait_all: "fst (wait_pods deaf_cloud ((g, pid) # ps) st h) = Inl (RuntimeError ''500'')" for g pid ps st h
    using wait [of pid "world h"] by (simp add: run_bind run_outside split: prod.split sum.split)
  define gs where "gs = dict_keys (cfg_overlap example_config)"
  have gs: "gs = [''A'', ''B'', ''C'']" unfolding gs_def by code_simp
  have few: "\<not> cfg_max_pods example_config < int (length gs)" unfolding gs by code_simp
  obtain e where e: "pod_env ''r'' (length gs) vc_environ = Inr e" using penv by blast
  obtain st1 h1 where st1: "create_pods (create_pod_of deaf_cloud example_config ''r'' e) ''r'' gs
      (new_state ''shim'' ''r'') (empty_host {}) = (Inr st1, h1)" and "st_pods st1 \<noteq> []"
    unfolding gs by (simp add: run_bind run_then run_outside create save_state_def new_state_def Let_def)
  then obtain g pid ps where "st_pods st1 = (g, pid) # ps" by (metis surj_pair list.exhaust)
  then have "fst (wait_pods deaf_cloud (st_pods st1) st1 h1) = Inl (RuntimeError ''500'')"
    by (simp only: wait_all)
  then obtain h2 where "wait_pods deaf_cloud (st_pods st1) st1 h1 = (Inl (RuntimeError ''500''), h2)"
    by (metis prod.collapse)
  then show ?thesis
    unfolding shim_provision_def Let_def gs_def [symmetric]
    by (simp add: key run_bind few e st1)
qed

theorem shim_failed_run_leaves_no_pod_witness:
  "\<exists>e h'. up_main deaf_cloud vc_environ (snd (mechanisms deaf_cloud vc_environ ! 0)) example_config ''r''
      (empty_host {}) = (Inl e, h') \<and> world h' = {}"
proof -
  let ?mech = "snd (mechanisms deaf_cloud vc_environ ! 0)"
  have get: "get_mechanism deaf_cloud vc_environ ''shim'' = Inr ?mech"
    by (simp add: get_mechanism_def mechanisms_def)
  have wf: "dict_wf (cfg_overlap example_config)" by code_simp
  have prov: "mech_provision ?mech = shim_provision deaf_cloud vc_environ" by (simp add: mechanisms_def)
  have "\<exists>e h'. up_main deaf_cloud vc_environ ?mech example_config ''r'' (empty_host {}) = (Inl e, h')"
    using deaf_cloud_fails
    by (auto simp: up_main_def run_try run_then run_bind prov print_line_def split: prod.split sum.split option.split)
  then obtain e h' where run: "up_main deaf_cloud vc_environ ?mech example_config ''r'' (empty_host {}) = (Inl e, h')"
    by blast
  from shim_failed_run_leaves_no_pod [OF deaf_cloud_tracks wf get run] have "world h' \<subseteq> {}"
    by (simp add: deaf_cloud_stuck empty_host_def)
  then show ?thesis using run by blast
qed

end
