(* ===== verification/Lifecycle.thy ===== *)
theory Lifecycle
  imports Pod_Leaks
begin

text \<open>
  The commands around a run: \<open>provision/up.py\<close>'s \<open>main\<close> from its arguments, and \<open>provision/down.py\<close>'s
  \<open>main\<close>, which loads the saved state and tears it down. A run of the shim that is brought up and
  taken down leaves no pod behind.
\<close>

section \<open>The commands\<close>

definition repr_dict :: "(string, string) pydict \<Rightarrow> string" where
  "repr_dict d = ''{'' @ join_text '', '' (map (\<lambda>(k, v). py_repr k @ '': '' @ py_repr v) d) @ ''}''"

text \<open>\<open>read_config\<close> gives the document of a path, after \<open>tomllib\<close>; \<open>runid\<close> is the time of the start.\<close>

definition up_command ::
  "'e cloud \<Rightarrow> environment \<Rightarrow> (string \<Rightarrow> document res) \<Rightarrow> string \<Rightarrow> string list \<Rightarrow> ('e host, provision_state) io" where
  "up_command c environ read_config runid argv =
    bind_call (lift_res (res_bind (read_config (case argv of [] \<Rightarrow> ''config.toml'' | path # _ \<Rightarrow> path)) (\<lambda>doc.
        load_str doc (map_of environ ''MECHANISM'')))) (\<lambda>cfg.
    bind_call (lift_res (get_mechanism c environ (cfg_mechanism cfg))) (\<lambda>mech.
    bind_call (up_main c environ mech cfg runid) (\<lambda>st.
    then_call (print_line (''UP runid='' @ runid @ '' mechanism='' @ mech_name mech @ '' endpoints='' @
        repr_dict (st_endpoints st) @ '' pods='' @ repr_dict (st_pods st) @ '' volumes='' @ repr_dict (st_volumes st)))
      (pure st))))"

definition down_command :: "'e cloud \<Rightarrow> environment \<Rightarrow> string list \<Rightarrow> ('e host, unit) io" where
  "down_command c environ argv =
    (case argv of [] \<Rightarrow> throw IndexError
     | path # _ \<Rightarrow>
        bind_call (look (\<lambda>h. map_of (state_files h) path)) (\<lambda>saved. case saved of
            None \<Rightarrow> throw (FileNotFoundError path)
          | Some st \<Rightarrow>
              bind_call (lift_res (get_mechanism c environ (st_mechanism st))) (\<lambda>mech.
              bind_call (teardown_all c environ (mech_name mech) (mech_teardown mech) st) (\<lambda>errored.
                print_line (''teardown done; errored (tolerated): '' @ repr_list errored)))))"

section \<open>What a provisioning of the shim saves\<close>

lemma create_pods_named:
  "create_pods create runid gs st h = (Inr st', h') \<Longrightarrow> st_mechanism st' = st_mechanism st"
  by (induction gs arbitrary: st h) (auto simp: Let_def elim!: bind_Inr then_Inr)

lemma wait_pods_named: "wait_pods c ps st h = (Inr st', h') \<Longrightarrow> st_mechanism st' = st_mechanism st"
  by (induction ps arbitrary: st h) (auto elim!: bind_Inr then_Inr)

lemma finish_provision_saves:
  "finish_provision runid st h = (Inr st', h') \<Longrightarrow> st' = st \<and> map_of (state_files h') (state_path runid) = Some st"
  by (auto simp: finish_provision_def save_state_def write_last_runid_def run_then update_conv')

lemma shim_provision_saves:
  assumes "shim_provision c environ cfg runid h = (Inr st, h')"
  shows "map_of (state_files h') (state_path runid) = Some st" and "st_mechanism st = ''shim''"
proof -
  obtain st1 st2 eps h1 h2 h3 h4 penv where st1: "create_pods (create_pod_of c cfg runid penv) runid
        (dict_keys (cfg_overlap cfg)) (new_state ''shim'' runid) h1 = (Inr st1, h2)"
    and st2: "wait_pods c (st_pods st1) st1 h2 = (Inr st2, h3)"
    and st: "finish_provision runid (st2\<lparr>st_endpoints := eps\<rparr>) h4 = (Inr st, h')"
    using assms unfolding shim_provision_def Let_def
    by (elim bind_Inr) (simp split: if_splits, elim bind_Inr then_Inr, rule that)
  show "map_of (state_files h') (state_path runid) = Some st" using finish_provision_saves [OF st] by simp
  have "st = st2\<lparr>st_endpoints := eps\<rparr>" using finish_provision_saves [OF st] by simp
  then show "st_mechanism st = ''shim''"
    using create_pods_named [OF st1] wait_pods_named [OF st2] by (simp add: new_state_def)
qed

lemma up_main_ok:
  assumes "up_main c environ mech cfg runid h = (Inr st, h')"
  shows "mech_provision mech cfg runid h = (Inr st, h')"
proof (cases "mech_provision mech cfg runid h")
  case (Pair r h1)
  then show ?thesis using assms
    by (cases r) (auto simp: up_main_def run_try run_then run_bind print_line_def split: option.splits prod.splits sum.splits)
qed

section \<open>Up, then down\<close>

text \<open>C2: A run of the shim that came up is taken down without an exception, whatever ran in between that left its
  state file alone and started no pod: of the pods only those remain that ran before, or that the platform refuses
  to terminate.\<close>

theorem up_then_down_leaves_no_pod:
  assumes "pods_tracked c live" and "dict_wf (cfg_overlap cfg)"
    and "res_bind (read_config path) (\<lambda>doc. load_str doc (map_of environ ''MECHANISM'')) = Inr cfg"
    and "cfg_mechanism cfg = ''shim''" and "up_command c environ read_config runid [path] h = (Inr st, h1)"
    and "map_of (state_files h2) (state_path runid) = map_of (state_files h1) (state_path runid)"
    and "live (world h2) \<subseteq> live (world h1)"
  shows "\<exists>h3. down_command c environ [state_path runid] h2 = (Inr (), h3) \<and>
    live (world h3) \<subseteq> live (world h) \<union> stuck_pods c"
proof -
  obtain mech where mech: "get_mechanism c environ ''shim'' = Inr mech"
    by (simp add: get_mechanism_def mechanisms_def)
  then have ops: "mech_provision mech = shim_provision c environ" "mech_teardown mech = shim_teardown c environ"
    by (auto elim: get_mechanism_cases)
  obtain h0 where up: "up_main c environ mech cfg runid h = (Inr st, h0)"
    and h1: "state_files h1 = state_files h0" "world h1 = world h0"
    using assms(3,4,5) mech
    by (auto simp: up_command_def run_bind run_then print_line_def split: prod.splits sum.splits)
  then have provision: "shim_provision c environ cfg runid h = (Inr st, h0)"
    using up_main_ok ops(1) by metis
  obtain k where "map_of environ ''RUNPOD_API_KEY'' = Some k"
    using provision by (auto simp: shim_provision_def run_bind dict_item_def split: option.splits)
  then have key: "has_key ''RUNPOD_API_KEY'' environ" by (force dest: map_of_SomeD)
  have "covered live (live (world h)) runid h0"
    using validD_Inr [OF valid_shim_provision [OF assms(1,2)] _ provision] by (simp add: accounted_none)
  then have alive: "live (world h0) \<subseteq> live (world h) \<union> snd ` set (st_pods st)"
    using shim_provision_saves(1) [OF provision] by (simp add: covered_def saved_pods_def)
  have saved: "map_of (state_files h2) (state_path runid) = Some st"
    using shim_provision_saves(1) [OF provision] assms(6) h1 by simp
  obtain errored h3 where down: "teardown_all c environ (mech_name mech) (shim_teardown c environ) st h2 = (Inr errored, h3)"
    using teardown_all_returns by (metis prod.collapse)
  have "live (world h3) \<subseteq> live (world h2) - (snd ` set (st_pods st) - stuck_pods c)"
    using shim_teardown_all_leaves [OF assms(1), of environ "mech_name mech" st h2]
      shim_teardown_terminates [OF assms(1) key, of st h2] down by simp
  then have "live (world h3) \<subseteq> live (world h) \<union> stuck_pods c" using alive assms(7) unfolding h1(2) by blast
  moreover have "down_command c environ [state_path runid] h2 =
      (Inr (), h3\<lparr>printed := printed h3 @ [''teardown done; errored (tolerated): '' @ repr_list errored]\<rparr>)"
    using shim_provision_saves(2) [OF provision] mech
    by (simp add: down_command_def run_look_bind saved run_bind ops(2) down print_line_def)
  ultimately show ?thesis by force
qed

text \<open>A platform on which pods start at once and answer; its world is the list of the pods that run.\<close>

definition prompt_cloud :: "string list cloud" where
  "prompt_cloud = \<lparr>graphql = (\<lambda>q. pure (example_ports ''10.0.0.1'')),
     sdk_create_pod = (\<lambda>r w. (Inr (JObj [(''id'', JStr (req_name r))]), req_name r # w)),
     sdk_terminate_pod = (\<lambda>p. change (filter (\<lambda>q. q \<noteq> p))), http_status = (\<lambda>u. pure 200),
     run_flash = (\<lambda>args env chk. pure ()), read_manifest = pure (JObj [(''resources'', JObj [])]),
     http_open = (\<lambda>r. pure (Answered 200 NoBody)), wall_clock = (\<lambda>w. 0), sleep = (\<lambda>s. pure ())\<rparr>"

lemma prompt_cloud_tracks: "pods_tracked prompt_cloud set" and prompt_cloud_stuck: "stuck_pods prompt_cloud = {}"
  by (auto simp: pods_tracked_def stuck_pods_def create_cache_pod_def terminate_pod_def prompt_cloud_def run_bind
      json_item_def json_obj_def json_text_def dict_item_def)

lemma poll_at_once:
  "m w = (Inr (Some x), w') \<Longrightarrow> clock w < deadline \<Longrightarrow>
    poll_while (Suc n) clock deadline m nap e w = (Inr x, w')"
  by (simp add: run_bind)

lemma prompt_waits:
  "wait_addr prompt_cloud pid POD_WAIT_S w = (Inr ''http://10.0.0.1:31000'', w)"
  "wait_healthz prompt_cloud addr POD_WAIT_S w = (Inr (), w)"
proof -
  have polls: "POD_POLLS = Suc 101" by (simp add: POD_POLLS_def)
  have clock: "wall_clock prompt_cloud w = 0" for w by (simp add: prompt_cloud_def)
  have ports: "get_pod_ports prompt_cloud pid w = (Inr [example_port ''10.0.0.1''], w)"
    by (simp add: get_pod_ports_def run_bind prompt_cloud_def example_ports_read)
  show "wait_addr prompt_cloud pid POD_WAIT_S w = (Inr ''http://10.0.0.1:31000'', w)"
    unfolding wait_addr_def run_look_bind polls
    by (rule poll_at_once) (simp_all add: run_bind ports example_ports_read clock POD_WAIT_S_def del: parse_external_addr.simps)
  have "http_status prompt_cloud u w = (Inr 200, w)" for u by (simp add: prompt_cloud_def)
  then show "wait_healthz prompt_cloud addr POD_WAIT_S w = (Inr (), w)"
    unfolding wait_healthz_def run_look_bind polls
    by (intro poll_at_once) (simp_all add: run_bind run_try clock POD_WAIT_S_def)
qed

lemma prompt_waits_all: "\<exists>st'. wait_pods prompt_cloud ps st h = (Inr st', h)"
proof (induction ps arbitrary: st)
  case (Cons p ps)
  then show ?case by (cases p) (simp add: run_bind run_then run_outside prompt_waits)
qed simp

lemma prompt_provision: "\<exists>st h'. shim_provision prompt_cloud vc_environ example_config ''r'' (empty_host []) = (Inr st, h')"
proof -
  have keys: "dict_item ''RUNPOD_API_KEY'' vc_environ = Inr ''k''" "dict_item ''HF_TOKEN'' vc_environ = Inr ''t''"
    by code_simp+
  define gs where "gs = dict_keys (cfg_overlap example_config)"
  have few: "\<not> cfg_max_pods example_config < int (length gs)" unfolding gs_def by code_simp
  obtain penv where penv: "pod_env ''r'' (length gs) vc_environ = Inr penv" by (simp add: pod_env_def keys)
  have create: "create_pod_of prompt_cloud cfg ''r'' e g w = (Inr (pod_name ''r'' g), pod_name ''r'' g # w)" for cfg e g w
    by (simp add: create_pod_of_def create_cache_pod_def prompt_cloud_def run_bind json_item_def json_obj_def
        json_text_def dict_item_def)
  have creates: "\<exists>st' h'. create_pods (create_pod_of prompt_cloud example_config ''r'' penv) ''r'' xs st h = (Inr st', h')"
    for xs st and h :: "string list host"
    by (induction xs arbitrary: st h) (simp_all add: run_bind run_then run_outside create save_state_def Let_def)
  obtain st1 h1 where st1: "create_pods (create_pod_of prompt_cloud example_config ''r'' penv) ''r'' gs
      (new_state ''shim'' ''r'') (empty_host []) = (Inr st1, h1)" using creates by blast
  obtain st2 where st2: "wait_pods prompt_cloud (st_pods st1) st1 h1 = (Inr st2, h1)" using prompt_waits_all by blast
  have "''FLASH_ENV'' \<in> fst ` set (deploy_env spec example_config tok ''r'')" for spec tok
    by (simp add: deploy_env_def Let_def base_env_def split: option.split)
  then have deploy: "flash_deploy prompt_cloud vc_environ (deploy_env spec example_config tok ''r'') w = (Inr (), w)" for spec tok w
    by (simp add: flash_deploy_def run_bind dict_item_eq) (simp add: prompt_cloud_def)
  have "endpoint_ids (JObj [(''resources'', JObj [])]) = Inr []" by code_simp
  then have manifest: "manifest_endpoint_ids prompt_cloud w = (Inr [], w)" for w
    by (simp add: manifest_endpoint_ids_def run_bind prompt_cloud_def)
  show ?thesis
    unfolding shim_provision_def Let_def gs_def [symmetric]
    by (simp add: keys run_bind few penv st1 st2 run_then run_outside deploy manifest finish_provision_def save_state_def
        write_last_runid_def)
qed

theorem up_then_down_leaves_no_pod_witness:
  "\<exists>st h1 h3. up_command prompt_cloud vc_environ (\<lambda>p. Inr example_raw) ''r'' [''c.toml''] (empty_host []) = (Inr st, h1) \<and>
    down_command prompt_cloud vc_environ [state_path ''r''] h1 = (Inr (), h3) \<and> world h3 = []"
proof -
  have cfg: "res_bind (Inr example_raw) (\<lambda>doc. load_str doc (map_of vc_environ ''MECHANISM'')) = Inr example_config"
    and wf: "dict_wf (cfg_overlap example_config)" and name: "cfg_mechanism example_config = ''shim''"
    by code_simp+
  obtain st h0 where "shim_provision prompt_cloud vc_environ example_config ''r'' (empty_host []) = (Inr st, h0)"
    using prompt_provision by blast
  then have "up_main prompt_cloud vc_environ (snd (mechanisms prompt_cloud vc_environ ! 0)) example_config ''r''
      (empty_host []) = (Inr st, h0)"
    by (simp add: up_main_def run_try mechanisms_def)
  moreover have "get_mechanism prompt_cloud vc_environ ''shim'' = Inr (snd (mechanisms prompt_cloud vc_environ ! 0))"
    by (simp add: get_mechanism_def mechanisms_def)
  ultimately obtain h1 where up: "up_command prompt_cloud vc_environ (\<lambda>p. Inr example_raw) ''r'' [''c.toml''] (empty_host []) = (Inr st, h1)"
    using cfg name by (simp add: up_command_def run_bind run_then print_line_def)
  obtain h3 where "down_command prompt_cloud vc_environ [state_path ''r''] h1 = (Inr (), h3)" "set (world h3) \<subseteq> {}"
    using up_then_down_leaves_no_pod [OF prompt_cloud_tracks wf cfg name up refl subset_refl]
    by (auto simp: prompt_cloud_stuck empty_host_def)
  then show ?thesis using up by auto
qed

end
