(* ===== verification/Moves.thy ===== *)
theory Moves
  imports Main
begin

text \<open>
  Systems that make one move at a time: a partial function says which moves a state allows,
  \<open>move_steps\<close> is a run of \<open>n\<close> moves. The locale \<open>shrinking\<close> is the contract of a system whose
  moves make a measure smaller and that can move until it is finished: all its runs are
  bounded, and each can be continued to a finished state.
\<close>

inductive move_steps :: "('m \<Rightarrow> 's \<Rightarrow> 's option) \<Rightarrow> 's \<Rightarrow> nat \<Rightarrow> 's \<Rightarrow> bool" for step where
  no_move [intro]: "move_steps step s 0 s"
| one_more [intro]: "move_steps step s n s' \<Longrightarrow> step m s' = Some s'' \<Longrightarrow> move_steps step s (Suc n) s''"

inductive_cases no_move_cases: "move_steps step s 0 s'"
inductive_cases one_more_cases: "move_steps step s (Suc n) s'"

lemma move_first: "step m s = Some s' \<Longrightarrow> move_steps step s' n s'' \<Longrightarrow> move_steps step s (Suc n) s''"
  by (rotate_tac, induction rule: move_steps.induct) blast+

text \<open>An invariant of the moves is one of the runs.\<close>

lemma move_steps_invariant:
  assumes "move_steps step s n s'" and "P s"
    and "\<And>m s s'. P s \<Longrightarrow> step m s = Some s' \<Longrightarrow> P s'"
  shows "P s'"
  using assms by (induction rule: move_steps.induct) blast+

text \<open>The states a list of moves leads to.\<close>

fun play :: "('m \<Rightarrow> 's \<Rightarrow> 's option) \<Rightarrow> 'm list \<Rightarrow> 's \<Rightarrow> 's option" where
  "play step [] s = Some s"
| "play step (m # ms) s = (case step m s of None \<Rightarrow> None | Some s' \<Rightarrow> play step ms s')"

lemma play_steps: "play step ms s = Some s' \<Longrightarrow> move_steps step s (length ms) s'"
  by (induction ms arbitrary: s) (auto split: option.splits intro: move_first)

locale shrinking =
  fixes step :: "'m \<Rightarrow> 's \<Rightarrow> 's option" and measured :: "'s \<Rightarrow> nat" and finished :: "'s \<Rightarrow> bool"
  assumes shrinks: "step m s = Some s' \<Longrightarrow> measured s' < measured s"
    and moves_until_finished: "\<not> finished s \<Longrightarrow> \<exists>m s'. step m s = Some s'"
begin

lemma run_bounded: "move_steps step s n s' \<Longrightarrow> n + measured s' \<le> measured s"
  by (induction rule: move_steps.induct) (use shrinks in fastforce)+

lemma can_finish: "\<exists>n s'. move_steps step s n s' \<and> finished s'"
proof (induction "measured s" arbitrary: s rule: less_induct)
  case less
  show ?case
  proof (cases "finished s")
    case False
    then obtain m s1 where "step m s = Some s1" using moves_until_finished by blast
    then show ?thesis using less [OF shrinks] move_first by metis
  qed blast
qed

end

end
