(* ===== verification/Scrape.thy ===== *)
theory Scrape
  imports Mechanisms Moves
begin

text \<open>
  \<open>harvest/scrape.py\<close>: the parser of the Prometheus text format, one scrape of a pod, and the
  loop that collects samples until it is interrupted, as a machine whose interrupt can come
  at any point. Texts are ASCII here: of the line ends and word characters of Python those
  in ASCII are modelled. A value is a rational number or one of the three that \<open>float\<close> has besides.
\<close>

section \<open>Floating-point literals\<close>

datatype py_float = Fin rat | Pos_inf | Neg_inf | Not_a_number

instantiation py_float :: uminus
begin

fun uminus_py_float :: "py_float \<Rightarrow> py_float" where
  "- Fin x = Fin (- x)"
| "- Pos_inf = Neg_inf"
| "- Neg_inf = Pos_inf"
| "- Not_a_number = Not_a_number"

instance ..

end

definition is_digit :: "char \<Rightarrow> bool" where
  "is_digit x \<longleftrightarrow> digit_val x \<noteq> None"

text \<open>Digits with single underscores between them, and the rest of the text.\<close>

fun digit_part :: "bool \<Rightarrow> string \<Rightarrow> string \<times> string" where
  "digit_part after_digit [] = ([], [])"
| "digit_part after_digit (x # s) =
    (if is_digit x then (x # fst (digit_part True s), snd (digit_part True s))
     else if x = CHR ''_'' \<and> after_digit \<and> s \<noteq> [] \<and> is_digit (hd s) then digit_part True s
     else ([], x # s))"

definition digits_value :: "string \<Rightarrow> nat" where
  "digits_value s = fold (\<lambda>x n. 10 * n + (case digit_val x of None \<Rightarrow> 0 | Some d \<Rightarrow> d)) s 0"

definition read_sign :: "string \<Rightarrow> bool \<times> string" where
  "read_sign s = (case s of
      [] \<Rightarrow> (False, [])
    | x # t \<Rightarrow> if x = CHR ''-'' then (True, t) else if x = CHR ''+'' then (False, t) else (False, s))"

text \<open>An exponent (or nothing) that is the whole of the rest.\<close>

definition read_exponent :: "string \<Rightarrow> int option" where
  "read_exponent s = (case s of
      [] \<Rightarrow> Some 0
    | x # t \<Rightarrow>
        if x = CHR ''e'' \<or> x = CHR ''E''
        then (let (neg, ds) = read_sign t; (digits, rest) = digit_part False ds
              in if digits = [] \<or> rest \<noteq> [] then None
                 else Some (if neg then - int (digits_value digits) else int (digits_value digits)))
        else None)"

definition scale10 :: "int \<Rightarrow> rat" where
  "scale10 i = (if 0 \<le> i then 10 ^ nat i else 1 / 10 ^ nat (- i))"

definition read_decimal :: "string \<Rightarrow> rat option" where
  "read_decimal s =
    (let (whole, r1) = digit_part False s;
         (part, r2) = (case r1 of [] \<Rightarrow> ([], []) | x # t \<Rightarrow> if x = CHR ''.'' then digit_part False t else ([], r1))
     in if whole = [] \<and> part = [] then None
        else map_option (\<lambda>e. of_nat (digits_value (whole @ part)) * scale10 (e - int (length part)))
               (read_exponent r2))"

definition float_of_text :: "string \<Rightarrow> py_float res" where
  "float_of_text text =
    (let (neg, s) = read_sign (strip_text text); low = lower_text s;
         signed = (\<lambda>x. if neg then - x else x)
     in if low = ''inf'' \<or> low = ''infinity'' then Inr (signed Pos_inf)
        else if low = ''nan'' then Inr Not_a_number
        else case read_decimal s of
               Some x \<Rightarrow> Inr (signed (Fin x))
             | None \<Rightarrow> Inl (ValueError (''could not convert string to float: '' @ py_repr text)))"

section \<open>The text format\<close>

definition is_break :: "char \<Rightarrow> bool" where
  "is_break x = (let n = of_char x :: nat in (10 \<le> n \<and> n \<le> 13) \<or> (28 \<le> n \<and> n \<le> 30))"

text \<open>\<open>text.splitlines()\<close>; a carriage return with a line feed is one end.\<close>

fun lines_from :: "string \<Rightarrow> string \<Rightarrow> string list" where
  "lines_from cur [] = (if cur = [] then [] else [cur])"
| "lines_from cur (x # s) =
    (if is_break x
     then cur # lines_from [] (if x = CHR 0x0D \<and> s \<noteq> [] \<and> hd s = CHR 0x0A then tl s else s)
     else lines_from (cur @ [x]) s)"

definition split_lines :: "string \<Rightarrow> string list" where
  "split_lines text = lines_from [] text"

definition is_letter :: "char \<Rightarrow> bool" where
  "is_letter x = (let n = of_char x :: nat in (65 \<le> n \<and> n \<le> 90) \<or> (97 \<le> n \<and> n \<le> 122))"

definition word_char :: "char \<Rightarrow> bool" where
  "word_char x \<longleftrightarrow> is_letter x \<or> is_digit x \<or> x = CHR ''_''"

definition name_start :: "char \<Rightarrow> bool" where
  "name_start x \<longleftrightarrow> is_letter x \<or> x = CHR ''_'' \<or> x = CHR '':''"

definition name_char :: "char \<Rightarrow> bool" where
  "name_char x \<longleftrightarrow> word_char x \<or> x = CHR '':''"

text \<open>
  What \<open>_LINE\<close> matches: a name, the text between braces (up to the first closing one), the
  value. No step can match in two ways, so there is no backtracking.
\<close>

definition match_value :: "string \<Rightarrow> string option" where
  "match_value s =
    (let t = dropWhile is_space s; v = takeWhile (\<lambda>x. \<not> is_space x) t
     in if s \<noteq> [] \<and> is_space (hd s) \<and> v \<noteq> [] \<and> list_all is_space (drop (length v) t) then Some v else None)"

definition match_line :: "string \<Rightarrow> (string \<times> string \<times> string) option" where
  "match_line line =
    (let name = takeWhile name_char line; r = dropWhile name_char line
     in if name = [] \<or> \<not> name_start (hd name) then None
        else if r \<noteq> [] \<and> hd r = CHR ''{''
        then (if CHR ''}'' \<in> set (tl r)
              then map_option (\<lambda>v. (name, before_char CHR ''}'' (tl r), v)) (match_value (after_char CHR ''}'' (tl r)))
              else None)
        else map_option (\<lambda>v. (name, [], v)) (match_value r))"

text \<open>The quoted text of a label, up to the first quote that no backslash escapes.\<close>

fun scan_quoted :: "string \<Rightarrow> (string \<times> string) option" where
  "scan_quoted [] = None"
| "scan_quoted [x] = (if x = CHR 0x22 then Some ([], []) else None)"
| "scan_quoted (x # y # s) =
    (if x = CHR 0x22 then Some ([], y # s)
     else if x = CHR 0x5C then map_option (\<lambda>(v, r). (x # y # v, r)) (scan_quoted s)
     else map_option (\<lambda>(v, r). (x # v, r)) (scan_quoted (y # s)))"

definition match_label :: "string \<Rightarrow> (string \<times> string \<times> string) option" where
  "match_label s =
    (let k = takeWhile word_char s; r = dropWhile word_char s
     in if k \<noteq> [] \<and> take 2 r = [CHR ''='', CHR 0x22]
        then map_option (\<lambda>(v, rest). (k, v, rest)) (scan_quoted (drop 2 r)) else None)"

lemma scan_quoted_shorter: "scan_quoted s = Some (v, rest) \<Longrightarrow> length rest < length s"
  by (induction s arbitrary: v rest rule: scan_quoted.induct) (force split: if_splits)+

lemma match_label_shorter: "match_label s = Some (k, v, rest) \<Longrightarrow> length rest < length s"
proof -
  assume "match_label s = Some (k, v, rest)"
  then have "scan_quoted (drop 2 (dropWhile word_char s)) = Some (v, rest)"
    by (auto simp: match_label_def Let_def split: if_splits)
  then have "length rest < length (dropWhile word_char s)"
    using scan_quoted_shorter by fastforce
  then show ?thesis using length_dropWhile_le [of word_char s] by simp
qed

text \<open>\<open>_LBL.findall\<close>: the matches from left to right, each after the one before.\<close>

function find_labels :: "string \<Rightarrow> (string \<times> string) list" where
  "find_labels [] = []"
| "find_labels (x # s) =
    (case match_label (x # s) of
       None \<Rightarrow> find_labels s
     | Some (k, v, rest) \<Rightarrow> (k, v) # find_labels rest)"
  by pat_completeness auto
termination
  by (relation "measure length") (auto dest: match_label_shorter)

record sample =
  sa_name :: string
  sa_labels :: "(string, string) pydict"
  sa_value :: py_float

definition parse_line :: "string \<Rightarrow> sample option" where
  "parse_line raw =
    (let line = strip_text raw
     in if line = [] \<or> starts_with ''#'' line then None
        else case match_line line of
               None \<Rightarrow> None
             | Some (name, labels, v) \<Rightarrow>
                 (case float_of_text v of
                    Inl e \<Rightarrow> None
                  | Inr x \<Rightarrow> Some \<lparr>sa_name = name, sa_labels = dict_update [] (find_labels labels), sa_value = x\<rparr>))"

definition parse_prometheus :: "string \<Rightarrow> sample list" where
  "parse_prometheus text = List.map_filter parse_line (split_lines text)"

section \<open>Reading back what an exporter writes\<close>

lemma split_lines_ended:
  assumes "list_all (\<lambda>l. list_all (\<lambda>x. \<not> is_break x) l) ls"
  shows "split_lines (concat (map (\<lambda>l. l @ [CHR 0x0A]) ls)) = ls"
proof -
  have one: "lines_from cur (l @ CHR 0x0A # s) = (cur @ l) # lines_from [] s"
    if "list_all (\<lambda>x. \<not> is_break x) l" for cur l s
    using that
  proof (induction l arbitrary: cur)
    case Nil
    show ?case by (simp add: is_break_def)
  qed (simp add: list_all_iff)
  show ?thesis using assms unfolding split_lines_def by (induction ls) (simp_all add: one)
qed

lemma char_kinds:
  "name_start x \<Longrightarrow> \<not> is_space x" "name_start x \<Longrightarrow> name_char x" "name_start x \<Longrightarrow> x \<noteq> CHR ''#''"
  "\<not> name_char CHR '' ''" "\<not> name_char CHR ''{''" "\<not> word_char CHR ''=''" "\<not> word_char CHR '',''"
  "is_space CHR '' ''"
  by (auto simp: name_start_def name_char_def word_char_def is_letter_def is_digit_def is_space_def digit_val_def
      Let_def)

lemma take_while_run: "list_all P xs \<Longrightarrow> ys = [] \<or> \<not> P (hd ys) \<Longrightarrow> takeWhile P (xs @ ys) = xs"
  and drop_while_run: "list_all P xs \<Longrightarrow> ys = [] \<or> \<not> P (hd ys) \<Longrightarrow> dropWhile P (xs @ ys) = ys"
  by (induction xs) (cases ys; auto)+

lemma match_value_text:
  assumes "v \<noteq> []" and "list_all (\<lambda>x. \<not> is_space x) v"
  shows "match_value (CHR '' '' # v) = Some v"
proof -
  have "dropWhile is_space v = v" using assms by (cases v) auto
  moreover have "takeWhile (\<lambda>x. \<not> is_space x) v = v" using assms take_while_run [of "\<lambda>x. \<not> is_space x" v "[]"] by simp
  ultimately show ?thesis using assms by (simp add: match_value_def char_kinds Let_def list_all_iff takeWhile_eq_all_conv [THEN iffD2])
qed

lemma scan_quoted_plain:
  "list_all (\<lambda>x. x \<noteq> CHR 0x22 \<and> x \<noteq> CHR 0x5C) v \<Longrightarrow> scan_quoted (v @ CHR 0x22 # rest) = Some (v, rest)"
proof (induction v)
  case Nil
  show ?case by (cases rest) simp_all
next
  case (Cons x v)
  then show ?case by (cases v) simp_all
qed

definition label_text :: "string \<times> string \<Rightarrow> string" where
  "label_text kv = fst kv @ [CHR ''='', CHR 0x22] @ snd kv @ [CHR 0x22]"

definition clean_label :: "string \<times> string \<Rightarrow> bool" where
  "clean_label kv \<longleftrightarrow> fst kv \<noteq> [] \<and> list_all word_char (fst kv) \<and>
     list_all (\<lambda>x. x \<noteq> CHR 0x22 \<and> x \<noteq> CHR 0x5C \<and> x \<noteq> CHR ''}'' \<and> \<not> is_break x) (snd kv)"

lemma match_label_text:
  assumes "clean_label kv"
  shows "match_label (label_text kv @ rest) = Some (fst kv, snd kv, rest)"
proof -
  have "takeWhile word_char (fst kv @ CHR ''='' # CHR 0x22 # t) = fst kv"
      "dropWhile word_char (fst kv @ CHR ''='' # CHR 0x22 # t) = CHR ''='' # CHR 0x22 # t" for t
    using assms by (auto simp: clean_label_def char_kinds intro!: take_while_run drop_while_run)
  moreover have "scan_quoted (snd kv @ CHR 0x22 # rest) = Some (snd kv, rest)"
    using assms by (intro scan_quoted_plain) (auto simp: clean_label_def list_all_iff)
  ultimately show ?thesis
    using assms by (simp add: match_label_def label_text_def clean_label_def Let_def numeral_2_eq_2)
qed

lemma find_labels_match: "match_label s = Some (k, v, rest) \<Longrightarrow> find_labels s = (k, v) # find_labels rest"
  by (cases s) (simp_all add: match_label_def)

lemma find_labels_text: "list_all clean_label kvs \<Longrightarrow> find_labels (join_text '','' (map label_text kvs)) = kvs"
proof (induction kvs rule: induct_list012)
  case (2 kv)
  then show ?case using find_labels_match [OF match_label_text [of kv "[]"]] by simp
next
  case (3 kv lw kvs)
  have comma: "find_labels (CHR '','' # t) = find_labels t" for t
    by (simp add: match_label_def char_kinds)
  show ?case
    using find_labels_match [OF match_label_text [of kv "CHR '','' # join_text '','' (map label_text (lw # kvs))"]] 3
    by (simp add: comma del: find_labels.simps)
qed simp

text \<open>A line of the format: a comment, or the name, labels and value of a sample.\<close>

type_synonym exposed = "string + string \<times> (string \<times> string) list \<times> string"

fun line_text :: "exposed \<Rightarrow> string" where
  "line_text (Inl s) = CHR ''#'' # s"
| "line_text (Inr (name, labels, v)) =
    name @ (if labels = [] then [] else ''{'' @ join_text '','' (map label_text labels) @ ''}'') @ '' '' @ v"

fun clean_line :: "exposed \<Rightarrow> bool" where
  "clean_line (Inl s) = list_all (\<lambda>x. \<not> is_break x) s"
| "clean_line (Inr (name, labels, v)) =
    (name \<noteq> [] \<and> name_start (hd name) \<and> list_all name_char name \<and> list_all clean_label labels \<and> dict_wf labels \<and>
     v \<noteq> [] \<and> list_all (\<lambda>x. \<not> is_space x) v)"

fun line_sample :: "exposed \<Rightarrow> sample option" where
  "line_sample (Inl s) = None"
| "line_sample (Inr (name, labels, v)) =
    (case float_of_text v of Inl e \<Rightarrow> None | Inr x \<Rightarrow> Some \<lparr>sa_name = name, sa_labels = labels, sa_value = x\<rparr>)"

lemma word_not_break: "word_char x \<Longrightarrow> \<not> is_break x \<and> x \<noteq> CHR ''}''"
proof -
  assume "word_char x"
  then have "(of_char x :: nat) = 95 \<or> (48 \<le> (of_char x :: nat) \<and> (of_char x :: nat) \<le> 57) \<or>
      (65 \<le> (of_char x :: nat) \<and> (of_char x :: nat) \<le> 90) \<or> (97 \<le> (of_char x :: nat) \<and> (of_char x :: nat) \<le> 122)"
    by (auto simp: word_char_def is_letter_def is_digit_def digit_val_def Let_def split: if_splits)
  moreover have "(of_char (CHR ''}'') :: nat) = 125" by simp
  ultimately show ?thesis by (auto simp: is_break_def Let_def)
qed

lemma not_break: "name_char x \<Longrightarrow> \<not> is_break x" "\<not> is_space x \<Longrightarrow> \<not> is_break x"
  using word_not_break by (auto simp: name_char_def is_space_def is_break_def Let_def)

lemma clean_label_line: "clean_label kv \<Longrightarrow> list_all (\<lambda>x. x \<noteq> CHR ''}'' \<and> \<not> is_break x) (label_text kv)"
proof -
  assume kv: "clean_label kv"
  then have "list_all (\<lambda>x. x \<noteq> CHR ''}'' \<and> \<not> is_break x) (fst kv)"
    using word_not_break by (auto simp: clean_label_def list_all_iff)
  moreover have "list_all (\<lambda>x. x \<noteq> CHR ''}'' \<and> \<not> is_break x) (snd kv)"
    using kv by (auto simp: clean_label_def list_all_iff)
  ultimately show ?thesis by (simp add: label_text_def is_break_def)
qed

lemma clean_labels_text:
  "list_all clean_label kvs \<Longrightarrow> list_all (\<lambda>x. x \<noteq> CHR ''}'' \<and> \<not> is_break x) (join_text '','' (map label_text kvs))"
proof (induction kvs rule: induct_list012)
  case (2 kv)
  then show ?case using clean_label_line by simp
next
  case (3 kv lw kvs)
  then show ?case using clean_label_line [of kv] by (simp add: is_break_def)
qed simp

lemma dict_update_Nil: "dict_wf d \<Longrightarrow> dict_update [] d = d"
proof -
  have "dict_wf (e @ d) \<Longrightarrow> dict_update e d = e @ d" for e
    by (induction d arbitrary: e) (auto simp: update_fresh dict_wf_def)
  from this [of "[]"] show "dict_wf d \<Longrightarrow> dict_update [] d = d" by simp
qed

lemma line_text_breaks:
  assumes "clean_line l"
  shows "list_all (\<lambda>x. \<not> is_break x) (line_text l)"
proof (cases l)
  case (Inl s)
  then show ?thesis using assms by (simp add: is_break_def)
next
  case (Inr r)
  obtain name labels v where r: "r = (name, labels, v)" by (cases r)
  have "list_all (\<lambda>x. \<not> is_break x) name" "list_all (\<lambda>x. \<not> is_break x) v"
    using assms not_break by (auto simp: Inr r list_all_iff)
  moreover have "list_all (\<lambda>x. \<not> is_break x) (join_text '','' (map label_text labels))"
    using clean_labels_text [of labels] assms by (auto simp: Inr r list_all_iff)
  ultimately show ?thesis by (simp add: Inr r is_break_def)
qed

lemma match_line_text:
  assumes "clean_line (Inr (name, labels, v))"
  shows "match_line (line_text (Inr (name, labels, v))) =
    Some (name, join_text '','' (map label_text labels), v)"
proof -
  have run: "takeWhile name_char (name @ x # t) = name" "dropWhile name_char (name @ x # t) = x # t"
    if "\<not> name_char x" for x t
    using assms that by (auto intro!: take_while_run drop_while_run)
  have v: "match_value (CHR '' '' # v) = Some v"
    using assms by (intro match_value_text) simp_all
  have name: "\<not> (name = [] \<or> \<not> name_start (hd name))" using assms by simp
  show ?thesis
  proof (cases "labels = []")
    case True
    then have line: "line_text (Inr (name, labels, v)) = name @ CHR '' '' # v" by simp
    show ?thesis
      unfolding match_line_def line run [OF char_kinds(4)] Let_def if_not_P [OF name]
      using v True by simp
  next
    case False
    let ?labels = "join_text '','' (map label_text labels)"
    have line: "line_text (Inr (name, labels, v)) = name @ CHR ''{'' # ?labels @ CHR ''}'' # CHR '' '' # v"
      using False by simp
    have "CHR ''}'' \<notin> set ?labels"
      using clean_labels_text [of labels] assms by (auto simp: list_all_iff)
    then show ?thesis
      unfolding match_line_def line run [OF char_kinds(5)] Let_def if_not_P [OF name]
      using v by simp
  qed
qed

lemma parse_line_text: "clean_line l \<Longrightarrow> parse_line (line_text l) = line_sample l"
proof (cases l)
  case (Inl s)
  obtain t where "strip_text (CHR ''#'' # s) = CHR ''#'' # t"
  proof -
    have "dropWhile is_space (CHR ''#'' # s) = CHR ''#'' # s" by (simp add: is_space_def)
    moreover have "dropWhile is_space (rev s @ [CHR ''#'']) = dropWhile is_space (rev s) @ [CHR ''#'']"
      by (induction "rev s" arbitrary: s rule: list.induct)
        (auto simp: dropWhile_append3 dropWhile_append is_space_def)
    ultimately show thesis using that by (simp add: strip_text_def)
  qed
  then show ?thesis by (simp add: Inl parse_line_def starts_with_def)
next
  case (Inr r)
  assume clean: "clean_line l"
  obtain name labels v where l: "l = Inr (name, labels, v)" using Inr by (cases r) simp
  have clean: "clean_line (Inr (name, labels, v))" using clean l by simp
  then obtain x s where name: "name = x # s" "name_start x" by (cases name) auto
  have "v \<noteq> []" "\<not> is_space (last v)" using clean by (auto simp: list_all_iff)
  then have strip: "strip_text (line_text (Inr (name, labels, v))) = line_text (Inr (name, labels, v))"
    using char_kinds(1) [OF name(2)] by (intro strip_text_id) (simp_all add: name)
  have "\<not> (line_text (Inr (name, labels, v)) = [] \<or> starts_with ''#'' (line_text (Inr (name, labels, v))))"
    using char_kinds(3) [OF name(2)] by (simp add: name starts_with_def)
  moreover have "find_labels (join_text '','' (map label_text labels)) = labels" "dict_update [] labels = labels"
    using clean find_labels_text [of labels] dict_update_Nil [of labels] by simp_all
  ultimately show ?thesis
    unfolding parse_line_def l Let_def strip by (simp add: match_line_text [OF clean] del: line_text.simps split: sum.split)
qed

text \<open>C18: The parser reads back the text format: of a text whose lines are comments and samples, with labels
  and values as an exporter writes them, it returns every sample whose value is a number, in order, with its
  name, its labels and its value, and nothing else.\<close>

theorem parse_prometheus_exposition:
  assumes "list_all clean_line ls"
  shows "parse_prometheus (concat (map (\<lambda>l. line_text l @ [CHR 0x0A]) ls)) = List.map_filter line_sample ls"
proof -
  have "list_all (\<lambda>l. list_all (\<lambda>x. \<not> is_break x) l) (map line_text ls)"
    using assms line_text_breaks by (auto simp: list_all_iff)
  from split_lines_ended [OF this]
  have "parse_prometheus (concat (map (\<lambda>l. line_text l @ [CHR 0x0A]) ls)) = List.map_filter parse_line (map line_text ls)"
    by (simp add: parse_prometheus_def comp_def)
  also have "\<dots> = List.map_filter line_sample ls"
    using assms by (induction ls) (simp_all add: List.map_filter_def parse_line_text)
  finally show ?thesis .
qed

text \<open>The witness has the shapes of the shim's own output: a comment, a counter, a bucket of a histogram, an exponent.\<close>

definition demo_exposition :: "exposed list" where
  "demo_exposition = [Inl '' TYPE xet_wan_bytes_total counter'', Inr (''xet_wan_bytes_total'', [], ''1.5e+01''),
     Inr (''h_bucket'', [(''phase'', ''a b''), (''le'', ''+Inf'')], ''3''), Inr (''x'', [], ''n/a'')]"

lemma demo_exposition_samples: "List.map_filter line_sample demo_exposition =
    [\<lparr>sa_name = ''xet_wan_bytes_total'', sa_labels = [], sa_value = Fin 15\<rparr>,
     \<lparr>sa_name = ''h_bucket'', sa_labels = [(''phase'', ''a b''), (''le'', ''+Inf'')], sa_value = Fin 3\<rparr>]"
  by code_simp

theorem parse_prometheus_exposition_witness:
  "parse_prometheus (concat (map (\<lambda>l. line_text l @ [CHR 0x0A]) demo_exposition)) =
    [\<lparr>sa_name = ''xet_wan_bytes_total'', sa_labels = [], sa_value = Fin 15\<rparr>,
     \<lparr>sa_name = ''h_bucket'', sa_labels = [(''phase'', ''a b''), (''le'', ''+Inf'')], sa_value = Fin 3\<rparr>]"
proof -
  have "list_all clean_line demo_exposition" by code_simp
  from parse_prometheus_exposition [OF this] show ?thesis unfolding demo_exposition_samples .
qed

text \<open>What the format allows and the parser drops without a word: a sample with a time stamp, and one with a closing
  brace in a label.\<close>

theorem parse_prometheus_drops:
  "parse_prometheus ''xet_wan_bytes_total 5 1395066363000'' = []"
  "parse_prometheus (''x{path='' @ [CHR 0x22] @ ''a}b'' @ [CHR 0x22] @ ''} 5'') = []"
  by code_simp+

section \<open>The loop over the pods\<close>

record scraped =
  sc_pod :: string
  sc_ts :: rat
  sc_sample :: sample

text \<open>The network and the disk; \<open>fetch_metrics\<close> is the request with the decoding of the answer.\<close>

record 'e scrape_env =
  fetch_metrics :: "string \<Rightarrow> ('e, string) io"
  scrape_clock :: "'e \<Rightarrow> rat"
  write_table :: "scraped list \<Rightarrow> ('e, unit) io"

definition scrape_once :: "'e scrape_env \<Rightarrow> string \<Rightarrow> string \<Rightarrow> ('e, scraped list) io" where
  "scrape_once env pod_id addr =
    bind_call (fetch_metrics env (addr @ ''/metrics/prometheus'')) (\<lambda>text.
    bind_call (look (scrape_clock env)) (\<lambda>ts.
      pure (map (\<lambda>r. \<lparr>sc_pod = pod_id, sc_ts = ts, sc_sample = r\<rparr>) (parse_prometheus text))))"

definition write_metrics :: "'e scrape_env \<Rightarrow> scraped list \<Rightarrow> string \<Rightarrow> ('e, string) io" where
  "write_metrics env buf out =
    then_call (write_table env buf) (pure (''wrote '' @ str_nat (length buf) @ '' rows -> '' @ out))"

text \<open>Where \<open>main\<close> is: in the round over the pods, before the write, before the sleep, or over.\<close>

datatype scrape_phase =
    Round "(string \<times> string) list"
  | Write_out
  | Nap
  | Stopped
  | Crashed pyerr

record 'e scraper =
  buf :: "scraped list"
  table_file :: "scraped list option"
  phase_of :: scrape_phase
  said :: "string list"
  scrape_world :: 'e

datatype scrape_event = Go_on | Keyboard_interrupt

text \<open>One step of the loop; an interrupt (or SIGTERM, which raises the same) flushes and ends it, wherever it was.\<close>

fun scrape_step ::
  "'e scrape_env \<Rightarrow> (string \<times> string) list \<Rightarrow> string \<Rightarrow> scrape_event \<Rightarrow> 'e scraper \<Rightarrow> 'e scraper option"
where
  "scrape_step env addrs out Go_on s = (case phase_of s of
      Round [] \<Rightarrow> Some (s\<lparr>phase_of := (if buf s \<noteq> [] then Write_out else Nap)\<rparr>)
    | Round ((pid, a) # rest) \<Rightarrow>
        if a = [] then Some (s\<lparr>phase_of := Round rest\<rparr>)
        else (case scrape_once env pid a (scrape_world s) of
            (Inr rws, w) \<Rightarrow> Some (s\<lparr>buf := buf s @ rws, phase_of := Round rest, scrape_world := w\<rparr>)
          | (Inl e, w) \<Rightarrow> Some (s\<lparr>phase_of := Round rest, scrape_world := w,
              said := said s @ [''scrape: '' @ pid @ '' scrape failed: '' @ err_text e]\<rparr>))
    | Write_out \<Rightarrow> (case write_metrics env (buf s) out (scrape_world s) of
          (Inr msg, w) \<Rightarrow> Some (s\<lparr>table_file := Some (buf s), phase_of := Nap, scrape_world := w\<rparr>)
        | (Inl e, w) \<Rightarrow> Some (s\<lparr>phase_of := Crashed e, scrape_world := w\<rparr>))
    | Nap \<Rightarrow> Some (s\<lparr>phase_of := Round addrs\<rparr>)
    | Stopped \<Rightarrow> None
    | Crashed e \<Rightarrow> None)"
| "scrape_step env addrs out Keyboard_interrupt s = (case phase_of s of
      Stopped \<Rightarrow> None
    | Crashed e \<Rightarrow> None
    | _ \<Rightarrow>
        if buf s \<noteq> []
        then (case write_metrics env (buf s) out (scrape_world s) of
            (Inr msg, w) \<Rightarrow> Some (s\<lparr>table_file := Some (buf s), phase_of := Stopped, scrape_world := w, said := said s @ [msg]\<rparr>)
          | (Inl e, w) \<Rightarrow> Some (s\<lparr>phase_of := Crashed e, scrape_world := w\<rparr>))
        else Some (s\<lparr>phase_of := Stopped, said := said s @ [''scrape: no metrics collected'']\<rparr>))"

definition scrape_start :: "(string \<times> string) list \<Rightarrow> string list \<Rightarrow> 'e \<Rightarrow> 'e scraper" where
  "scrape_start addrs lines w = \<lparr>buf = [], table_file = None, phase_of = Round addrs, said = lines, scrape_world = w\<rparr>"

text \<open>\<open>main\<close> up to the loop: a mechanism without metrics ends it at once (\<open>None\<close>).\<close>

definition scrape_main ::
  "'c cloud \<Rightarrow> environment \<Rightarrow> provision_state \<Rightarrow> config \<Rightarrow> string option \<Rightarrow> 'e \<Rightarrow> (int \<times> string \<times> 'e scraper) option res"
where
  "scrape_main c environ st cfg override w =
    res_bind (get_mechanism c environ (st_mechanism st)) (\<lambda>mech.
      if \<not> mech_has_metrics mech then Inr None
      else res_bind (case override of None \<Rightarrow> Inr (cfg_scrape_interval_s cfg) | Some t \<Rightarrow> int_of_text t) (\<lambda>interval.
        let addrs = st_metrics_urls st;
            out = ''data/pod-metrics-'' @ st_runid st @ ''.parquet'';
            line = ''scrape: '' @ str_nat (length (filter (\<lambda>a. snd a \<noteq> []) addrs)) @ '' pods, interval '' @
              str_int interval @ ''s -> '' @ out
        in Inr (Some (interval, out, scrape_start addrs [line] w))))"

section \<open>No sample is lost\<close>

definition written :: "'e scraper \<Rightarrow> bool" where
  "written s \<longleftrightarrow> buf s = (case table_file s of None \<Rightarrow> [] | Some rws \<Rightarrow> rws)"

text \<open>What every state of the loop satisfies: the file holds the samples of the rounds before this one.\<close>

definition scrape_inv :: "'e scraper \<Rightarrow> bool" where
  "scrape_inv s \<longleftrightarrow>
    (\<exists>new. buf s = (case table_file s of None \<Rightarrow> [] | Some rws \<Rightarrow> rws) @ new) \<and>
    (case phase_of s of Nap \<Rightarrow> written s | Stopped \<Rightarrow> written s | _ \<Rightarrow> True)"

lemma scrape_step_inv:
  assumes "scrape_inv s" and "scrape_step env addrs out m s = Some s'"
  shows "scrape_inv s'"
proof (cases m)
  case Go_on
  show ?thesis
  proof (cases "phase_of s")
    case (Round ps)
    show ?thesis
    proof (cases ps)
      case Nil
      then have "s' = s\<lparr>phase_of := (if buf s \<noteq> [] then Write_out else Nap)\<rparr>"
        using assms(2) Go_on Round by simp
      then show ?thesis using assms(1) by (auto simp: scrape_inv_def written_def Round)
    next
      case (Cons p rest)
      then obtain pid a where p: "ps = (pid, a) # rest" by (cases p) auto
      have "(\<exists>new. buf s' = buf s @ new) \<and> table_file s' = table_file s \<and> phase_of s' = Round rest"
      proof (cases "a = []")
        case True
        then show ?thesis using assms(2) Go_on Round p by auto
      next
        case False
        obtain r w where r: "scrape_once env pid a (scrape_world s) = (r, w)" by force
        then show ?thesis using assms(2) Go_on Round p False by (cases r) auto
      qed
      then show ?thesis using assms(1) by (auto simp: scrape_inv_def written_def)
    qed
  qed (use assms Go_on in \<open>auto simp: scrape_inv_def written_def split: prod.splits sum.splits\<close>)
next
  case Keyboard_interrupt
  obtain r w where r: "write_metrics env (buf s) out (scrape_world s) = (r, w)" by force
  have "\<not> (phase_of s = Stopped \<or> (\<exists>e. phase_of s = Crashed e))"
    using assms(2) Keyboard_interrupt by auto
  then have "Some s' = (if buf s \<noteq> []
        then (case write_metrics env (buf s) out (scrape_world s) of
            (Inr msg, w) \<Rightarrow> Some (s\<lparr>table_file := Some (buf s), phase_of := Stopped, scrape_world := w, said := said s @ [msg]\<rparr>)
          | (Inl e, w) \<Rightarrow> Some (s\<lparr>phase_of := Crashed e, scrape_world := w\<rparr>))
        else Some (s\<lparr>phase_of := Stopped, said := said s @ [''scrape: no metrics collected'']\<rparr>))"
    using assms(2) Keyboard_interrupt by (cases "phase_of s") auto
  then have "buf s' = buf s \<and> (phase_of s' = Stopped \<and> table_file s' = Some (buf s) \<or>
      table_file s' = table_file s \<and> ((\<exists>e. phase_of s' = Crashed e) \<or> phase_of s' = Stopped \<and> buf s = []))"
    using r by (cases r) (auto split: if_splits)
  then show ?thesis using assms(1) by (auto simp: scrape_inv_def written_def split: option.splits)
qed

text \<open>C17: However and whenever the scraper is interrupted, the file holds every sample that was collected; whatever kills
  it otherwise, the file holds a prefix, and all of them between two rounds.\<close>

theorem scraper_keeps_samples:
  assumes "move_steps (scrape_step env addrs out) (scrape_start addrs lines w) n s"
  shows "prefix (case table_file s of None \<Rightarrow> [] | Some rws \<Rightarrow> rws) (buf s) \<and>
    (phase_of s \<in> {Stopped, Nap} \<and> buf s \<noteq> [] \<longrightarrow> table_file s = Some (buf s))"
proof -
  have "scrape_inv s"
    by (rule move_steps_invariant [OF assms _ scrape_step_inv]) (simp_all add: scrape_inv_def scrape_start_def)
  then show ?thesis by (auto simp: scrape_inv_def written_def prefix_def split: option.splits)
qed

text \<open>A pod that cannot be scraped is skipped: a round that is not interrupted asks every pod with an address, and ends
  with the samples of those that answered added to the buffer.\<close>

fun round_samples :: "'e scrape_env \<Rightarrow> (string \<times> string) list \<Rightarrow> 'e \<Rightarrow> scraped list \<times> 'e" where
  "round_samples env [] w = ([], w)"
| "round_samples env ((pid, a) # ps) w =
    (if a = [] then round_samples env ps w
     else case scrape_once env pid a w of
            (Inr rws, w') \<Rightarrow> (rws @ fst (round_samples env ps w'), snd (round_samples env ps w'))
          | (Inl e, w') \<Rightarrow> round_samples env ps w')"

theorem scrape_round_completes:
  "\<exists>lines. play (scrape_step env addrs out) (replicate (length ps) Go_on) (s\<lparr>phase_of := Round ps\<rparr>) =
    Some (s\<lparr>phase_of := Round [], buf := buf s @ fst (round_samples env ps (scrape_world s)),
            scrape_world := snd (round_samples env ps (scrape_world s)), said := lines\<rparr>)"
proof (induction ps arbitrary: s)
  case Nil
  show ?case by (intro exI [of _ "said s"]) simp
next
  case (Cons p ps)
  obtain pid a where p: "p = (pid, a)" by force
  obtain r w' where r: "scrape_once env pid a (scrape_world s) = (r, w')" by force
  show ?case
  proof (cases "a = []")
    case True
    then show ?thesis using Cons [of s] p by simp
  next
    case False
    show ?thesis
    proof (cases r)
      case (Inl e)
      show ?thesis
        using Cons [of "s\<lparr>scrape_world := w', said := said s @ [''scrape: '' @ pid @ '' scrape failed: '' @ err_text e]\<rparr>"]
          p r Inl False by (cases s) simp
    next
      case (Inr rws)
      show ?thesis using Cons [of "s\<lparr>buf := buf s @ rws, scrape_world := w'\<rparr>"] p r Inr False by (cases s) simp
    qed
  qed
qed


text \<open>A run over two pods of which one never answers, interrupted in its second round.\<close>

definition demo_scrape_env :: "rat scrape_env" where
  "demo_scrape_env = \<lparr>fetch_metrics = (\<lambda>u w. if u = ''h:1/metrics/prometheus'' then (Inr ''m 5'', w + 1)
      else (Inl (TimeoutError ''timed out''), w + 1)),
     scrape_clock = (\<lambda>w. w), write_table = (\<lambda>rws. pure ())\<rparr>"

definition demo_stopped :: "rat scraper" where
  "demo_stopped = the (play (scrape_step demo_scrape_env [(''A'', ''h:1''), (''B'', ''h:2'')] ''out'')
     (replicate 6 Go_on @ [Keyboard_interrupt]) (scrape_start [(''A'', ''h:1''), (''B'', ''h:2'')] [] 0))"

lemma demo_run_stops: "play (scrape_step demo_scrape_env [(''A'', ''h:1''), (''B'', ''h:2'')] ''out'')
     (replicate 6 Go_on @ [Keyboard_interrupt]) (scrape_start [(''A'', ''h:1''), (''B'', ''h:2'')] [] 0) = Some demo_stopped"
    "map sc_ts (buf demo_stopped) = [1, 3]" "phase_of demo_stopped = Stopped"
  by code_simp+

theorem scraper_keeps_samples_witness:
  "table_file demo_stopped = Some (buf demo_stopped) \<and> map sc_ts (buf demo_stopped) = [1, 3]"
proof -
  have "buf demo_stopped \<noteq> []" using demo_run_stops(2) by auto
  then show ?thesis
    using scraper_keeps_samples [OF play_steps [OF demo_run_stops(1)]] demo_run_stops(2,3) by simp
qed

end
