(* ===== verification/Crossdc.thy ===== *)
theory Crossdc
  imports Pod_Leaks Scrape
begin

text \<open>
  \<open>experiments/crossdc.py\<close>: two peered cache pods in two datacenters, a pull that warms the
  second, a measured cold pull through the first, and the numbers of it. The pulls (a process
  of its own) and the metrics requests are parameters.
\<close>

section \<open>The experiment\<close>

text \<open>\<open>pull_process\<close> is the process that \<open>download\<close> runs (its exit code, output and errors). In that process,
  \<open>hub_download\<close> sees the environment, which huggingface_hub reads when it is imported, and gives a path;
  \<open>hf_home\<close> is the temporary directory. Bytes are strings.\<close>

record 'e bench =
  pull_process :: "string \<Rightarrow> string \<Rightarrow> ('e, int \<times> string \<times> string) io"
  hub_download :: "environment \<Rightarrow> string \<Rightarrow> string \<Rightarrow> string \<Rightarrow> ('e, string) io"
  copy_file :: "string \<Rightarrow> string \<Rightarrow> ('e, unit) io"
  path_bytes :: "string \<Rightarrow> ('e, string) io"
  sha256 :: "string \<Rightarrow> string"
  hf_home :: string
  bench_clock :: "'e \<Rightarrow> rat"
  get_metrics :: "string \<Rightarrow> ('e, (string, json) pydict) io"

text \<open>The knobs of the experiment, from the environment.\<close>

definition crossdc_repo :: "environment \<Rightarrow> string" where
  "crossdc_repo environ = dict_get ''CROSSDC_REPO'' ''openai-community/gpt2'' environ"

definition crossdc_file :: "environment \<Rightarrow> string" where
  "crossdc_file environ = dict_get ''CROSSDC_PATH'' ''model.safetensors'' environ"

definition crossdc_rev :: "environment \<Rightarrow> string" where
  "crossdc_rev environ = dict_get ''CROSSDC_REV'' ''main'' environ"

definition crossdc_instance :: "environment \<Rightarrow> string" where
  "crossdc_instance environ = dict_get ''CROSSDC_INSTANCE'' ''cpu3c-2-4'' environ"

definition crossdc_image :: "environment \<Rightarrow> string" where
  "crossdc_image environ = dict_get ''CROSSDC_IMAGE'' ''docker.io/deanq/xet-cache-testbed:latest'' environ"

text \<open>\<open>_worker\<close>: what it prints.\<close>

definition crossdc_worker :: "'e bench \<Rightarrow> environment \<Rightarrow> string \<Rightarrow> string \<Rightarrow> ('e, string) io" where
  "crossdc_worker b environ endpoint out =
    (let env = AList.update ''HF_ENDPOINT'' endpoint (AList.update ''HF_HOME'' (hf_home b) environ)
     in bind_call (hub_download b env (crossdc_repo environ) (crossdc_file environ) (crossdc_rev environ)) (\<lambda>path.
        then_call (copy_file b path out)
       (bind_call (path_bytes b path) (\<lambda>bytes. pure (sha256 b bytes @ [CHR 0x0A])))))"

text \<open>\<open>download\<close>: the last line of what the process printed, and the seconds.\<close>

definition pull :: "'e bench \<Rightarrow> string \<Rightarrow> string \<Rightarrow> ('e, string \<times> rat) io" where
  "pull b endpoint out =
    bind_call (look (bench_clock b)) (\<lambda>t0.
    bind_call (pull_process b endpoint out) (\<lambda>(code, stdout, stderr).
      if code \<noteq> 0 then throw (RuntimeError (''download via '' @ endpoint @ '' failed:'' @ [CHR 0x0A] @ stderr))
      else case split_lines (strip_text stdout) of
             [] \<Rightarrow> throw IndexError
           | ls \<Rightarrow> bind_call (look (bench_clock b)) (\<lambda>t1. pure (last ls, t1 - t0))))"

record crossdc_result =
  cr_pair :: string
  cr_bytes_ok :: bool
  cr_peer_bytes :: int
  cr_wan_bytes :: int
  cr_served_bytes :: int
  cr_peer_fraction :: rat
  cr_throughput :: json
  cr_hedge_fired :: int
  cr_hedge_won :: int
  cr_probe_timeouts :: int
  cr_peer_misses :: int
  cr_wall_seconds :: rat

definition metrics_delta :: "(string, json) pydict \<Rightarrow> (string, json) pydict \<Rightarrow> string \<Rightarrow> int res" where
  "metrics_delta before after key =
    res_bind (json_int (dict_get key (JInt 0) after)) (\<lambda>a.
    res_bind (json_int (dict_get key (JInt 0) before)) (\<lambda>b. Inr (a - b)))"

definition READY_S :: rat where
  "READY_S = 360"

text \<open>360 seconds in steps of 4.\<close>

definition READY_POLLS :: nat where
  "READY_POLLS = 92"

definition wait_ready :: "'e cloud \<Rightarrow> string \<Rightarrow> ('e, string) io" where
  "wait_ready c pid =
    bind_call (look (wall_clock c)) (\<lambda>t0.
      poll_while READY_POLLS (wall_clock c) (t0 + READY_S)
        (bind_call (get_pod_ports c pid) (\<lambda>ports.
         bind_call (lift_res (parse_external_addr ports)) (\<lambda>addr. case addr of
             None \<Rightarrow> pure None
           | Some a \<Rightarrow> if a = [] then pure None
               else try_call (bind_call (http_status c (a @ ''/healthz''))
                      (\<lambda>status. pure (if status = 200 then Some a else None))) (\<lambda>e. pure None))))
        (sleep c 4)
        (TimeoutError (''pod '' @ pid @ '' never became healthy'')))"

definition KNOBS :: "string list" where
  "KNOBS = [''PEER_PROBE_TIMEOUT_MS'', ''PEER_FETCH_TIMEOUT_MS'', ''PEER_HEDGE_MAX_MS'']"

definition crossdc_env :: "environment \<Rightarrow> string \<Rightarrow> environment res" where
  "crossdc_env environ fleet_prefix =
    res_bind (dict_item ''RUNPOD_API_KEY'' environ) (\<lambda>key.
      Inr (fold (\<lambda>knob env. if dict_get knob [] environ \<noteq> [] then AList.update knob (dict_get knob [] environ) env else env)
        KNOBS
        [(''XORB_CACHE_MAX_GIB'', ''0''), (''SHIM_AUTH_TOKEN'', dict_get ''SHIM_AUTH_TOKEN'' [] environ),
         (''RUNPOD_API_KEY'', key), (''FLEET_PREFIX'', fleet_prefix), (''FLEET_SIZE'', ''2'')]))"

definition pair_pod :: "'e cloud \<Rightarrow> environment \<Rightarrow> string \<Rightarrow> string \<Rightarrow> string \<Rightarrow> string \<Rightarrow> ('e, string) io" where
  "pair_pod c penv name img instance_id dc =
    create_cache_pod c \<lparr>req_name = name, req_image = img, req_instance_id = instance_id, req_disk_gb = 20,
      req_dc = dc, req_env = penv\<rparr>"

text \<open>What is returned, from the two readings of the metrics of \<open>A\<close>.\<close>

definition pair_numbers ::
  "string \<Rightarrow> string \<Rightarrow> bool \<Rightarrow> rat \<Rightarrow> (string, json) pydict \<Rightarrow> (string, json) pydict \<Rightarrow> crossdc_result res" where
  "pair_numbers dc_a dc_b bytes_ok dt before after =
    res_bind (metrics_delta before after ''peer_bytes'') (\<lambda>peer.
    res_bind (metrics_delta before after ''wan_bytes'') (\<lambda>wan.
    res_bind (metrics_delta before after ''served_bytes'') (\<lambda>served.
    res_bind (metrics_delta before after ''peer_hedge_fired_total'') (\<lambda>fired.
    res_bind (metrics_delta before after ''peer_hedge_peer_won_total'') (\<lambda>won.
    res_bind (metrics_delta before after ''peer_probe_timeouts_total'') (\<lambda>probe_to.
    res_bind (metrics_delta before after ''peer_misses'') (\<lambda>peer_miss.
      let total = peer + wan
      in Inr \<lparr>cr_pair = dc_a @ '' -> '' @ dc_b, cr_bytes_ok = bytes_ok, cr_peer_bytes = peer, cr_wan_bytes = wan,
            cr_served_bytes = served, cr_peer_fraction = (if total \<noteq> 0 then of_int peer / of_int total else 0),
            cr_throughput = dict_get ''peer_throughput_bytes_per_ms'' JNull after, cr_hedge_fired = fired,
            cr_hedge_won = won, cr_probe_timeouts = probe_to, cr_peer_misses = peer_miss, cr_wall_seconds = dt\<rparr>)))))))"

text \<open>What follows when both pods run.\<close>

definition measure_pair ::
  "'e cloud \<Rightarrow> 'e bench \<Rightarrow> string \<Rightarrow> string \<Rightarrow> string \<Rightarrow> string \<Rightarrow> ('e, crossdc_result) io" where
  "measure_pair c b dc_a dc_b pod_a pod_b =
    bind_call (wait_ready c pod_a) (\<lambda>addr_a.
    bind_call (wait_ready c pod_b) (\<lambda>addr_b.
    bind_call (pull b addr_b ''warm.bin'') (\<lambda>(sha_b, t).
    bind_call (get_metrics b addr_a) (\<lambda>before.
    bind_call (pull b addr_a ''measure.bin'') (\<lambda>(sha_a, dt).
    bind_call (get_metrics b addr_a) (\<lambda>after.
      lift_res (pair_numbers dc_a dc_b (sha_a = sha_b) dt before after)))))))"

text \<open>The \<open>finally\<close>: every pod of the list, whatever became of the ones before.\<close>

definition terminate_pods :: "'e cloud \<Rightarrow> string list \<Rightarrow> ('e, string list) io" where
  "terminate_pods c pods =
    bind_call (map_each (\<lambda>pid. attempt (terminate_pod c pid)
      (\<lambda>e. ''WARN: failed to terminate '' @ pid @ '': '' @ err_text e)) pods) (\<lambda>ws. pure (concat ws))"

text \<open>The body of the \<open>try\<close>, over the world with the list of the pods created so far.\<close>

definition on_world :: "('e, 'a) io \<Rightarrow> ('e \<times> string list, 'a) io" where
  "on_world m = (\<lambda>(w, pods). case m w of (r, w') \<Rightarrow> (r, (w', pods)))"

definition add_pod :: "string \<Rightarrow> ('e \<times> string list, unit) io" where
  "add_pod pid = change (\<lambda>(w, pods). (w, pods @ [pid]))"

definition pair_body ::
  "'e cloud \<Rightarrow> 'e bench \<Rightarrow> environment \<Rightarrow> string \<Rightarrow> string \<Rightarrow> string \<Rightarrow> string \<Rightarrow> string \<Rightarrow>
   ('e \<times> string list, crossdc_result) io" where
  "pair_body c b penv img instance_id fleet_prefix dc_a dc_b =
    bind_call (on_world (pair_pod c penv (fleet_prefix @ ''a'') img instance_id dc_a)) (\<lambda>pod_a.
    then_call (add_pod pod_a)
   (bind_call (on_world (pair_pod c penv (fleet_prefix @ ''b'') img instance_id dc_b)) (\<lambda>pod_b.
    then_call (add_pod pod_b)
      (on_world (measure_pair c b dc_a dc_b pod_a pod_b)))))"

definition run_pair ::
  "'e cloud \<Rightarrow> 'e bench \<Rightarrow> environment \<Rightarrow> string \<Rightarrow> string \<Rightarrow> string \<Rightarrow> string \<Rightarrow> string \<Rightarrow> ('e, crossdc_result) io" where
  "run_pair c b environ img instance_id runid dc_a dc_b =
    (let fleet_prefix = ''crossdc-'' @ runid @ ''-''
     in bind_call (lift_res (crossdc_env environ fleet_prefix)) (\<lambda>penv w.
          case pair_body c b penv img instance_id fleet_prefix dc_a dc_b (w, []) of
            (r, (w', pods)) \<Rightarrow> (r, snd (terminate_pods c pods w'))))"

section \<open>The pods are torn down\<close>

definition listed :: "('e \<Rightarrow> string set) \<Rightarrow> string set \<Rightarrow> 'e \<times> string list \<Rightarrow> bool" where
  "listed live X s \<longleftrightarrow> live (fst s) \<subseteq> X \<union> set (snd s)"

lemma valid_on_world:
  assumes "\<And>X. keeps (confined live X) m"
  shows "valid (listed live X) (on_world m) (\<lambda>_. listed live X) (listed live X)"
proof -
  have quiet: "live (snd (m w)) \<subseteq> live w" for w
    using assms [of "live w"] by (auto simp: keeps_def confined_def)
  have "case on_world m s of (Inr x, s') \<Rightarrow> listed live X s' | (Inl e, s') \<Rightarrow> listed live X s'" if "listed live X s" for s
  proof -
    obtain w pods where s: "s = (w, pods)" by force
    obtain r w' where r: "m w = (r, w')" by force
    have "live w' \<subseteq> live w" using quiet [of w] r by simp
    then show ?thesis using that s r by (cases r) (auto simp: on_world_def listed_def)
  qed
  then show ?thesis by (simp add: valid_def)
qed

lemma valid_pair_pod:
  assumes "pods_tracked c live" and f: "\<And>pid. valid (listed live X) (f pid) Q (listed live X)"
  shows "valid (listed live X) (bind_call (on_world (pair_pod c penv name img instance_id dc)) (\<lambda>pid. then_call (add_pod pid) (f pid)))
    Q (listed live X)"
proof (rule valid_bind [where R = "\<lambda>pid s. live (fst s) \<subseteq> insert pid (X \<union> set (snd s))"])
  let ?m = "pair_pod c penv name img instance_id dc"
  have m: "case ?m w of (Inr pid, w') \<Rightarrow> live w' \<subseteq> insert pid (live w) | (Inl e, w') \<Rightarrow> live w' \<subseteq> live w" for w
    using assms(1) by (simp add: pods_tracked_def pair_pod_def)
  have "case on_world ?m s of (Inr pid, s') \<Rightarrow> live (fst s') \<subseteq> insert pid (X \<union> set (snd s')) | (Inl e, s') \<Rightarrow> listed live X s'"
    if "listed live X s" for s
  proof -
    obtain w pods where s: "s = (w, pods)" by force
    obtain r w' where r: "?m w = (r, w')" by force
    show ?thesis using that m [of w] s r by (cases r) (auto simp: on_world_def listed_def)
  qed
  then show "valid (listed live X) (on_world ?m) (\<lambda>pid s. live (fst s) \<subseteq> insert pid (X \<union> set (snd s))) (listed live X)"
    by (simp add: valid_def)
  show "valid (\<lambda>s. live (fst s) \<subseteq> insert pid (X \<union> set (snd s))) (then_call (add_pod pid) (f pid)) Q (listed live X)" for pid
    by (rule valid_then [OF _ f]) (auto simp: add_pod_def listed_def intro!: valid_change)
qed

text \<open>Neither pulls nor metrics requests start pods.\<close>

definition bench_tracked :: "'e bench \<Rightarrow> ('e \<Rightarrow> string set) \<Rightarrow> bool" where
  "bench_tracked b live \<longleftrightarrow> (\<forall>a f w. live (snd (pull_process b a f w)) \<subseteq> live w) \<and>
    (\<forall>a w. live (snd (get_metrics b a w)) \<subseteq> live w)"

lemma confined_measure:
  assumes "pods_tracked c live" and "bench_tracked b live"
  shows "keeps (confined live X) (measure_pair c b dc_a dc_b pod_a pod_b)"
proof -
  have asked: "keeps (confined live X) (pull_process b a f)" "keeps (confined live X) (get_metrics b a)" for a f
    by (rule keeps_confined, use assms(2) in \<open>simp add: bench_tracked_def\<close>)+
  have "keeps (confined live X) (pull b a f)" for a f
    unfolding pull_def by (auto intro!: keeps_intros asked split: list.split)
  moreover have "keeps (confined live X) (wait_ready c pid)" for pid
    unfolding wait_ready_def get_pod_ports_def
    by (intro keeps_intros keeps_poll_while confined_calls [OF assms(1)])
      (auto split: option.split intro!: keeps_intros confined_calls [OF assms(1)])
  ultimately show ?thesis
    unfolding measure_pair_def by (intro keeps_intros asked)
qed

text \<open>C26: The experiment always tears its pods down, even on failure: however it ends, the pods that run then ran
  before, but for those that the platform refuses to terminate.\<close>

theorem run_pair_leaves_no_pod:
  assumes "pods_tracked c live" and "bench_tracked b live"
  shows "live (snd (run_pair c b environ img instance_id runid dc_a dc_b w)) \<subseteq> live w \<union> stuck_pods c"
proof (cases "crossdc_env environ (''crossdc-'' @ runid @ ''-'')")
  case (Inl e)
  then show ?thesis by (simp add: run_pair_def run_bind)
next
  case (Inr penv)
  let ?body = "pair_body c b penv img instance_id (''crossdc-'' @ runid @ ''-'') dc_a dc_b"
  obtain r w' pods where body: "?body (w, []) = (r, (w', pods))" by (metis surj_pair)
  have body_valid: "valid (listed live (live w)) ?body (\<lambda>_. listed live (live w)) (listed live (live w))"
    unfolding pair_body_def
    by (intro valid_pair_pod [OF assms(1)] valid_on_world confined_measure [OF assms])
  have start: "listed live (live w) (w, [])" by (simp add: listed_def)
  have "listed live (live w) (w', pods)"
  proof (cases r)
    case (Inl e)
    show ?thesis by (rule validD_Inl [OF body_valid start body [unfolded Inl]])
  next
    case (Inr x)
    show ?thesis by (rule validD_Inr [OF body_valid start body [unfolded Inr]])
  qed
  then have before: "live w' \<subseteq> live w \<union> set pods" by (simp add: listed_def)
  obtain ys where "map_each (\<lambda>pid. attempt (terminate_pod c pid)
        (\<lambda>e. ''WARN: failed to terminate '' @ pid @ '': '' @ err_text e)) pods w' =
      (Inr ys, fold (\<lambda>pid w. snd (terminate_pod c pid w)) pods w')"
    by (rule run_map_each_attempt)
  then have "snd (terminate_pods c pods w') = fold (\<lambda>pid w. snd (terminate_pod c pid w)) pods w'"
    by (simp add: terminate_pods_def run_bind del: fold_map)
  then have "live (snd (terminate_pods c pods w')) \<subseteq> live w' - (set pods - stuck_pods c)"
    using terminate_all [OF assms(1), of pods w'] by simp
  then show ?thesis using before body Inr by (auto simp: run_pair_def run_bind Let_def)
qed

text \<open>On the platform whose pods cannot be asked for their ports, the experiment fails and leaves nothing.\<close>

definition idle_bench :: "string set bench" where
  "idle_bench = \<lparr>pull_process = (\<lambda>a f. pure (0, ''h'', [])), hub_download = (\<lambda>e r f v. pure f),
    copy_file = (\<lambda>p q. pure ()), path_bytes = (\<lambda>p. pure p), sha256 = (\<lambda>s. s), hf_home = ''/tmp/h'',
    bench_clock = (\<lambda>w. 0), get_metrics = (\<lambda>a. pure [])\<rparr>"

theorem run_pair_leaves_no_pod_witness:
  "snd (run_pair deaf_cloud idle_bench vc_environ ''i'' ''c'' ''r'' ''A'' ''B'' {}) = {}"
proof -
  have "bench_tracked idle_bench (\<lambda>w. w)" by (simp add: bench_tracked_def idle_bench_def)
  from run_pair_leaves_no_pod [OF deaf_cloud_tracks this, of vc_environ "''i''" "''c''" "''r''" "''A''" "''B''" "{}"]
  show ?thesis by (simp add: deaf_cloud_stuck)
qed

section \<open>The numbers\<close>

text \<open>When the counters only grow, the fraction that came from the peer is a fraction, and it is the whole of the
  bytes exactly when none came over the WAN.\<close>

theorem pair_fraction_sound:
  assumes "pair_numbers dc_a dc_b ok dt before after = Inr r" and "0 \<le> cr_peer_bytes r" and "0 \<le> cr_wan_bytes r"
  shows "0 \<le> cr_peer_fraction r \<and> cr_peer_fraction r \<le> 1 \<and>
    (cr_peer_fraction r = 1 \<longleftrightarrow> 0 < cr_peer_bytes r \<and> cr_wan_bytes r = 0)"
proof -
  have fraction: "cr_peer_fraction r = (if cr_peer_bytes r + cr_wan_bytes r \<noteq> 0
      then of_int (cr_peer_bytes r) / of_int (cr_peer_bytes r + cr_wan_bytes r) else 0)"
    using assms(1) by (auto simp: pair_numbers_def res_bind_eq_Inr Let_def)
  show ?thesis
  proof (cases "cr_peer_bytes r + cr_wan_bytes r = 0")
    case True
    then show ?thesis using assms(2,3) fraction by auto
  next
    case False
    then have "(0 :: rat) < of_int (cr_peer_bytes r + cr_wan_bytes r)" using assms(2,3) by simp
    then show ?thesis
      using fraction False assms(2,3) by (auto simp: divide_le_eq_1 divide_eq_1_iff zero_le_divide_iff)
  qed
qed

text \<open>A reading of the counters before and after a pull.\<close>

definition demo_counters :: "int \<Rightarrow> int \<Rightarrow> (string, json) pydict" where
  "demo_counters peer wan = [(''peer_bytes'', JInt peer), (''wan_bytes'', JInt wan)]"

theorem pair_fraction_sound_witness:
  "\<exists>r. pair_numbers ''A'' ''B'' True 3 (demo_counters 10 5) (demo_counters 40 15) = Inr r \<and> cr_peer_fraction r \<le> 1 \<and>
    cr_peer_fraction r \<noteq> 1"
proof -
  obtain r where r: "pair_numbers ''A'' ''B'' True 3 (demo_counters 10 5) (demo_counters 40 15) = Inr r"
    and n: "cr_peer_bytes r = 30" "cr_wan_bytes r = 10"
    by (simp add: pair_numbers_def metrics_delta_def demo_counters_def dict_get_def Let_def)
  from pair_fraction_sound [OF r] n r show ?thesis by auto
qed

section \<open>The experiment comes to an end\<close>

lemma fine_delta [fuel_free]: "fine (metrics_delta before after key)"
  unfolding metrics_delta_def by (intro fuel_free)

lemma fine_numbers [fuel_free]: "fine (pair_numbers dc_a dc_b ok dt before after)"
  unfolding pair_numbers_def Let_def by (intro fuel_free)

lemma answers_on_world: "answers m \<Longrightarrow> answers (on_world m)"
  by (auto simp: answers_def on_world_def split: prod.splits) (metis fst_conv)

lemma answers_add_pod: "answers (add_pod pid)"
  by (simp add: answers_def add_pod_def)

lemmas pair_answers = answers_intros answers_on_world answers_add_pod

lemma wait_ready_returns:
  assumes "\<And>q. moves_on (wall_clock c) 0 (graphql c q)" and "\<And>u. moves_on (wall_clock c) 0 (http_status c u)"
    and "moves_on (wall_clock c) 4 (sleep c 4)"
  shows "answers (wait_ready c pid)"
proof -
  have polls: "READY_POLLS = Suc 91" by (simp add: READY_POLLS_def)
  show ?thesis
    unfolding answers_def wait_ready_def run_look_bind polls
  proof (intro allI, rule poll_while_returns [where step = 4])
    show "moves_on (wall_clock c) 0 (bind_call (get_pod_ports c pid) (\<lambda>ports.
         bind_call (lift_res (parse_external_addr ports)) (\<lambda>addr. case addr of
             None \<Rightarrow> pure None
           | Some a \<Rightarrow> if a = [] then pure None
               else try_call (bind_call (http_status c (a @ ''/healthz''))
                      (\<lambda>status. pure (if status = 200 then Some a else None))) (\<lambda>e. pure None))))"
      unfolding get_pod_ports_def
      by (auto intro!: moves_on_intros moves_on_try assms(1,2) fuel_free split: option.split)
  qed (use assms(3) in \<open>simp_all add: READY_S_def\<close>)
qed

text \<open>With a platform, a pull and a metrics endpoint that answer (an exception is an answer) and a \<open>sleep(4)\<close> that takes
  its four seconds, the experiment ends: both waits are over within their 360 seconds.\<close>

theorem run_pair_returns:
  assumes "\<And>q. moves_on (wall_clock c) 0 (graphql c q)" and "\<And>u. moves_on (wall_clock c) 0 (http_status c u)"
    and "moves_on (wall_clock c) 4 (sleep c 4)" and "\<And>r. answers (sdk_create_pod c r)"
    and "\<And>a f. answers (pull_process b a f)" and "\<And>a. answers (get_metrics b a)"
  shows "fst (run_pair c b environ img instance_id runid dc_a dc_b w) \<noteq> Inl OutOfFuel"
proof -
  have pull: "answers (pull b a f)" for a f
    unfolding pull_def
    by (auto intro!: pair_answers answers_throw assms(5) split: list.split)
  have pod: "answers (pair_pod c penv name img instance_id dc)" for penv name dc
    unfolding pair_pod_def create_cache_pod_def by (intro pair_answers assms(4) fuel_free)
  have measure: "answers (measure_pair c b dc_a dc_b pod_a pod_b)" for pod_a pod_b
    unfolding measure_pair_def case_prod_unfold
    by (intro pair_answers wait_ready_returns [OF assms(1-3)] pull assms(6) fuel_free)
  have body: "answers (pair_body c b penv img instance_id p dc_a dc_b)" for penv p
    unfolding pair_body_def by (intro pair_answers pod measure)
  have env: "fine (crossdc_env environ p)" for p
    unfolding crossdc_env_def by (intro fuel_free)
  show ?thesis
    unfolding run_pair_def Let_def
    by (rule bind_fuel)
      (use env body in \<open>auto simp: fine_def answers_def split: prod.split, metis fst_conv\<close>)
qed

definition demo_bench :: "rat bench" where
  "demo_bench = \<lparr>pull_process = (\<lambda>a f. pure (0, ''h'', [])), hub_download = (\<lambda>e r f v. pure f),
    copy_file = (\<lambda>p q. pure ()), path_bytes = (\<lambda>p. pure p), sha256 = (\<lambda>s. s), hf_home = ''/tmp/h'',
    bench_clock = (\<lambda>t. t), get_metrics = (\<lambda>a. pure [])\<rparr>"

theorem run_pair_returns_witness:
  "fst (run_pair example_cloud demo_bench example_pod_env ''i'' ''c'' ''r'' ''A'' ''B'' 0) \<noteq> Inl OutOfFuel"
  by (rule run_pair_returns) (simp_all add: example_cloud_def demo_bench_def moves_on_def answers_def)

section \<open>The command\<close>

text \<open>\<open>main\<close>, from the arguments after the program's name: the exit status and what is printed (the text of a
  result is left out).\<close>

datatype crossdc_output = Printed_hash string | Printed_result crossdc_result | Printed_usage

definition crossdc_main ::
  "'e cloud \<Rightarrow> 'e bench \<Rightarrow> environment \<Rightarrow> string \<Rightarrow> string list \<Rightarrow> ('e, nat \<times> crossdc_output) io" where
  "crossdc_main c b environ runid argv =
    (if 2 \<le> length argv \<and> argv ! 0 = ''--worker''
     then (if length argv = 2 then throw IndexError
           else bind_call (crossdc_worker b environ (argv ! 1) (argv ! 2)) (\<lambda>out. pure (0, Printed_hash out)))
     else if length argv \<noteq> 2 then pure (2, Printed_usage)
     else bind_call (run_pair c b environ (crossdc_image environ) (crossdc_instance environ) runid (argv ! 0) (argv ! 1))
            (\<lambda>r. pure (0, Printed_result r)))"

section \<open>What a pull reports\<close>

text \<open>The process is this program again: it prints what \<open>main\<close> prints, and an exception is exit code 1.\<close>

definition spawns :: "'e cloud \<Rightarrow> 'e bench \<Rightarrow> environment \<Rightarrow> string \<Rightarrow> bool" where
  "spawns c b environ runid \<longleftrightarrow>
    (\<forall>endpoint out w. pull_process b endpoint out w =
      (case crossdc_main c b environ runid [''--worker'', endpoint, out] w of
         (Inr (code, Printed_hash t), w') \<Rightarrow> (Inr (int code, t, []), w')
       | (Inr (code, _), w') \<Rightarrow> (Inr (int code, [], []), w')
       | (Inl e, w') \<Rightarrow> (Inr (1, [], err_text e), w')))"

definition plain_line :: "string \<Rightarrow> bool" where
  "plain_line h \<longleftrightarrow> strip_text (h @ [CHR 0x0A]) = h \<and> split_lines h = [h]"

text \<open>A pull that returns gives the hash of the file that was downloaded through the endpoint that was asked for,
  which is also the file that was copied.\<close>

theorem pull_hashes_download:
  assumes "spawns c b environ runid" and "\<And>s. plain_line (sha256 b s)"
    and "pull b endpoint out w = (Inr (h, secs), w')"
  shows "\<exists>env path bytes w1 w2. map_of env ''HF_ENDPOINT'' = Some endpoint \<and>
    hub_download b env (crossdc_repo environ) (crossdc_file environ) (crossdc_rev environ) w = (Inr path, w1) \<and>
    copy_file b path out w1 = (Inr (), w2) \<and> path_bytes b path w2 = (Inr bytes, w') \<and> h = sha256 b bytes"
proof -
  let ?env = "AList.update ''HF_ENDPOINT'' endpoint (AList.update ''HF_HOME'' (hf_home b) environ)"
  have main: "crossdc_main c b environ runid [''--worker'', endpoint, out] w =
      (case crossdc_worker b environ endpoint out w of (Inl e, w') \<Rightarrow> (Inl e, w') | (Inr t, w') \<Rightarrow> (Inr (0, Printed_hash t), w'))"
    by (simp add: crossdc_main_def run_bind numeral_2_eq_2 pure_def)
  obtain t where worker: "crossdc_worker b environ endpoint out w = (Inr t, w')"
    and line: "h = last (split_lines (strip_text t))" "split_lines (strip_text t) \<noteq> []"
    using assms(1,3) unfolding pull_def run_look_bind spawns_def
    by (auto simp: run_bind main split: prod.splits sum.splits if_splits list.splits)
  then obtain path w1 w2 bytes where steps:
      "hub_download b ?env (crossdc_repo environ) (crossdc_file environ) (crossdc_rev environ) w = (Inr path, w1)"
      "copy_file b path out w1 = (Inr (), w2)" "path_bytes b path w2 = (Inr bytes, w')" "t = sha256 b bytes @ [CHR 0x0A]"
    unfolding crossdc_worker_def Let_def by (auto elim!: bind_Inr then_Inr)
  then have "h = sha256 b bytes" using line assms(2) [of bytes] by (simp add: plain_line_def)
  moreover have "map_of ?env ''HF_ENDPOINT'' = Some endpoint" by (simp add: update_conv)
  ultimately show ?thesis using steps by blast
qed

definition spawned_bench :: "rat bench" where
  "spawned_bench = demo_bench\<lparr>sha256 := (\<lambda>s. ''h''),
     pull_process := (\<lambda>a f. pure (0, ''h'' @ [CHR 0x0A], []))\<rparr>"

theorem pull_hashes_download_witness:
  "pull spawned_bench ''http://a'' ''warm.bin'' 0 = (Inr (''h'', 0), 0) \<and> (\<exists>bytes. ''h'' = sha256 spawned_bench bytes)"
proof -
  have worker: "crossdc_worker spawned_bench [] endpoint out w = (Inr (''h'' @ [CHR 0x0A]), w)" for endpoint out w
    by (simp add: crossdc_worker_def spawned_bench_def demo_bench_def run_bind run_then)
  have spawns: "spawns example_cloud spawned_bench [] ''r''"
    by (simp add: spawns_def crossdc_main_def run_bind numeral_2_eq_2 worker)
      (simp add: spawned_bench_def)
  have plain: "plain_line (sha256 spawned_bench s)" for s
    by (simp add: spawned_bench_def plain_line_def) code_simp
  have pull: "pull spawned_bench ''http://a'' ''warm.bin'' 0 = (Inr (''h'', 0), 0)"
    by code_simp
  from pull_hashes_download [OF spawns plain pull] pull show ?thesis by blast
qed

end
