(* ===== verification/Drive.thy ===== *)
theory Drive
  imports Mechanisms Moves
begin

text \<open>
  \<open>drive/run.py\<close>: a job from its submission to its row in the jobs file, the sequential pass, and
  the burst on a thread pool of \<open>burst\<close> workers. The pool is a step relation: a worker submits
  the next job of the queue, or a running job ends with a row or with an exception. The
  platform (\<open>runpod.Endpoint\<close> and its job handles, of type \<open>'h\<close>) is a parameter.
\<close>

section \<open>One job\<close>

record ('e, 'h) platform =
  run_job :: "string \<Rightarrow> string list \<Rightarrow> ('e, 'h) io"
  job_output :: "'h \<Rightarrow> int \<Rightarrow> ('e, job_result) io"
  fetch_job :: "'h \<Rightarrow> ('e, json) io"
  job_status :: "'h \<Rightarrow> ('e, string) io"
  driver_clock :: "'e \<Rightarrow> rat"

record recorded_job =
  rj_job :: job
  rj_submit_ts :: rat
  rj_return_ts :: rat
  rj_result :: job_result
  rj_timing :: "timing_row option"

text \<open>The controller of a run: its jobs file and the outside world.\<close>

record 'e driver =
  jobs_file :: "recorded_job list"
  outer :: 'e

definition MS_PER_SECOND :: rat where
  "MS_PER_SECOND = 1000"

text \<open>\<open>v / 1000 if v is not None else None\<close>.\<close>

fun ms_to_seconds :: "json \<Rightarrow> rat option res" where
  "ms_to_seconds JNull = Inr None"
| "ms_to_seconds (JInt i) = Inr (Some (of_int i / MS_PER_SECOND))"
| "ms_to_seconds (JNum r) = Inr (Some (r / MS_PER_SECOND))"
| "ms_to_seconds (JBool b) = Inr (Some ((if b then 1 else 0) / MS_PER_SECOND))"
| "ms_to_seconds v = Inl (TypeError ''unsupported operand type(s) for /'')"

definition timing_of_status :: "json \<Rightarrow> (rat option \<times> rat option) res" where
  "timing_of_status status =
    res_bind (json_get ''delayTime'' JNull status) (\<lambda>delay_ms.
    res_bind (json_get ''executionTime'' JNull status) (\<lambda>exec_ms.
    res_bind (ms_to_seconds delay_ms) (\<lambda>delay.
    res_bind (ms_to_seconds exec_ms) (\<lambda>exec. Inr (delay, exec)))))"

text \<open>Only the fetch is inside the \<open>try\<close>.\<close>

definition platform_timing :: "('e, 'h) platform \<Rightarrow> 'h \<Rightarrow> ('e, rat option \<times> rat option) io" where
  "platform_timing p h =
    bind_call (try_call (bind_call (fetch_job p h) (\<lambda>s. pure (Some s))) (\<lambda>e. pure None)) (\<lambda>r.
      case r of None \<Rightarrow> pure (None, None) | Some status \<Rightarrow> lift_res (timing_of_status status))"

definition recorded :: "('e, 'h) platform \<Rightarrow> job \<Rightarrow> job_result \<Rightarrow> rat \<Rightarrow> rat option \<Rightarrow> rat option \<Rightarrow>
  ('e, recorded_job) io" where
  "recorded p job result submit_ts delay exec =
    bind_call (look (driver_clock p)) (\<lambda>return_ts.
      let row = \<lparr>rj_job = job, rj_submit_ts = submit_ts, rj_return_ts = return_ts, rj_result = result,
                 rj_timing = None\<rparr>
      in case job_mechanism job of
           None \<Rightarrow> pure row
         | Some m \<Rightarrow>
             bind_call (lift_res (make_timing_row m job result (return_ts - submit_ts) delay exec))
               (\<lambda>t. pure (row\<lparr>rj_timing := Some t\<rparr>)))"

text \<open>Up to the handle, and from the handle to the row.\<close>

definition submit_job :: "('e, 'h) platform \<Rightarrow> string \<Rightarrow> job \<Rightarrow> ('e, rat \<times> 'h) io" where
  "submit_job p eid job =
    bind_call (look (driver_clock p)) (\<lambda>submit_ts.
    bind_call (run_job p eid [job_model job]) (\<lambda>h. pure (submit_ts, h)))"

definition job_answer ::
  "('e, 'h) platform \<Rightarrow> int \<Rightarrow> 'h \<Rightarrow> ('e, job_result \<times> rat option \<times> rat option) io" where
  "job_answer p timeout h =
    try_call
      (bind_call (job_output p h timeout) (\<lambda>result.
       bind_call (platform_timing p h) (\<lambda>times. pure (result, times))))
      (\<lambda>e. bind_call (try_call (bind_call (job_status p h) (\<lambda>s. pure (Some s))) (\<lambda>_. pure None)) (\<lambda>status.
         pure (Job_failed (err_name e @ '': '' @ err_text e) status, None, None)))"

definition await_job :: "('e, 'h) platform \<Rightarrow> int \<Rightarrow> job \<Rightarrow> rat \<Rightarrow> 'h \<Rightarrow> ('e, recorded_job) io" where
  "await_job p timeout job submit_ts h =
    bind_call (job_answer p timeout h) (\<lambda>(result, delay, exec).
      recorded p job result submit_ts delay exec)"

definition outerly :: "('e, 'a) io \<Rightarrow> ('e driver, 'a) io" where
  "outerly m = (\<lambda>d. case m (outer d) of (r, e) \<Rightarrow> (r, d\<lparr>outer := e\<rparr>))"

definition append_row :: "recorded_job \<Rightarrow> ('e driver, unit) io" where
  "append_row row = change (\<lambda>d. d\<lparr>jobs_file := jobs_file d @ [row]\<rparr>)"

definition submit_and_wait :: "('e, 'h) platform \<Rightarrow> int \<Rightarrow> string \<times> job \<Rightarrow> ('e driver, unit) io" where
  "submit_and_wait p timeout ej =
    bind_call (outerly (submit_job p (fst ej) (snd ej))) (\<lambda>(submit_ts, h).
    bind_call (outerly (await_job p timeout (snd ej) submit_ts h)) append_row)"

section \<open>The pool\<close>

text \<open>Jobs in the queue, jobs a worker is waiting for, the jobs whose worker raised.\<close>

record ('e, 'h) pool =
  waiting :: "(string \<times> job) list"
  running :: "(job \<times> rat \<times> 'h) list"
  raised :: "(job \<times> pyerr) list"
  driver :: "'e driver"

definition without :: "nat \<Rightarrow> 'a list \<Rightarrow> 'a list" where
  "without i xs = take i xs @ drop (Suc i) xs"

datatype move = Take_next | Complete nat

text \<open>One move: \<open>None\<close> where the pool cannot make it.\<close>

fun pool_move :: "('e, 'h) platform \<Rightarrow> int \<Rightarrow> int \<Rightarrow> move \<Rightarrow> ('e, 'h) pool \<Rightarrow> ('e, 'h) pool option" where
  "pool_move p timeout burst Take_next s =
    (case waiting s of
       [] \<Rightarrow> None
     | (eid, job) # rest \<Rightarrow>
         if int (length (running s)) < burst
         then (case outerly (submit_job p eid job) (driver s) of
                 (Inl e, d) \<Rightarrow> Some (s\<lparr>waiting := rest, raised := raised s @ [(job, e)], driver := d\<rparr>)
               | (Inr (ts, h), d) \<Rightarrow>
                   Some (s\<lparr>waiting := rest, running := running s @ [(job, ts, h)], driver := d\<rparr>))
         else None)"
| "pool_move p timeout burst (Complete i) s =
    (if i < length (running s)
     then (case running s ! i of (job, ts, h) \<Rightarrow>
            case bind_call (outerly (await_job p timeout job ts h)) append_row (driver s) of
              (Inl e, d) \<Rightarrow>
                Some (s\<lparr>running := without i (running s), raised := raised s @ [(job, e)], driver := d\<rparr>)
            | (Inr _, d) \<Rightarrow> Some (s\<lparr>running := without i (running s), driver := d\<rparr>))
     else None)"

definition pool_done :: "('e, 'h) pool \<Rightarrow> bool" where
  "pool_done s \<longleftrightarrow> waiting s = [] \<and> running s = []"

definition new_pool :: "(string \<times> job) list \<Rightarrow> 'e driver \<Rightarrow> ('e, 'h) pool" where
  "new_pool jobs d = \<lparr>waiting = jobs, running = [], raised = [], driver = d\<rparr>"

section \<open>The whole run\<close>

text \<open>What \<open>main\<close> works out before it submits anything: each job with its endpoint.\<close>

definition drive_plan :: "(config \<Rightarrow> job list) \<Rightarrow> config \<Rightarrow> provision_state \<Rightarrow>
  ((string \<times> job) list \<times> (string \<times> job) list) res" where
  "drive_plan plan cfg st =
    (let jobs = drive_jobs plan cfg
     in res_bind (resolve_endpoints jobs (st_endpoints st)) (\<lambda>eids.
        let with_eid = map_res (\<lambda>j. res_bind (endpoint_of j) (\<lambda>l.
              res_bind (dict_item l eids) (\<lambda>e. Inr (e, j))))
        in res_bind (with_eid (fst (split_jobs jobs))) (\<lambda>sequential.
           res_bind (with_eid (snd (split_jobs jobs))) (\<lambda>burst. Inr (sequential, burst)))))"

definition start_jobs_file :: "('e driver, unit) io" where
  "start_jobs_file = change (\<lambda>d. d\<lparr>jobs_file := []\<rparr>)"

definition drive_sequential ::
  "('e, 'h) platform \<Rightarrow> int \<Rightarrow> (string \<times> job) list \<Rightarrow> ('e driver, unit) io" where
  "drive_sequential p timeout jobs = then_call start_jobs_file (for_each (submit_and_wait p timeout) jobs)"

definition NO_WORKERS :: pyerr where
  "NO_WORKERS = ValueError ''max_workers must be greater than 0''"

text \<open>
  \<open>drive_main ... d r d'\<close>: a run from \<open>d\<close> can end with the result \<open>r\<close> in \<open>d'\<close>. Leaving the
  \<open>with\<close> block waits for every worker; the exception raised is that of some job.
\<close>

inductive drive_main ::
  "('e, 'h) platform \<Rightarrow> (config \<Rightarrow> job list) \<Rightarrow> config \<Rightarrow> provision_state \<Rightarrow> 'e driver \<Rightarrow> unit res \<Rightarrow>
   'e driver \<Rightarrow> bool"
  for p plan cfg st d where
  no_plan: "drive_plan plan cfg st = Inl e \<Longrightarrow> drive_main p plan cfg st d (Inl e) d"
| sequential_raises: "drive_plan plan cfg st = Inr (sequential, burst) \<Longrightarrow>
    drive_sequential p (cfg_job_timeout_s cfg) sequential d = (Inl e, d1) \<Longrightarrow>
    drive_main p plan cfg st d (Inl e) d1"
| no_workers: "drive_plan plan cfg st = Inr (sequential, burst) \<Longrightarrow>
    drive_sequential p (cfg_job_timeout_s cfg) sequential d = (Inr (), d1) \<Longrightarrow> cfg_burst cfg \<le> 0 \<Longrightarrow>
    drive_main p plan cfg st d (Inl NO_WORKERS) d1"
| burst_ends: "drive_plan plan cfg st = Inr (sequential, burst) \<Longrightarrow>
    drive_sequential p (cfg_job_timeout_s cfg) sequential d = (Inr (), d1) \<Longrightarrow> 0 < cfg_burst cfg \<Longrightarrow>
    move_steps (pool_move p (cfg_job_timeout_s cfg) (cfg_burst cfg)) (new_pool burst d1) n s \<Longrightarrow> pool_done s \<Longrightarrow>
    raised s = [] \<Longrightarrow> drive_main p plan cfg st d (Inr ()) (driver s)"
| burst_raises: "drive_plan plan cfg st = Inr (sequential, burst) \<Longrightarrow>
    drive_sequential p (cfg_job_timeout_s cfg) sequential d = (Inr (), d1) \<Longrightarrow> 0 < cfg_burst cfg \<Longrightarrow>
    move_steps (pool_move p (cfg_job_timeout_s cfg) (cfg_burst cfg)) (new_pool burst d1) n s \<Longrightarrow> pool_done s \<Longrightarrow>
    (job, e) \<in> set (raised s) \<Longrightarrow> drive_main p plan cfg st d (Inl e) (driver s)"

section \<open>A failure is a value\<close>

text \<open>Whatever becomes of a job after its submission, there is an answer to record.\<close>

lemma job_answer_total: "\<exists>a w'. job_answer p timeout h w = (Inr a, w')"
  by (auto simp: job_answer_def io_simps split: prod.splits sum.splits)

lemma job_answer_failed:
  assumes "bind_call (job_output p h timeout) (\<lambda>result.
      bind_call (platform_timing p h) (\<lambda>times. pure (result, times))) w = (Inl e, w1)"
  shows "\<exists>status w'. job_answer p timeout h w =
    (Inr (Job_failed (err_name e @ '': '' @ err_text e) status, None, None), w')"
proof -
  obtain r w2 where "job_status p h w1 = (r, w2)" by force
  then show ?thesis using assms
    by (cases r) (simp_all add: job_answer_def run_try run_bind)
qed

lemma recorded_cases:
  "recorded p job result ts delay exec w =
    (case job_mechanism job of
       None \<Rightarrow> (Inr \<lparr>rj_job = job, rj_submit_ts = ts, rj_return_ts = driver_clock p w, rj_result = result,
                     rj_timing = None\<rparr>, w)
     | Some m \<Rightarrow> (case make_timing_row m job result (driver_clock p w - ts) delay exec of
           Inl e \<Rightarrow> (Inl e, w)
         | Inr t \<Rightarrow> (Inr \<lparr>rj_job = job, rj_submit_ts = ts, rj_return_ts = driver_clock p w,
                          rj_result = result, rj_timing = Some t\<rparr>, w)))"
  by (simp add: recorded_def Let_def run_bind split: option.split sum.split)

lemma make_timing_row_total: "result \<noteq> No_output \<Longrightarrow> \<exists>t. make_timing_row m job result wall delay exec = Inr t"
  by (cases result) (auto simp: make_timing_row_def Let_def split: list.split)

lemma make_timing_row_No_output: "\<exists>e. make_timing_row m job No_output wall delay exec = Inl e"
  by (simp add: make_timing_row_def Let_def)

lemma await_job_row:
  assumes "await_job p timeout job ts h w = (Inr row, w')"
  shows "rj_job row = job \<and> rj_submit_ts row = ts \<and>
    (\<forall>m. job_mechanism job = Some m \<longrightarrow> (\<exists>delay exec t.
       make_timing_row m job (rj_result row) (rj_return_ts row - ts) delay exec = Inr t \<and> rj_timing row = Some t))"
  using assms
  by (auto simp: await_job_def recorded_cases elim!: bind_Inr split: option.splits sum.splits) blast

text \<open>An awaited job raises exactly where its output was \<open>None\<close>.\<close>

lemma await_job_raises:
  "(\<exists>e w'. await_job p timeout job ts h w = (Inl e, w')) \<longleftrightarrow>
   job_mechanism job \<noteq> None \<and> (\<exists>tm w1. job_answer p timeout h w = (Inr (No_output, tm), w1))"
proof -
  obtain result delay exec w1 where a: "job_answer p timeout h w = (Inr (result, delay, exec), w1)"
    using job_answer_total by (metis prod.exhaust)
  show ?thesis
  proof (cases "result = No_output")
    case True
    then show ?thesis using make_timing_row_No_output
      by (auto simp: await_job_def run_bind a recorded_cases split: option.splits sum.splits) (metis Inr_Inl_False)
  next
    case False
    then show ?thesis using make_timing_row_total [OF False]
      by (auto simp: await_job_def run_bind a recorded_cases split: option.splits sum.splits) (metis Inr_Inl_False)
  qed
qed

section \<open>The pool as a system of moves\<close>

definition pool_size :: "('e, 'h) pool \<Rightarrow> nat" where
  "pool_size s = 2 * length (waiting s) + length (running s)"

lemma length_without: "i < length xs \<Longrightarrow> length (without i xs) = length xs - 1"
  by (simp add: without_def min_def)

lemma mset_without: "i < length xs \<Longrightarrow> mset xs = add_mset (xs ! i) (mset (without i xs))"
  by (metis without_def mset_append id_take_nth_drop union_mset_add_mset_right mset.simps(2))

text \<open>The three things a move can do.\<close>

lemma pool_move_cases:
  assumes "pool_move p timeout burst m s = Some s'"
  obtains (taken) eid job rest ts h d where "waiting s = (eid, job) # rest" "int (length (running s)) < burst"
      "outerly (submit_job p eid job) (driver s) = (Inr (ts, h), d)"
      "s' = s\<lparr>waiting := rest, running := running s @ [(job, ts, h)], driver := d\<rparr>"
  | (refused) eid job rest e d where "waiting s = (eid, job) # rest"
      "outerly (submit_job p eid job) (driver s) = (Inl e, d)"
      "s' = s\<lparr>waiting := rest, raised := raised s @ [(job, e)], driver := d\<rparr>"
  | (completed) i job ts h d where "i < length (running s)" "running s ! i = (job, ts, h)"
      "bind_call (outerly (await_job p timeout job ts h)) append_row (driver s) = (Inr (), d)"
      "s' = s\<lparr>running := without i (running s), driver := d\<rparr>"
  | (failed) i job ts h e d where "i < length (running s)" "running s ! i = (job, ts, h)"
      "bind_call (outerly (await_job p timeout job ts h)) append_row (driver s) = (Inl e, d)"
      "s' = s\<lparr>running := without i (running s), raised := raised s @ [(job, e)], driver := d\<rparr>"
proof (cases m)
  case Take_next
  then show thesis using assms that(1,2)
    by (auto split: list.splits prod.splits if_splits sum.splits)
next
  case (Complete i)
  then show thesis using assms that(3,4)
    by (auto split: prod.splits if_splits sum.splits)
qed

lemma pool_move_possible:
  assumes "\<not> (pool_done s \<or> burst \<le> 0)"
  shows "\<exists>m s'. pool_move p timeout burst m s = Some s'"
proof (cases "running s")
  case Nil
  then obtain eid job rest where "waiting s = (eid, job) # rest"
    using assms by (cases "waiting s") (auto simp: pool_done_def)
  then have "pool_move p timeout burst Take_next s \<noteq> None"
    using Nil assms by (simp split: prod.split sum.split)
  then show ?thesis by blast
next
  case (Cons r rs)
  then have "pool_move p timeout burst (Complete 0) s \<noteq> None"
    by (cases r) (simp split: prod.split sum.split)
  then show ?thesis by blast
qed

interpretation pool: shrinking "pool_move p timeout burst" pool_size "\<lambda>s. pool_done s \<or> burst \<le> 0"
  for p :: "('e, 'h) platform" and timeout burst
proof unfold_locales
  fix m and s s' :: "('e, 'h) pool"
  assume "pool_move p timeout burst m s = Some s'"
  then show "pool_size s' < pool_size s"
    by (cases rule: pool_move_cases) (auto simp: pool_size_def length_without)
qed (rule pool_move_possible)

text \<open>No job is lost or run twice: each is in the queue, with a worker, in the file, or has raised.\<close>

definition pool_jobs :: "('e, 'h) pool \<Rightarrow> job multiset" where
  "pool_jobs s = mset (map snd (waiting s)) + mset (map fst (running s)) + mset (map fst (raised s)) +
     mset (map rj_job (jobs_file (driver s)))"

lemma outerly_file: "jobs_file (snd (outerly m d)) = jobs_file d"
  by (simp add: outerly_def split: prod.split)

lemma outerly_Inr: "outerly m d = (Inr x, d') \<Longrightarrow> m (outer d) = (Inr x, outer d') \<and> jobs_file d' = jobs_file d"
  using outerly_file [of m d] by (cases "m (outer d)") (auto simp: outerly_def)

lemma outerly_Inl: "outerly m d = (Inl e, d') \<Longrightarrow> m (outer d) = (Inl e, outer d') \<and> jobs_file d' = jobs_file d"
  using outerly_file [of m d] by (cases "m (outer d)") (auto simp: outerly_def)

definition row_of :: "job \<Rightarrow> recorded_job \<Rightarrow> bool" where
  "row_of job row \<longleftrightarrow> rj_job row = job \<and> (\<forall>m. job_mechanism job = Some m \<longrightarrow> (\<exists>delay exec t.
     make_timing_row m job (rj_result row) (rj_return_ts row - rj_submit_ts row) delay exec = Inr t \<and>
     rj_timing row = Some t))"

lemma finish_Inr:
  assumes "bind_call (outerly (await_job p timeout job ts h)) append_row d = (Inr (), d')"
  obtains row where "row_of job row" and "jobs_file d' = jobs_file d @ [row]"
proof -
  obtain row d1 where "outerly (await_job p timeout job ts h) d = (Inr row, d1)"
    and "append_row row d1 = (Inr (), d')"
    using assms by (rule bind_Inr)
  then show thesis using that outerly_Inr await_job_row
    by (fastforce simp: append_row_def row_of_def)
qed

lemma finish_Inl:
  assumes "bind_call (outerly (await_job p timeout job ts h)) append_row d = (Inl e, d')"
  shows "jobs_file d' = jobs_file d"
  using assms outerly_Inl
  by (auto simp: run_bind append_row_def split: prod.splits sum.splits)

lemma mset_map_without: "i < length xs \<Longrightarrow> mset (map f xs) = add_mset (f (xs ! i)) (mset (map f (without i xs)))"
  by (simp add: mset_without)

lemma pool_move_jobs:
  assumes "pool_move p timeout burst m s = Some s'"
  shows "pool_jobs s' = pool_jobs s"
  using assms
proof (cases rule: pool_move_cases)
  case (completed i job ts h d)
  then show ?thesis
    using mset_map_without [OF completed(1), of fst] by (elim finish_Inr) (simp add: pool_jobs_def row_of_def)
next
  case (failed i job ts h e d)
  then show ?thesis
    using mset_map_without [OF failed(1), of fst] finish_Inl [OF failed(3)] by (simp add: pool_jobs_def)
qed (auto simp: pool_jobs_def dest: outerly_Inr outerly_Inl)

lemma pool_move_bounded:
  assumes "pool_move p timeout burst m s = Some s'" and "int (length (running s)) \<le> burst"
  shows "int (length (running s')) \<le> burst"
  using assms by (cases rule: pool_move_cases) (auto simp: length_without)

lemma pool_move_rows:
  assumes "pool_move p timeout burst m s = Some s'"
  shows "\<exists>rows. jobs_file (driver s') = jobs_file (driver s) @ rows \<and> (\<forall>row \<in> set rows. row_of (rj_job row) row)"
  using assms
proof (cases rule: pool_move_cases)
  case (completed i job ts h d)
  from completed(3) show ?thesis
  proof (rule finish_Inr)
    fix row assume "row_of job row" "jobs_file d = jobs_file (driver s) @ [row]"
    then show ?thesis using completed(4) by (intro exI [of _ "[row]"]) (auto simp: row_of_def)
  qed
qed (auto dest: outerly_Inr outerly_Inl finish_Inl)

lemma pool_steps_rows:
  assumes "move_steps (pool_move p timeout burst) s n s'"
  shows "\<exists>rows. jobs_file (driver s') = jobs_file (driver s) @ rows \<and> (\<forall>row \<in> set rows. row_of (rj_job row) row)"
  using assms
proof (induction rule: move_steps.induct)
  case (one_more s n s' m s'')
  then obtain rows more where "jobs_file (driver s') = jobs_file (driver s) @ rows"
      "jobs_file (driver s'') = jobs_file (driver s') @ more"
      "\<forall>row \<in> set rows. row_of (rj_job row) row" "\<forall>row \<in> set more. row_of (rj_job row) row"
    using pool_move_rows by metis
  then show ?case by (intro exI [of _ "rows @ more"]) auto
qed simp



section \<open>A run records every job\<close>

lemma submit_and_wait_row:
  assumes "submit_and_wait p timeout ej d = (Inr (), d')"
  obtains row where "row_of (snd ej) row" and "jobs_file d' = jobs_file d @ [row]"
proof -
  obtain ts h d1 where "outerly (submit_job p (fst ej) (snd ej)) d = (Inr (ts, h), d1)"
    and "bind_call (outerly (await_job p timeout (snd ej) ts h)) append_row d1 = (Inr (), d')"
    using assms unfolding submit_and_wait_def by (elim bind_Inr) auto
  then show thesis using that by (metis finish_Inr outerly_Inr)
qed

lemma sequential_rows:
  assumes "for_each (submit_and_wait p timeout) jobs d = (Inr (), d')"
  shows "\<exists>rows. jobs_file d' = jobs_file d @ rows \<and> map rj_job rows = map snd jobs \<and>
    (\<forall>row \<in> set rows. row_of (rj_job row) row)"
  using assms
proof (induction jobs arbitrary: d)
  case (Cons ej jobs)
  then obtain d1 where "submit_and_wait p timeout ej d = (Inr (), d1)"
    and rest: "for_each (submit_and_wait p timeout) jobs d1 = (Inr (), d')"
    by (auto elim: then_Inr)
  then obtain row where row: "row_of (snd ej) row" "jobs_file d1 = jobs_file d @ [row]"
    by (elim submit_and_wait_row)
  obtain rows where "jobs_file d' = jobs_file d1 @ rows" "map rj_job rows = map snd jobs"
      "\<forall>row \<in> set rows. row_of (rj_job row) row"
    using Cons.IH [OF rest] by blast
  then show ?case using row by (intro exI [of _ "row # rows"]) (auto simp: row_of_def)
qed simp

lemma map_res_snd:
  assumes "map_res (\<lambda>j. res_bind (endpoint_of j) (\<lambda>l. res_bind (dict_item l eids) (\<lambda>e. Inr (e, j)))) js = Inr ejs"
  shows "map snd ejs = js"
  using assms by (induction js arbitrary: ejs) (auto simp: res_bind_eq_Inr)

lemma drive_plan_jobs:
  assumes "drive_plan plan cfg st = Inr (sequential, burst)"
  shows "map snd sequential = fst (split_jobs (drive_jobs plan cfg)) \<and>
    map snd burst = snd (split_jobs (drive_jobs plan cfg))"
  using assms by (auto simp: drive_plan_def Let_def res_bind_eq_Inr dest!: map_res_snd)

lemma pool_done_rows:
  assumes "move_steps (pool_move p timeout burst) (new_pool jobs d) n s" and "0 < burst" and "pool_done s"
  shows "\<exists>rows. jobs_file (driver s) = jobs_file d @ rows \<and> (\<forall>row \<in> set rows. row_of (rj_job row) row) \<and>
    mset (map snd jobs) = mset (map fst (raised s)) + mset (map rj_job rows)"
proof -
  have "pool_jobs s = pool_jobs (new_pool jobs d :: ('a, 'b) pool)"
    using assms(1) by (rule move_steps_invariant) (auto dest: pool_move_jobs)
  then show ?thesis using pool_steps_rows [OF assms(1)] assms(3)
    by (auto simp: pool_jobs_def new_pool_def pool_done_def)
qed

lemma drive_main_rows:
  assumes "drive_main p plan cfg st d (Inr ()) d'"
  shows "\<exists>first rest. jobs_file d' = first @ rest \<and>
    map rj_job first = fst (split_jobs (drive_jobs plan cfg)) \<and>
    mset (map rj_job rest) = mset (snd (split_jobs (drive_jobs plan cfg))) \<and>
    (\<forall>row \<in> set (jobs_file d'). row_of (rj_job row) row)"
  using assms
proof (cases rule: drive_main.cases)
  case (burst_ends sequential burst d1 n s)
  obtain first where first: "jobs_file d1 = first" "map rj_job first = map snd sequential"
      "\<forall>row \<in> set first. row_of (rj_job row) row"
    using burst_ends(3) sequential_rows [of p "cfg_job_timeout_s cfg" sequential "d\<lparr>jobs_file := []\<rparr>" d1]
    by (auto simp: drive_sequential_def start_jobs_file_def run_then)
  obtain rest where "jobs_file d' = first @ rest" "\<forall>row \<in> set rest. row_of (rj_job row) row"
      "mset (map snd burst) = mset (map rj_job rest)"
    using pool_done_rows [OF burst_ends(5,4,6)] burst_ends(1,7) first(1) by auto
  then show ?thesis using first drive_plan_jobs [OF burst_ends(2)]
    by (intro exI [of _ first] exI [of _ rest]) auto
qed

text \<open>C3: A run of the driver that ends without an exception leaves in the jobs file exactly one row for
  every job of the run, whatever was in the file before: first the jobs of the sequential
  phases, in their order, then those of the burst, in some order. Each row of a mechanism's job
  has the timing row of its job, its recorded result and its wall time from submission to return.\<close>

theorem drive_main_records_all:
  assumes "drive_main p plan cfg st d (Inr ()) d'"
  shows "\<exists>first rest. jobs_file d' = first @ rest \<and>
    map rj_job first = fst (split_jobs (drive_jobs plan cfg)) \<and>
    mset (map rj_job rest) = mset (snd (split_jobs (drive_jobs plan cfg))) \<and>
    (\<forall>row \<in> set (jobs_file d'). row_of (rj_job row) row)"
  using assms by (rule drive_main_rows)

text \<open>Where an exception of the driver can come from.\<close>

definition job_raises :: "('e, 'h) platform \<Rightarrow> int \<Rightarrow> pyerr \<Rightarrow> bool" where
  "job_raises p timeout e \<longleftrightarrow>
    (\<exists>eid job w w'. submit_job p eid job w = (Inl e, w')) \<or>
    (\<exists>job ts h w w'. await_job p timeout job ts h w = (Inl e, w'))"

lemma finish_raises:
  assumes "bind_call (outerly (await_job p timeout job ts h)) append_row d = (Inl e, d')"
  shows "job_raises p timeout e"
  using assms unfolding job_raises_def
  by (auto simp: run_bind append_row_def dest: outerly_Inl split: prod.splits sum.splits)

lemma submit_raises: "outerly (submit_job p eid job) d = (Inl e, d') \<Longrightarrow> job_raises p timeout e"
  unfolding job_raises_def by (blast dest: outerly_Inl)

lemma submit_and_wait_raises:
  assumes "submit_and_wait p timeout ej d = (Inl e, d')"
  shows "job_raises p timeout e"
proof (cases "outerly (submit_job p (fst ej) (snd ej)) d")
  case (Pair r d1)
  then show ?thesis using assms
    by (cases r) (auto simp: submit_and_wait_def run_bind [of _ "\<lambda>(ts, h). _ ts h"]
        split: prod.splits intro: submit_raises finish_raises)
qed

lemma sequential_raises_from_job:
  "for_each (submit_and_wait p timeout) jobs d = (Inl e, d') \<Longrightarrow> job_raises p timeout e"
  by (induction jobs arbitrary: d)
    (auto simp: run_then split: prod.splits sum.splits dest: submit_and_wait_raises)

lemma pool_raised_from_job:
  assumes "move_steps (pool_move p timeout burst) s n s'" and "\<forall>je \<in> set (raised s). job_raises p timeout (snd je)"
  shows "\<forall>je \<in> set (raised s'). job_raises p timeout (snd je)"
  using assms
proof (rule move_steps_invariant)
  fix m and s s' :: "('a, 'b) pool"
  assume "pool_move p timeout burst m s = Some s'" and "\<forall>je \<in> set (raised s). job_raises p timeout (snd je)"
  then show "\<forall>je \<in> set (raised s'). job_raises p timeout (snd je)"
    by (cases rule: pool_move_cases) (auto intro: submit_raises finish_raises)
qed

lemma drive_main_error:
  assumes "drive_main p plan cfg st d (Inl e) d'"
  shows "drive_plan plan cfg st = Inl e \<or> cfg_burst cfg \<le> 0 \<and> e = NO_WORKERS \<or>
    job_raises p (cfg_job_timeout_s cfg) e"
  using assms
proof (cases rule: drive_main.cases)
  case (sequential_raises sequential burst)
  then show ?thesis
    by (auto simp: drive_sequential_def start_jobs_file_def run_then dest: sequential_raises_from_job)
next
  case (burst_raises sequential burst d1 n s job)
  then show ?thesis using pool_raised_from_job [OF burst_raises(5)] by (auto simp: new_pool_def)
qed auto

lemma drive_main_total: "\<exists>r d'. drive_main p plan cfg st d r d'"
proof (cases "drive_plan plan cfg st")
  case (Inl e)
  then show ?thesis by (blast intro: drive_main.no_plan)
next
  case (Inr sb)
  then obtain sequential burst where sb: "drive_plan plan cfg st = Inr (sequential, burst)" by force
  obtain r d1 where seq: "drive_sequential p (cfg_job_timeout_s cfg) sequential d = (r, d1)" by force
  show ?thesis
  proof (cases r)
    case (Inl e)
    then show ?thesis using sb seq by (blast intro: drive_main.sequential_raises)
  next
    case (Inr u)
    then have seq': "drive_sequential p (cfg_job_timeout_s cfg) sequential d = (Inr (), d1)" using seq by simp
    show ?thesis
    proof (cases "0 < cfg_burst cfg")
      case True
      obtain n s where run: "move_steps (pool_move p (cfg_job_timeout_s cfg) (cfg_burst cfg)) (new_pool burst d1) n s"
          "pool_done s"
        using pool.can_finish [of p "cfg_job_timeout_s cfg" "cfg_burst cfg" "new_pool burst d1"] True by auto
      show ?thesis
      proof (cases "raised s")
        case Nil
        then show ?thesis using drive_main.burst_ends [OF sb seq' True run] by blast
      next
        case (Cons je jes)
        then have "(fst je, snd je) \<in> set (raised s)" by simp
        then show ?thesis using drive_main.burst_raises [OF sb seq' True run] by blast
      qed
    next
      case False
      then show ?thesis using drive_main.no_workers [OF sb seq'] by auto
    qed
  qed
qed


text \<open>
  What the documentation of the driver says of a failure after the submission: it is a value, it
  does not stop the run. That holds of what \<open>output\<close> raises; but a job whose output is
  \<open>None\<close> makes the recording raise, outside the \<open>try\<close>.
\<close>

text \<open>The failure of a job is a value: if waiting for its output raises, the job is still
  recorded, as not ok, with no bytes and with the error in its result.\<close>

theorem failed_output_is_recorded:
  assumes "job_output p h timeout w = (Inl e, w1)"
  shows "\<exists>row w'. await_job p timeout job ts h w = (Inr row, w') \<and> rj_job row = job \<and>
    (\<exists>status. rj_result row = Job_failed (err_name e @ '': '' @ err_text e) status) \<and>
    (job_mechanism job \<noteq> None \<longrightarrow> (\<exists>t. rj_timing row = Some t \<and> \<not> row_ok t \<and> row_bytes t = 0))"
proof -
  obtain status w2 where "job_answer p timeout h w =
      (Inr (Job_failed (err_name e @ '': '' @ err_text e) status, None, None), w2)"
    using job_answer_failed [of p h timeout w e w1] assms by (auto simp: run_bind)
  then show ?thesis
    by (auto simp: await_job_def run_bind recorded_cases make_timing_row_def Let_def split: option.split)
qed

text \<open>A job whose output is \<open>None\<close> (which the platform gives for a job that has no output) is not
  recorded: recording it raises, and in the sequential phases that ends the whole run.\<close>

theorem missing_output_ends_run:
  assumes "job_mechanism job \<noteq> None" and "submit_job p eid job (outer d) = (Inr (ts, h), w)"
    and "job_answer p timeout h w = (Inr (No_output, tm), w')"
  shows "\<exists>e d'. for_each (submit_and_wait p timeout) ((eid, job) # jobs) d = (Inl e, d') \<and>
    jobs_file d' = jobs_file d"
proof -
  obtain e w2 where "await_job p timeout job ts h w = (Inl e, w2)"
    using await_job_raises [of p timeout job ts h w] assms(1,3) by blast
  then show ?thesis using assms(2)
    by (simp add: run_then submit_and_wait_def run_bind outerly_def)
qed

text \<open>The timing that the platform reports is said to degrade to nothing when it cannot be read;
  but where the status is not an object, a job that returned its result is recorded as failed.\<close>

theorem unreadable_status_loses_result:
  assumes "job_output p h timeout w = (Inr (Worker_output r), w1)" and "fetch_job p h w1 = (Inr JNull, w2)"
  shows "\<exists>e status w'. job_answer p timeout h w = (Inr (Job_failed e status, None, None), w')"
proof -
  obtain e where "timing_of_status JNull = Inl e"
    by (auto simp: timing_of_status_def json_get_def json_obj_def)
  then show ?thesis using job_answer_failed [of p h timeout w e w2] assms
    by (auto simp: platform_timing_def run_bind run_try)
qed

section \<open>Examples of runs\<close>

text \<open>A platform that accepts every job; its world is the time.\<close>

definition example_worker :: worker_result where
  "example_worker = \<lparr>wr_worker_id = ''w0'', wr_cold_first_invocation = True, wr_dep_upgrade_ms = 1500,
     wr_results = [\<lparr>mr_model = ''o/a'', mr_bytes = 100, mr_first_byte_ms = Some 20, mr_wall_seconds = 3,
       mr_breakdown = EMPTY_BREAKDOWN, mr_ok = True, mr_error = None\<rparr>]\<rparr>"

definition example_platform :: "(rat, string) platform" where
  "example_platform = \<lparr>run_job = (\<lambda>eid models w. (Inr eid, w + 1)),
     job_output = (\<lambda>h t w. (Inr (Worker_output example_worker), w + 5)),
     fetch_job = (\<lambda>h. pure (JObj [(''delayTime'', JInt 2000), (''executionTime'', JInt 3000)])),
     job_status = (\<lambda>h. pure ''COMPLETED''), driver_clock = (\<lambda>w. w)\<rparr>"

definition example_job :: "nat \<Rightarrow> job" where
  "example_job r = mechanism_job ''shim'' ''A'' ''o/a'' ''warm'' r"

definition fresh_driver :: "rat driver" where
  "fresh_driver = \<lparr>jobs_file = [], outer = 0\<rparr>"

lemma example_submit: "submit_job example_platform eid job w = (Inr (w, eid), w + 1)"
  by (simp add: submit_job_def example_platform_def run_bind)

lemma example_answer:
  "job_answer example_platform timeout h w = (Inr (Worker_output example_worker, Some 2, Some 3), w + 5)"
  by (simp add: job_answer_def platform_timing_def example_platform_def timing_of_status_def json_get_def
      json_obj_def dict_get_def MS_PER_SECOND_def run_bind run_try)

lemma example_no_raise: "\<not> job_raises example_platform timeout e"
proof -
  have "\<nexists>e w'. await_job example_platform timeout job ts h w = (Inl e, w')" for job ts h w
    unfolding await_job_raises by (simp add: example_answer)
  then show ?thesis by (simp add: job_raises_def example_submit)
qed

text \<open>Where no job raises, the run ends well.\<close>

lemma drive_main_ends_well:
  assumes "drive_plan plan cfg st = Inr sb" and "0 < cfg_burst cfg"
    and "\<And>e. \<not> job_raises p (cfg_job_timeout_s cfg) e"
  shows "\<exists>d'. drive_main p plan cfg st d (Inr ()) d'"
proof -
  obtain r d' where r: "drive_main p plan cfg st d r d'" using drive_main_total by blast
  have "r \<noteq> Inl e" for e using r assms drive_main_error by force
  then show ?thesis using r by (cases r) auto
qed

definition example_run_state :: provision_state where
  "example_run_state = (new_state ''volumecache'' ''r'')\<lparr>st_endpoints :=
     [(''baseline'', ''e0''), (''volumecache'', ''e1'')]\<rparr>"

lemma example_plan: "\<exists>sb. drive_plan volumecache_jobs example_config example_run_state = Inr sb"
proof -
  have "\<not> isl (drive_plan volumecache_jobs example_config example_run_state)" by code_simp
  then show ?thesis using res_not_isl by blast
qed

theorem drive_main_records_all_witness:
  "\<exists>d'. drive_main example_platform volumecache_jobs example_config example_run_state fresh_driver (Inr ()) d' \<and>
     mset (map rj_job (jobs_file d')) = mset (drive_jobs volumecache_jobs example_config)"
proof -
  have "0 < cfg_burst example_config" by code_simp
  then obtain d' where run: "drive_main example_platform volumecache_jobs example_config example_run_state
      fresh_driver (Inr ()) d'"
    using drive_main_ends_well example_plan example_no_raise by blast
  show ?thesis using drive_main_records_all [OF run] run set_split_jobs
    by (intro exI [of _ d'] conjI) (auto simp: mset_map [symmetric] simp del: mset_map)
qed

text \<open>Two jobs at the platform, of which the second ends first.\<close>

definition example_moves :: "move list" where
  "example_moves = [Take_next, Take_next, Complete 1]"

definition example_queue :: "(string \<times> job) list" where
  "example_queue = map (\<lambda>r. (''e1'', example_job r)) [0, 1, 2]"

definition example_pool :: "(rat, string) pool" where
  "example_pool = the (play (pool_move example_platform 600 2) example_moves (new_pool example_queue fresh_driver))"

lemma example_play:
  "play (pool_move example_platform 600 2) example_moves (new_pool example_queue fresh_driver) = Some example_pool"
  unfolding example_pool_def
  by (simp add: example_moves_def example_queue_def new_pool_def outerly_def example_submit await_job_def
      run_bind example_answer recorded_cases example_job_def mechanism_job_def make_timing_row_def Let_def
      example_worker_def append_row_def without_def)

lemma example_run: "move_steps (pool_move example_platform 600 2) (new_pool example_queue fresh_driver) 3 example_pool"
  using play_steps [OF example_play] by (simp add: example_moves_def eval_nat_numeral)



theorem failed_output_is_recorded_witness:
  "\<exists>row w'. await_job (example_platform\<lparr>job_output := (\<lambda>h t. throw (TimeoutError ''late''))\<rparr>) 600 (example_job 0) 0
     ''e1'' 7 = (Inr row, w') \<and> (\<exists>t. rj_timing row = Some t \<and> \<not> row_ok t)"
proof -
  let ?p = "example_platform\<lparr>job_output := (\<lambda>h t. throw (TimeoutError ''late''))\<rparr>"
  have "job_output ?p ''e1'' 600 7 = (Inl (TimeoutError ''late''), 7)" by simp
  moreover have "job_mechanism (example_job 0) \<noteq> None" by (simp add: example_job_def mechanism_job_def)
  ultimately show ?thesis
    using failed_output_is_recorded [of ?p "''e1''" 600 7 "TimeoutError ''late''" 7 "example_job 0" 0] by blast
qed

theorem missing_output_ends_run_witness:
  "\<exists>e d'. for_each (submit_and_wait (example_platform\<lparr>job_output := (\<lambda>h t. pure No_output)\<rparr>) 600)
     ((''e1'', example_job 0) # map (\<lambda>r. (''e1'', example_job r)) [1, 2]) fresh_driver = (Inl e, d') \<and>
     jobs_file d' = []"
proof -
  let ?p = "example_platform\<lparr>job_output := (\<lambda>h t. pure No_output)\<rparr>"
  have "job_mechanism (example_job 0) \<noteq> None" by (simp add: example_job_def mechanism_job_def)
  moreover have "submit_job ?p ''e1'' (example_job 0) (outer fresh_driver) = (Inr (0, ''e1''), 1)"
    by (simp add: submit_job_def example_platform_def run_bind fresh_driver_def)
  moreover have "job_answer ?p 600 ''e1'' 1 = (Inr (No_output, (Some 2, Some 3)), 1)"
    by (simp add: job_answer_def platform_timing_def example_platform_def timing_of_status_def json_get_def
      json_obj_def dict_get_def MS_PER_SECOND_def run_bind run_try)
  ultimately show ?thesis
    using missing_output_ends_run by (fastforce simp: fresh_driver_def)
qed

theorem unreadable_status_loses_result_witness:
  "\<exists>e status w'. job_answer (example_platform\<lparr>fetch_job := (\<lambda>h. pure JNull)\<rparr>) 600 ''e1'' 0 =
     (Inr (Job_failed e status, None, None), w')"
proof -
  let ?p = "example_platform\<lparr>fetch_job := (\<lambda>h. pure JNull)\<rparr>"
  have "job_output ?p ''e1'' 600 0 = (Inr (Worker_output example_worker), 5)" by (simp add: example_platform_def)
  moreover have "fetch_job ?p ''e1'' 5 = (Inr JNull, 5)" by simp
  ultimately show ?thesis by (rule unreadable_status_loses_result)
qed

end
