(* ===== verification/Report_Stats.thy ===== *)
theory Report_Stats
  imports Drive
begin

text \<open>
  The statistics of \<open>harvest/report.py\<close>: latency by phase, the headline numbers, cold starts,
  the final and peak values of the pods' metrics, the payoff of peering, and the steady state. The
  rows of the jobs file are \<open>recorded_job\<close>s, those of the metrics file \<open>metric_row\<close>s.
\<close>

section \<open>Buckets\<close>

text \<open>\<open>buckets.setdefault(key, []).append(x)\<close> over a list of pairs, and over the pairs' own keys.\<close>

definition bucket_add :: "'k \<times> 'v \<Rightarrow> ('k, 'v list) pydict \<Rightarrow> ('k, 'v list) pydict" where
  "bucket_add kv d = AList.update (fst kv) (dict_get (fst kv) [] d @ [snd kv]) d"

definition buckets_of :: "('k \<times> 'v) list \<Rightarrow> ('k, 'v list) pydict" where
  "buckets_of kvs = fold bucket_add kvs []"

text \<open>\<open>{p: f(vs) for p, vs in buckets.items()}\<close> where \<open>f\<close> may raise.\<close>

definition map_values :: "('v \<Rightarrow> 'w res) \<Rightarrow> ('k, 'v) pydict \<Rightarrow> ('k, 'w) pydict res" where
  "map_values f d = map_res (\<lambda>(k, v). res_bind (f v) (\<lambda>w. Inr (k, w))) d"

section \<open>Statistics of a bucket\<close>

record phase_stats =
  ps_n :: nat
  ps_median_s :: rat
  ps_p95_s :: rat
  ps_total_bytes :: int

definition stats_of :: "rat list \<Rightarrow> int \<Rightarrow> phase_stats res" where
  "stats_of walls total_bytes =
    (let secs = sort walls
     in res_bind (py_median secs) (\<lambda>median.
        res_bind (py_nth secs (p95_index (length secs))) (\<lambda>p95.
          Inr \<lparr>ps_n = length secs, ps_median_s = median, ps_p95_s = p95, ps_total_bytes = total_bytes\<rparr>)))"

section \<open>From the results of the jobs\<close>

text \<open>\<open>j.get('result', {}).get('results', [])\<close>.\<close>

definition results_of :: "job_result \<Rightarrow> model_result list res" where
  "results_of r =
    (case r of Worker_output w \<Rightarrow> Inr (wr_results w) | Job_failed e s \<Rightarrow> Inr []
     | No_output \<Rightarrow> Inl (AttributeError ([CHR 0x27] @ ''NoneType'' @ [CHR 0x27] @
         '' object has no attribute '' @ [CHR 0x27] @ ''get'' @ [CHR 0x27])))"

definition ok_results :: "recorded_job list \<Rightarrow> (string \<times> model_result) list res" where
  "ok_results jobs =
    res_map concat (map_res (\<lambda>j. res_bind (results_of (rj_result j)) (\<lambda>rs.
      Inr (map (\<lambda>r. (job_phase (rj_job j), r)) (filter mr_ok rs)))) jobs)"

definition latency_by_phase :: "recorded_job list \<Rightarrow> (string, phase_stats) pydict res" where
  "latency_by_phase jobs =
    res_bind (ok_results jobs) (\<lambda>oks.
      map_values (\<lambda>rs. stats_of (map mr_wall_seconds rs) (sum_list (map mr_bytes rs))) (buckets_of oks))"

record headline_stats =
  hl_n_ok :: nat
  hl_total_bytes :: int
  hl_base_median_s :: "rat option"
  hl_warm_median_s :: "rat option"
  hl_speedup :: "rat option"

text \<open>The ratio of two medians, where both are there and the second is positive.\<close>

definition speedup_of :: "phase_stats option \<Rightarrow> phase_stats option \<Rightarrow> rat option" where
  "speedup_of base warm =
    (case (base, warm) of
       (Some b, Some w) \<Rightarrow> if 0 < ps_median_s w then Some (ps_median_s b / ps_median_s w) else None
     | _ \<Rightarrow> None)"

definition headline :: "recorded_job list \<Rightarrow> headline_stats res" where
  "headline jobs =
    res_bind (latency_by_phase jobs) (\<lambda>lat.
    res_bind (ok_results jobs) (\<lambda>oks.
      let cold = map_of lat ''cold''; warm = map_of lat ''warm''
      in Inr \<lparr>hl_n_ok = length oks, hl_total_bytes = sum_list (map (\<lambda>(p, d). ps_total_bytes d) lat),
              hl_base_median_s = map_option ps_median_s cold,
              hl_warm_median_s = map_option ps_median_s warm, hl_speedup = speedup_of cold warm\<rparr>))"

section \<open>Cold starts\<close>

record coldstart_stats =
  cs_n_cold :: nat
  cs_cold_mean_s :: "rat option"
  cs_warm_mean_s :: "rat option"
  cs_dep_upgrade_ms :: "rat option"

definition mean_or_none :: "rat list \<Rightarrow> rat option" where
  "mean_or_none xs = (if xs = [] then None else Some (py_mean xs))"

text \<open>One turn of the loop over (cold, warm, dep_ms).\<close>

definition coldstart_job ::
  "recorded_job \<Rightarrow> rat list \<times> rat list \<times> rat list \<Rightarrow> (rat list \<times> rat list \<times> rat list) res" where
  "coldstart_job j acc =
    (case acc of (cold, warm, dep_ms) \<Rightarrow>
      res_bind (results_of (rj_result j)) (\<lambda>rs.
        let walls = map mr_wall_seconds (filter mr_ok rs)
        in case rj_result j of
             Worker_output w \<Rightarrow>
               if wr_cold_first_invocation w
               then Inr (cold @ walls, warm, dep_ms @ [of_int (wr_dep_upgrade_ms w)])
               else Inr (cold, warm @ walls, dep_ms)
           | _ \<Rightarrow> Inr (cold, warm @ walls, dep_ms)))"

definition coldstart :: "recorded_job list \<Rightarrow> coldstart_stats res" where
  "coldstart jobs =
    res_bind (fold_res coldstart_job jobs ([], [], [])) (\<lambda>(cold, warm, dep_ms).
      Inr \<lparr>cs_n_cold = length cold, cs_cold_mean_s = mean_or_none cold,
           cs_warm_mean_s = mean_or_none warm, cs_dep_upgrade_ms = mean_or_none dep_ms\<rparr>)"

section \<open>The metrics of the pods\<close>

record metric_row =
  mt_name :: string
  mt_labels :: "(string, string) pydict"
  mt_value :: rat
  mt_pod :: string
  mt_ts :: rat

definition latest_sample ::
  "string \<Rightarrow> metric_row \<Rightarrow> (string, rat \<times> rat) pydict \<Rightarrow> (string, rat \<times> rat) pydict" where
  "latest_sample name r latest =
    (if mt_name r \<noteq> name \<or> mt_labels r \<noteq> [] then latest
     else case map_of latest (mt_pod r) of
            None \<Rightarrow> AList.update (mt_pod r) (mt_ts r, mt_value r) latest
          | Some cur \<Rightarrow> if fst cur < mt_ts r then AList.update (mt_pod r) (mt_ts r, mt_value r) latest else latest)"

definition final_by_pod :: "metric_row list \<Rightarrow> string \<Rightarrow> rat" where
  "final_by_pod rows name = sum_list (map (\<lambda>(pod, ts, v). v) (fold (latest_sample name) rows []))"

definition heap_peak_bytes :: "metric_row list \<Rightarrow> rat" where
  "heap_peak_bytes rows =
    fold (\<lambda>r peak. if mt_name r = ''xet_heap_inuse_bytes'' \<and> mt_labels r = [] \<and> peak < mt_value r
                   then mt_value r else peak) rows 0"

record peering_stats =
  peer_bytes :: rat
  wan_bytes :: rat
  peer_fraction :: rat
  hedge_win_ratio :: rat

definition peering_payoff :: "metric_row list \<Rightarrow> peering_stats" where
  "peering_payoff rows =
    (let peer = final_by_pod rows ''xet_peer_bytes_total''; wan = final_by_pod rows ''xet_wan_bytes_total'';
         fired = final_by_pod rows ''xet_peer_hedge_fired_total'';
         won = final_by_pod rows ''xet_peer_hedge_peer_won_total''; total = peer + wan
     in \<lparr>peer_bytes = peer, wan_bytes = wan, peer_fraction = (if total \<noteq> 0 then peer / total else 0),
         hedge_win_ratio = (if fired \<noteq> 0 then won / fired else 0)\<rparr>)"

section \<open>From the timing rows\<close>

definition timing_rows :: "recorded_job list \<Rightarrow> timing_row list" where
  "timing_rows jobs = concat (map (\<lambda>j. case rj_timing j of None \<Rightarrow> [] | Some t \<Rightarrow> [t]) jobs)"

definition breakdown_fallback_seconds :: "breakdown \<Rightarrow> rat option" where
  "breakdown_fallback_seconds bd =
    (let vals = concat (map (\<lambda>(k, v). case v of None \<Rightarrow> [] | Some x \<Rightarrow> [x]) bd)
     in if vals \<noteq> [] then Some (sum_list vals) else None)"

definition steady_seconds :: "timing_row \<Rightarrow> rat option" where
  "steady_seconds row =
    (case row_exec_seconds row of Some s \<Rightarrow> Some s | None \<Rightarrow> breakdown_fallback_seconds (row_breakdown row))"

definition steady_pairs :: "timing_row list \<Rightarrow> (string \<times> rat \<times> int) list" where
  "steady_pairs rows = concat (map (\<lambda>r. if \<not> row_ok r then []
     else case steady_seconds r of None \<Rightarrow> [] | Some s \<Rightarrow> [(row_phase r, s, row_bytes r)]) rows)"

definition steady_state_by_schema_phase :: "timing_row list \<Rightarrow> (string, phase_stats) pydict res" where
  "steady_state_by_schema_phase rows =
    map_values (\<lambda>vs. stats_of (map fst vs) (sum_list (map snd vs))) (buckets_of (steady_pairs rows))"

definition latency_by_schema_phase :: "timing_row list \<Rightarrow> (string, phase_stats) pydict res" where
  "latency_by_schema_phase rows =
    map_values (\<lambda>rs. stats_of (map row_wall_seconds rs) (sum_list (map row_bytes rs)))
      (buckets_of (map (\<lambda>r. (row_phase r, r)) (filter row_ok rows)))"

definition headline_vs_baseline :: "timing_row list \<Rightarrow> headline_stats res" where
  "headline_vs_baseline rows =
    res_bind (latency_by_schema_phase rows) (\<lambda>lat.
      let base = map_of lat ''baseline''; warm = map_of lat ''warm''
      in Inr \<lparr>hl_n_ok = length (filter row_ok rows),
              hl_total_bytes = sum_list (map (\<lambda>(p, d). ps_total_bytes d) lat),
              hl_base_median_s = map_option ps_median_s base,
              hl_warm_median_s = map_option ps_median_s warm, hl_speedup = speedup_of base warm\<rparr>)"

section \<open>What a bucket holds\<close>

lemma buckets_accumulate:
  fixes kvs :: "('k \<times> 'v) list"
  shows "buckets_of kvs = pd.accumulate (\<lambda>old v. (case old of None \<Rightarrow> [] | Some vs \<Rightarrow> vs) @ [v]) kvs []"
proof -
  have "bucket_add = (\<lambda>(k :: 'k, v :: 'v) d. AList.update k ((case map_of d k of None \<Rightarrow> [] | Some vs \<Rightarrow> vs) @ [v]) d)"
    by (auto simp: fun_eq_iff bucket_add_def dict_get_def)
  then show ?thesis by (simp add: buckets_of_def pd.accumulate_def)
qed

lemma buckets_wf: "dict_wf (buckets_of kvs)"
  unfolding buckets_accumulate by (rule pd.accumulate_wf) simp

lemma fold_appends:
  "fold (\<lambda>a s. Some ((case s of None \<Rightarrow> [] | Some vs \<Rightarrow> vs) @ [a])) xs s =
    (if xs = [] then s else Some ((case s of None \<Rightarrow> [] | Some vs \<Rightarrow> vs) @ xs))"
  by (induction xs arbitrary: s) auto

definition own :: "'k \<Rightarrow> ('k \<times> 'v) list \<Rightarrow> 'v list" where
  "own k kvs = map snd (filter (\<lambda>p. fst p = k) kvs)"

lemma buckets_lookup: "map_of (buckets_of kvs) k = (if own k kvs = [] then None else Some (own k kvs))"
  unfolding buckets_accumulate pd.accumulate_lookup fold_appends own_def by simp

lemma buckets_nonempty: "(k, vs) \<in> set (buckets_of kvs) \<Longrightarrow> vs \<noteq> []"
  using buckets_wf [of kvs] buckets_lookup [of kvs k]
  by (auto simp: dict_wf_def split: if_splits dest!: map_of_is_SomeI)

lemma map_values_total:
  assumes "\<And>k v. (k, v) \<in> set d \<Longrightarrow> f v = Inr (g v)"
  shows "map_values f d = Inr (map (\<lambda>(k, v). (k, g v)) d)"
  unfolding map_values_def by (rule map_res_cong_Inr) (use assms in auto)

lemma map_of_values: "map_of (map (\<lambda>(k, v). (k, g v)) d) k = map_option g (map_of d k)"
  by (induction d) auto

section \<open>What the statistics say\<close>

definition summarises :: "rat list \<Rightarrow> int \<Rightarrow> phase_stats \<Rightarrow> bool" where
  "summarises walls nbytes s \<longleftrightarrow>
     walls \<noteq> [] \<and> ps_n s = length walls \<and> Min (set walls) \<le> ps_median_s s \<and>
     ps_median_s s \<le> ps_p95_s s \<and> ps_p95_s s \<in> set walls \<and> ps_total_bytes s = nbytes"

lemma stats_of_sound:
  assumes "walls \<noteq> []"
  obtains s where "stats_of walls nbytes = Inr s" and "summarises walls nbytes s"
proof -
  let ?s = "sort walls" and ?n = "length walls"
  have n: "0 < ?n" using assms by simp
  have "?s \<noteq> []" using assms by (metis length_0_conv length_sort)
  then obtain m where m: "py_median ?s = Inr m" using py_median_total by blast
  let ?i = "nat (p95_index ?n)"
  have i: "?n div 2 \<le> ?i" "?i < ?n"
    using p95_index_bounds [OF n] p95_index_ge_half [OF n] by linarith+
  have p95: "py_nth ?s (p95_index (length ?s)) = Inr (?s ! ?i)"
    using p95_index_bounds [OF n] by (simp add: py_nth_nonneg)
  have "Min (set walls) = ?s ! 0"
  proof (rule Min_eqI)
    show "?s ! 0 \<in> set walls" using n by (metis length_sort nth_mem set_sort)
    fix y assume "y \<in> set walls"
    then obtain k where "k < ?n" "?s ! k = y" by (metis in_set_conv_nth length_sort set_sort)
    then show "?s ! 0 \<le> y" using sorted_nth_mono [of ?s 0 k] by simp
  qed simp
  moreover have "?s ! 0 \<le> m" "m \<le> ?s ! ?i"
    using py_median_bounds [of ?s m ?i] m i sorted_sort_id [OF sorted_sort [of walls]] by simp_all
  moreover have "?s ! ?i \<in> set walls"
    using i(2) by (metis length_sort nth_mem set_sort)
  ultimately show thesis using assms m p95
    by (intro that [of "\<lparr>ps_n = ?n, ps_median_s = m, ps_p95_s = ?s ! ?i, ps_total_bytes = nbytes\<rparr>"])
      (simp_all add: stats_of_def summarises_def)
qed

text \<open>The same for every bucket: \<open>w\<close> is the time and \<open>b\<close> the bytes of a row.\<close>

lemma bucket_stats:
  "\<exists>lat. map_values (\<lambda>vs. stats_of (map w vs) (sum_list (map b vs))) (buckets_of kvs) = Inr lat \<and> dict_wf lat \<and>
    (\<forall>k. case map_of lat k of None \<Rightarrow> own k kvs = []
       | Some s \<Rightarrow> summarises (map w (own k kvs)) (sum_list (map b (own k kvs))) s)"
proof -
  let ?f = "\<lambda>vs. stats_of (map w vs) (sum_list (map b vs))"
  define g where "g = (\<lambda>vs. projr (?f vs))"
  have f: "?f vs = Inr (g vs) \<and> summarises (map w vs) (sum_list (map b vs)) (g vs)" if vs: "vs \<noteq> []" for vs
  proof -
    have "map w vs \<noteq> []" using vs by simp
    then obtain s where "?f vs = Inr s" "summarises (map w vs) (sum_list (map b vs)) s" by (rule stats_of_sound)
    then show ?thesis by (simp add: g_def)
  qed
  have "map_values ?f (buckets_of kvs) = Inr (map (\<lambda>(k, v). (k, g v)) (buckets_of kvs))"
    by (rule map_values_total) (drule buckets_nonempty, rule f [THEN conjunct1])
  moreover have "dict_wf (map (\<lambda>(k, v). (k, g v)) (buckets_of kvs))"
    using buckets_wf [of kvs] by (simp add: dict_wf_def case_prod_unfold comp_def)
  moreover have "case map_of (map (\<lambda>(k, v). (k, g v)) (buckets_of kvs)) k of None \<Rightarrow> own k kvs = []
      | Some s \<Rightarrow> summarises (map w (own k kvs)) (sum_list (map b (own k kvs))) s" for k
    using f by (cases "own k kvs = []") (simp_all add: map_of_values buckets_lookup)
  ultimately show ?thesis by blast
qed

lemma own_map: "own k (map (\<lambda>r. (f r, r)) rows) = filter (\<lambda>r. f r = k) rows"
  by (induction rows) (auto simp: own_def)

lemma latency_buckets:
  "\<exists>lat. latency_by_schema_phase rows = Inr lat \<and> dict_wf lat \<and>
    (\<forall>phase. let phase_rows = filter (\<lambda>r. row_phase r = phase) (filter row_ok rows)
       in case map_of lat phase of None \<Rightarrow> phase_rows = []
          | Some s \<Rightarrow> summarises (map row_wall_seconds phase_rows) (sum_list (map row_bytes phase_rows)) s)"
  using bucket_stats [of row_wall_seconds row_bytes "map (\<lambda>r. (row_phase r, r)) (filter row_ok rows)"]
  unfolding latency_by_schema_phase_def own_map Let_def .

text \<open>The latency table of a run never fails, and for each phase it holds exactly when there is an
  ok row of the phase: its number of rows, their bytes, a median between the least time and
  the 95th percentile, and a 95th percentile that is the time of one of the rows.\<close>

theorem latency_by_schema_phase_sound:
  "\<exists>lat. latency_by_schema_phase rows = Inr lat \<and> dict_wf lat \<and>
    (\<forall>phase. let phase_rows = filter (\<lambda>r. row_phase r = phase) (filter row_ok rows)
       in case map_of lat phase of None \<Rightarrow> phase_rows = []
          | Some s \<Rightarrow> summarises (map row_wall_seconds phase_rows) (sum_list (map row_bytes phase_rows)) s)"
  by (rule latency_buckets)

lemma latency_total: "\<exists>lat. latency_by_schema_phase rows = Inr lat"
  and steady_total: "\<exists>lat. steady_state_by_schema_phase rows = Inr lat"
  using bucket_stats [of row_wall_seconds row_bytes "map (\<lambda>r. (row_phase r, r)) (filter row_ok rows)"]
    bucket_stats [of fst snd "steady_pairs rows"]
  unfolding latency_by_schema_phase_def steady_state_by_schema_phase_def by blast+

section \<open>What the final metrics are\<close>

definition samples :: "string \<Rightarrow> metric_row list \<Rightarrow> (string \<times> rat \<times> rat) list" where
  "samples name rows = map (\<lambda>r. (mt_pod r, mt_ts r, mt_value r))
     (filter (\<lambda>r. mt_name r = name \<and> mt_labels r = []) rows)"

definition newer :: "(rat \<times> rat) option \<Rightarrow> rat \<times> rat \<Rightarrow> rat \<times> rat" where
  "newer old s = (case old of None \<Rightarrow> s | Some cur \<Rightarrow> if fst cur < fst s then s else cur)"

lemma update_same: "map_of d k = Some v \<Longrightarrow> AList.update k v d = d"
  by (induction d) auto

lemma latest_accumulate: "fold (latest_sample name) rows d = pd.accumulate newer (samples name rows) d"
proof (induction rows arbitrary: d)
  case (Cons r rows)
  have "latest_sample name r d = pd.accumulate newer (samples name [r]) d"
    by (auto simp: latest_sample_def samples_def pd.accumulate_def newer_def update_same split: option.split)
  moreover have "samples name (r # rows) = samples name [r] @ samples name rows"
    by (simp add: samples_def)
  ultimately show ?case using Cons by (simp add: pd.accumulate_def)
qed (simp add: samples_def pd.accumulate_def)

text \<open>The newest of a list of samples: a latest one.\<close>

definition newest_of :: "(rat \<times> rat) list \<Rightarrow> rat \<times> rat \<Rightarrow> bool" where
  "newest_of ss s \<longleftrightarrow> s \<in> set ss \<and> list_all (\<lambda>t. fst t \<le> fst s) ss"

lemma fold_newer:
  "case fold (\<lambda>a s. Some (newer s a)) ss old of
     None \<Rightarrow> ss = [] \<and> old = None
   | Some s \<Rightarrow> newest_of ((case old of None \<Rightarrow> [] | Some t \<Rightarrow> [t]) @ ss) s"
proof (induction ss arbitrary: old)
  case (Cons a ss)
  show ?case using Cons [of "Some (newer old a)"]
    by (cases old) (auto simp: newest_of_def newer_def split: option.splits if_splits)
qed (auto simp: newest_of_def split: option.split)

lemma latest_lookup:
  "case map_of (fold (latest_sample name) rows []) pod of
     None \<Rightarrow> own pod (samples name rows) = []
   | Some s \<Rightarrow> newest_of (own pod (samples name rows)) s"
  using fold_newer [of "own pod (samples name rows)" None]
  unfolding latest_accumulate pd.accumulate_lookup own_def by (auto split: option.splits)

lemma latest_wf: "dict_wf (fold (latest_sample name) rows [])"
  unfolding latest_accumulate by (rule pd.accumulate_wf) simp

definition pod_rows :: "string \<Rightarrow> string \<Rightarrow> metric_row list \<Rightarrow> metric_row list" where
  "pod_rows name pod rows = filter (\<lambda>r. mt_name r = name \<and> mt_labels r = [] \<and> mt_pod r = pod) rows"

lemma own_samples: "own pod (samples name rows) = map (\<lambda>r. (mt_ts r, mt_value r)) (pod_rows name pod rows)"
  by (induction rows) (auto simp: own_def samples_def pod_rows_def)

definition metric_pods :: "string \<Rightarrow> metric_row list \<Rightarrow> string set" where
  "metric_pods name rows = mt_pod ` {r \<in> set rows. mt_name r = name \<and> mt_labels r = []}"

lemma metric_pods_iff: "pod \<in> metric_pods name rows \<longleftrightarrow> pod_rows name pod rows \<noteq> []"
  by (auto simp: metric_pods_def pod_rows_def filter_empty_conv)

text \<open>The sum is over the pods that have a sample, of a value that is newest for its pod.\<close>

definition newest_value :: "string \<Rightarrow> string \<Rightarrow> metric_row list \<Rightarrow> rat \<Rightarrow> bool" where
  "newest_value name pod rows v \<longleftrightarrow>
     list_ex (\<lambda>r. mt_value r = v \<and> list_all (\<lambda>r'. mt_ts r' \<le> mt_ts r) (pod_rows name pod rows))
       (pod_rows name pod rows)"

lemma final_by_pod_sum:
  obtains final where "final_by_pod rows name = (\<Sum>pod \<in> metric_pods name rows. final pod)"
    and "\<And>pod. pod \<in> metric_pods name rows \<Longrightarrow> newest_value name pod rows (final pod)"
proof -
  define latest where "latest = fold (latest_sample name) rows []"
  define final where "final = (\<lambda>pod. snd (the (map_of latest pod)))"
  have pod: "case map_of latest pod of None \<Rightarrow> pod_rows name pod rows = []
      | Some s \<Rightarrow> pod_rows name pod rows \<noteq> [] \<and> newest_value name pod rows (snd s)" for pod
    using latest_lookup [of pod name rows]
    by (auto simp: latest_def own_samples newest_of_def newest_value_def list_all_iff list_ex_iff
        split: option.splits)
  have pods: "pod \<in> fst ` set latest \<longleftrightarrow> pod \<in> metric_pods name rows" for pod
    using pod [of pod] map_of_eq_None_iff [of latest pod] unfolding metric_pods_iff
    by (cases "map_of latest pod") simp_all
  have newest: "newest_value name pod rows (final pod)" if "pod \<in> metric_pods name rows" for pod
    using pod [of pod] that unfolding metric_pods_iff final_def by (cases "map_of latest pod") simp_all
  have wf: "dict_wf latest" unfolding latest_def by (rule latest_wf)
  have "final_by_pod rows name = sum_list (map (final \<circ> fst) latest)"
    unfolding final_by_pod_def latest_def [symmetric]
    by (rule arg_cong [where f = sum_list], rule map_cong [OF refl])
      (use wf in \<open>auto simp: final_def dict_wf_def\<close>)
  also have "\<dots> = (\<Sum>pod \<in> fst ` set latest. final pod)"
    using wf sum_list_distinct_conv_sum_set [of "map fst latest" final] by (simp add: dict_wf_def)
  also have "fst ` set latest = metric_pods name rows" using pods by blast
  finally show thesis using that newest by blast
qed

definition one_value_at_a_time :: "string \<Rightarrow> metric_row list \<Rightarrow> bool" where
  "one_value_at_a_time name rows \<longleftrightarrow>
     list_all (\<lambda>r. list_all (\<lambda>r'. mt_ts r = mt_ts r' \<longrightarrow> mt_value r = mt_value r')
       (pod_rows name (mt_pod r) rows)) (filter (\<lambda>r. mt_name r = name \<and> mt_labels r = []) rows)"

lemma newest_value_unique:
  assumes "one_value_at_a_time name rows" and "newest_value name pod rows v" and "newest_value name pod rows v'"
  shows "v = v'"
proof -
  obtain r where r: "r \<in> set (pod_rows name pod rows)" "mt_value r = v"
      "list_all (\<lambda>r'. mt_ts r' \<le> mt_ts r) (pod_rows name pod rows)"
    using assms(2) unfolding newest_value_def list_ex_iff by blast
  obtain r' where r': "r' \<in> set (pod_rows name pod rows)" "mt_value r' = v'"
      "list_all (\<lambda>q. mt_ts q \<le> mt_ts r') (pod_rows name pod rows)"
    using assms(3) unfolding newest_value_def list_ex_iff by blast
  have "mt_ts r = mt_ts r'" using r r' by (force simp: list_all_iff intro: antisym)
  moreover have "mt_pod r = pod" "r \<in> set (filter (\<lambda>r. mt_name r = name \<and> mt_labels r = []) rows)"
    using r(1) by (auto simp: pod_rows_def)
  ultimately show ?thesis using assms(1) r(2) r'(1,2) unfolding one_value_at_a_time_def list_all_iff by blast
qed

lemma same_rows:
  assumes "mset rows = mset rows'"
  shows "metric_pods name rows = metric_pods name rows'"
    and "newest_value name pod rows v = newest_value name pod rows' v"
proof -
  have "set rows = set rows'" using assms by (rule mset_eq_setD)
  then show "metric_pods name rows = metric_pods name rows'"
    and "newest_value name pod rows v = newest_value name pod rows' v"
    by (auto simp: metric_pods_def newest_value_def pod_rows_def list_ex_iff list_all_iff)
qed

text \<open>The final value of a counter over the fleet adds up, for each pod, its newest unlabelled sample;
  so it does not depend on the order in which the scraper wrote the samples, as long as a pod
  has one value at one time.\<close>

theorem final_by_pod_order:
  assumes "mset rows = mset rows'" and "one_value_at_a_time name rows"
  shows "final_by_pod rows name = final_by_pod rows' name"
proof -
  obtain f where f: "final_by_pod rows name = (\<Sum>pod \<in> metric_pods name rows. f pod)"
      "\<And>pod. pod \<in> metric_pods name rows \<Longrightarrow> newest_value name pod rows (f pod)"
    using final_by_pod_sum [of rows name] by blast
  obtain g where g: "final_by_pod rows' name = (\<Sum>pod \<in> metric_pods name rows'. g pod)"
      "\<And>pod. pod \<in> metric_pods name rows' \<Longrightarrow> newest_value name pod rows' (g pod)"
    using final_by_pod_sum [of rows' name] by blast
  have "f pod = g pod" if "pod \<in> metric_pods name rows" for pod
    by (rule newest_value_unique [OF assms(2) f(2) [OF that]]) (use that g(2) same_rows [OF assms(1)] in simp)
  then show ?thesis using f(1) g(1) same_rows(1) [OF assms(1)] by simp
qed

definition example_metrics :: "metric_row list" where
  "example_metrics =
    [\<lparr>mt_name = ''xet_peer_bytes_total'', mt_labels = [], mt_value = 10, mt_pod = ''A'', mt_ts = 1\<rparr>,
     \<lparr>mt_name = ''xet_peer_bytes_total'', mt_labels = [], mt_value = 30, mt_pod = ''A'', mt_ts = 2\<rparr>,
     \<lparr>mt_name = ''xet_wan_bytes_total'', mt_labels = [], mt_value = 20, mt_pod = ''B'', mt_ts = 1\<rparr>,
     \<lparr>mt_name = ''xet_peer_bytes_total'', mt_labels = [], mt_value = 30, mt_pod = ''B'', mt_ts = 1\<rparr>]"

theorem final_by_pod_order_witness:
  "mset example_metrics = mset (rev example_metrics) \<and>
   final_by_pod (rev example_metrics) ''xet_peer_bytes_total'' = 60"
proof -
  have eq: "mset example_metrics = mset (rev example_metrics)" by simp
  have "one_value_at_a_time ''xet_peer_bytes_total'' example_metrics" by code_simp
  moreover have "final_by_pod example_metrics ''xet_peer_bytes_total'' = 60" by code_simp
  ultimately show ?thesis using final_by_pod_order [OF eq, of "''xet_peer_bytes_total''"] eq by simp
qed

section \<open>Where the bytes came from\<close>

definition counter :: "string \<Rightarrow> metric_row list \<Rightarrow> bool" where
  "counter name rows \<longleftrightarrow> list_all (\<lambda>r. mt_name r = name \<longrightarrow> 0 \<le> mt_value r) rows"

lemma final_by_pod_nonneg:
  assumes "counter name rows"
  shows "0 \<le> final_by_pod rows name"
proof -
  obtain f where f: "final_by_pod rows name = (\<Sum>pod \<in> metric_pods name rows. f pod)"
      "\<And>pod. pod \<in> metric_pods name rows \<Longrightarrow> newest_value name pod rows (f pod)"
    using final_by_pod_sum [of rows name] by blast
  have "0 \<le> f pod" if "pod \<in> metric_pods name rows" for pod
    using f(2) [OF that] assms
    by (auto simp: newest_value_def list_ex_iff pod_rows_def counter_def list_all_iff)
  then show ?thesis unfolding f(1) by (rule sum_nonneg)
qed

text \<open>With counters that are never negative, the shares of the report are shares: the peers' part of the
  missed bytes is between 0 and 1, the rest is the part of the WAN, and with no missed
  bytes nothing is divided by zero.\<close>

theorem peering_payoff_shares:
  assumes "counter ''xet_peer_bytes_total'' rows" and "counter ''xet_wan_bytes_total'' rows"
  shows "let p = peering_payoff rows; total = peer_bytes p + wan_bytes p
    in 0 \<le> peer_fraction p \<and> peer_fraction p \<le> 1 \<and> peer_fraction p * total = peer_bytes p \<and>
       (if total = 0 then peer_fraction p = 0 else (1 - peer_fraction p) * total = wan_bytes p)"
proof -
  define peer where "peer = final_by_pod rows ''xet_peer_bytes_total''"
  define wan where "wan = final_by_pod rows ''xet_wan_bytes_total''"
  have "0 \<le> peer" "0 \<le> wan"
    unfolding peer_def wan_def using assms by (auto intro: final_by_pod_nonneg)
  then show ?thesis
  proof (cases "peer + wan = 0")
    case True
    then show ?thesis using \<open>0 \<le> peer\<close> \<open>0 \<le> wan\<close>
      by (simp add: peering_payoff_def Let_def peer_def [symmetric] wan_def [symmetric])
  next
    case False
    then have "0 < peer + wan" using \<open>0 \<le> peer\<close> \<open>0 \<le> wan\<close> by simp
    then show ?thesis using \<open>0 \<le> peer\<close> \<open>0 \<le> wan\<close>
      by (simp add: peering_payoff_def Let_def peer_def [symmetric] wan_def [symmetric] divide_le_eq left_diff_distrib)
  qed
qed

theorem peering_payoff_shares_witness:
  "counter ''xet_peer_bytes_total'' example_metrics \<and> peer_fraction (peering_payoff example_metrics) \<le> 1"
proof -
  have "counter ''xet_peer_bytes_total'' example_metrics" "counter ''xet_wan_bytes_total'' example_metrics"
    by code_simp+
  with peering_payoff_shares [OF this] show ?thesis unfolding Let_def by blast
qed

lemma Max_insert_max: "finite A \<Longrightarrow> Max (insert p (insert v A)) = Max (insert (max p v) A)" for p :: rat
  by (cases "A = {}") (simp_all add: max.assoc)

text \<open>The heap peak is the largest reading of the gauge on any pod over the whole run, not the last
  one, and 0 without a positive reading.\<close>

theorem heap_peak_is_max:
  "heap_peak_bytes rows =
    Max (insert 0 (mt_value ` {r \<in> set rows. mt_name r = ''xet_heap_inuse_bytes'' \<and> mt_labels r = []}))"
proof -
  let ?gauge = "\<lambda>r. mt_name r = ''xet_heap_inuse_bytes'' \<and> mt_labels r = []"
  have "fold (\<lambda>r peak. if mt_name r = ''xet_heap_inuse_bytes'' \<and> mt_labels r = [] \<and> peak < mt_value r
          then mt_value r else peak) rows p = Max (insert p (mt_value ` {r \<in> set rows. ?gauge r}))" for p
  proof (induction rows arbitrary: p)
    case (Cons r rows)
    let ?A = "mt_value ` {r \<in> set rows. ?gauge r}"
    have "mt_value ` {q \<in> set (r # rows). ?gauge q} = (if ?gauge r then insert (mt_value r) ?A else ?A)"
      by auto
    then show ?case using Cons [of p] Cons [of "mt_value r"] Max_insert_max [of ?A p "mt_value r"]
      by (auto simp: max_def)
  qed simp
  then show ?thesis unfolding heap_peak_bytes_def .
qed

end
