(* ===== verification/Report_Text.thy ===== *)
theory Report_Text
  imports Report_Stats
begin

text \<open>
  The text of \<open>harvest/report.py\<close> and the report sections of \<open>mechanisms/shim.py\<close>: numbers in
  units, names, and the lines of each section. The characters outside ASCII are the bytes of
  their UTF-8 encoding; the plots and the files are not modelled.
\<close>

section \<open>Numbers as text\<close>

text \<open>\<open>f'{x:.nf}'\<close>: the digits of the value rounded half to even.\<close>

definition pad_zeros :: "nat \<Rightarrow> string \<Rightarrow> string" where
  "pad_zeros n s = replicate (n - length s) CHR ''0'' @ s"

definition fixed_text :: "nat \<Rightarrow> rat \<Rightarrow> string" where
  "fixed_text n x =
    (let k = nat (round_half_even (\<bar>x\<bar> * 10 ^ n)); sign = (if x < 0 then ''-'' else [])
     in if n = 0 then sign @ str_nat k
        else sign @ str_nat (k div 10 ^ n) @ ''.'' @ pad_zeros n (str_nat (k mod 10 ^ n)))"

definition SUBSECOND_THRESHOLD_S :: rat where "SUBSECOND_THRESHOLD_S = 1"
definition BYTES_PER_KB :: rat where "BYTES_PER_KB = 1000"
definition BYTES_PER_MB :: rat where "BYTES_PER_MB = 1000000"
definition BYTES_PER_GB :: rat where "BYTES_PER_GB = 1000000000"
definition POD_ID_SHORT_CHARS :: nat where "POD_ID_SHORT_CHARS = 6"

definition format_seconds :: "rat option \<Rightarrow> string" where
  "format_seconds seconds =
    (case seconds of None \<Rightarrow> ''n/a''
     | Some s \<Rightarrow> if \<bar>s\<bar> < SUBSECOND_THRESHOLD_S then fixed_text 2 s @ ''s'' else fixed_text 1 s @ ''s'')"

definition format_bytes :: "rat option \<Rightarrow> string" where
  "format_bytes n =
    (case n of None \<Rightarrow> ''n/a''
     | Some b \<Rightarrow>
         if \<bar>b\<bar> < BYTES_PER_KB then fixed_text 0 b @ '' B''
         else if \<bar>b\<bar> < BYTES_PER_MB then fixed_text 0 (b / BYTES_PER_KB) @ '' KB''
         else if \<bar>b\<bar> < BYTES_PER_GB then fixed_text 1 (b / BYTES_PER_MB) @ '' MB''
         else fixed_text 1 (b / BYTES_PER_GB) @ '' GB'')"

definition format_percent :: "rat option \<Rightarrow> string" where
  "format_percent fraction =
    (case fraction of None \<Rightarrow> ''n/a'' | Some f \<Rightarrow> fixed_text 0 (f * 100) @ ''%'')"

section \<open>Names\<close>

definition middle_dot :: string where "middle_dot = map char_of [194, 183 :: nat]"
definition right_arrow :: string where "right_arrow = map char_of [226, 134, 146 :: nat]"
definition times_sign :: string where "times_sign = map char_of [195, 151 :: nat]"

definition report_path :: "string \<Rightarrow> string \<Rightarrow> string" where
  "report_path mechanism runid = ''data/report-'' @ mechanism @ ''-'' @ runid @ ''.md''"

definition plot_path :: "string \<Rightarrow> string \<Rightarrow> string \<Rightarrow> string" where
  "plot_path mechanism runid kind = ''data/report-'' @ mechanism @ ''-'' @ runid @ ''-'' @ kind @ ''.png''"

definition pod_label :: "string \<Rightarrow> provision_state option \<Rightarrow> string" where
  "pod_label pod_id state =
    (case (case state of None \<Rightarrow> None | Some st \<Rightarrow> find (\<lambda>(label, pid). pid = pod_id) (st_pods st)) of
       Some (label, pid) \<Rightarrow> ''pod '' @ label
     | None \<Rightarrow> ''pod '' @ take POD_ID_SHORT_CHARS pod_id)"

text \<open>\<open>list(dict.fromkeys(xs))\<close>: the first of each.\<close>

definition first_of_each :: "'a list \<Rightarrow> 'a list" where
  "first_of_each xs = dict_keys (dict_update [] (map (\<lambda>x. (x, ())) xs))"

text \<open>\<open>model.split('@', 1)[0].split('/', 1)[-1]\<close>.\<close>

definition short_model_name :: "string \<Rightarrow> string" where
  "short_model_name model =
    (let repo = before_char CHR ''@'' model
     in if CHR ''/'' \<in> set repo then after_char CHR ''/'' repo else repo)"

definition model_names :: "recorded_job list \<Rightarrow> string list" where
  "model_names jobs = first_of_each (map (\<lambda>r. short_model_name (row_model r)) (timing_rows jobs))"

section \<open>The date in the name of a run\<close>

text \<open>
  \<open>strptime(runid, '%Y%m%d-%H%M%S')\<close>: every field is an alternation of a regular expression,
  tried in its order; the text must be used up, and the date must exist. A field is the list
  of the ways it can match: the value and the rest.
\<close>

type_synonym field = "string \<Rightarrow> (nat \<times> string) list"

definition digits_upto :: "nat \<Rightarrow> string \<Rightarrow> (nat \<times> string) list" where
  "digits_upto n s =
    (if n \<le> length s \<and> list_all (\<lambda>x. digit_val x \<noteq> None) (take n s)
     then [(foldl (\<lambda>acc x. 10 * acc + the (digit_val x)) 0 (take n s), drop n s)] else [])"

definition between :: "nat \<Rightarrow> nat \<Rightarrow> (nat \<times> string) list \<Rightarrow> (nat \<times> string) list" where
  "between lo hi = filter (\<lambda>(v, s). lo \<le> v \<and> v \<le> hi)"

definition year_field :: field where
  "year_field s = digits_upto 4 s"

definition month_field :: field where
  "month_field s = between 10 12 (digits_upto 2 s) @ between 1 9 (digits_upto 2 s) @ between 1 9 (digits_upto 1 s)"

definition day_field :: field where
  "day_field s = between 30 31 (digits_upto 2 s) @ between 10 29 (digits_upto 2 s) @
     between 1 9 (digits_upto 2 s) @ between 1 9 (digits_upto 1 s) @
     (case s of [] \<Rightarrow> [] | x # t \<Rightarrow> if x = CHR '' '' then between 1 9 (digits_upto 1 t) else [])"

definition dash_field :: field where
  "dash_field s = (case s of [] \<Rightarrow> [] | x # t \<Rightarrow> if x = CHR ''-'' then [(0, t)] else [])"

definition hour_field :: field where
  "hour_field s = between 20 23 (digits_upto 2 s) @ between 0 19 (digits_upto 2 s) @ digits_upto 1 s"

definition minute_field :: field where
  "minute_field s = between 0 59 (digits_upto 2 s) @ digits_upto 1 s"

definition second_field :: field where
  "second_field s = between 60 61 (digits_upto 2 s) @ between 0 59 (digits_upto 2 s) @ digits_upto 1 s"

text \<open>The first way that all fields match, with what is left of the text.\<close>

fun match_fields :: "field list \<Rightarrow> string \<Rightarrow> (nat list \<times> string) list" where
  "match_fields [] s = [([], s)]"
| "match_fields (f # fs) s =
    concat (map (\<lambda>(v, t). map (\<lambda>(vs, u). (v # vs, u)) (match_fields fs t)) (f s))"

definition days_in_month :: "nat \<Rightarrow> nat \<Rightarrow> nat" where
  "days_in_month y m =
    (if m = 2 then (if y mod 4 = 0 \<and> (y mod 100 \<noteq> 0 \<or> y mod 400 = 0) then 29 else 28)
     else if m \<in> {4, 6, 9, 11} then 30 else 31)"

definition RUNID_FIELDS :: "field list" where
  "RUNID_FIELDS = [year_field, month_field, day_field, dash_field, hour_field, minute_field, second_field]"

definition run_datetime :: "string \<Rightarrow> string" where
  "run_datetime runid =
    (case match_fields RUNID_FIELDS runid of
       ([y, mo, d, x, h, mi, sec], []) # rest \<Rightarrow>
         if 1 \<le> y \<and> d \<le> days_in_month y mo \<and> sec \<le> 59
         then pad_zeros 4 (str_nat y) @ ''-'' @ pad_zeros 2 (str_nat mo) @ ''-'' @ pad_zeros 2 (str_nat d) @ '' '' @
              pad_zeros 2 (str_nat h) @ '':'' @ pad_zeros 2 (str_nat mi)
         else runid
     | _ \<Rightarrow> runid)"

section \<open>Header and headline\<close>

definition plural :: "nat \<Rightarrow> string" where
  "plural n = (if n \<noteq> 1 then ''s'' else [])"

definition fleet_description :: "provision_state option \<Rightarrow> string" where
  "fleet_description state =
    (case state of None \<Rightarrow> ''no pods/endpoints recorded''
     | Some st \<Rightarrow>
         if st_pods st \<noteq> []
         then str_nat (length (st_pods st)) @ '' cache pod'' @ plural (length (st_pods st))
         else (let owned = filter (\<lambda>k. k \<noteq> BASELINE_LABEL) (dict_keys (st_endpoints st))
               in if owned \<noteq> [] then str_nat (length owned) @ '' endpoint'' @ plural (length owned)
                  else ''no pods/endpoints recorded''))"

definition header_lines ::
  "string \<Rightarrow> string \<Rightarrow> recorded_job list \<Rightarrow> provision_state option \<Rightarrow> string list" where
  "header_lines runid mechanism jobs state =
    (let models = model_names jobs;
         model_str = (if models \<noteq> [] then join_text '', '' models else ''no models recorded'')
     in [''# Cache testbed report '' @ em_dash @ '' '' @ mechanism, [],
         ''**'' @ run_datetime runid @ '' '' @ middle_dot @ '' models: '' @ model_str @ '' '' @ middle_dot @
           '' '' @ fleet_description state @ ''**'', []])"

definition one_line_modelstore :: "recorded_job list \<Rightarrow> string list res" where
  "one_line_modelstore jobs =
    (let rows = timing_rows jobs
     in res_bind (latency_by_schema_phase rows) (\<lambda>lat. case map_of lat ''warm'' of
          None \<Rightarrow> Inr [''## In one line'', [],
            ''_Not enough data yet '' @ em_dash @ '' need at least one Model Store warm run._'', []]
        | Some warm_e2e \<Rightarrow> res_bind (steady_state_by_schema_phase rows) (\<lambda>steady.
            let steady_str = (case map_of steady ''warm'' of None \<Rightarrow> ''n/a''
                              | Some s \<Rightarrow> format_seconds (Some (ps_median_s s)))
            in Inr [''## In one line'', [],
              ''Model Store is **two separate claims**, not one speedup:'',
              ''**(a) cheapest and fastest once running** '' @ em_dash @
                '' a warm worker'' @ [CHR 0x27] @ ''s own execution/read time is **'' @ steady_str @
                ''** (staging is unbilled to the caller);'',
              ''**(b) highest cold-start latency** '' @ em_dash @ '' the caller'' @ [CHR 0x27] @
                ''s end-to-end wait is **'' @ format_seconds (Some (ps_median_s warm_e2e)) @
                ''**, dominated by the platform'' @ [CHR 0x27] @ ''s placement/staging '' @
                ''wait, which recurs on every cold worker at scale-out.'', []])))"

definition one_line_lines ::
  "string \<Rightarrow> recorded_job list \<Rightarrow> metric_row list \<Rightarrow> string list res" where
  "one_line_lines mechanism jobs metrics_rows =
    (if mechanism = ''modelstore'' then one_line_modelstore jobs
     else res_bind (headline_vs_baseline (timing_rows jobs)) (\<lambda>h. case hl_speedup h of
         None \<Rightarrow> Inr [''## In one line'', [],
           ''_Not enough data yet to compute a baseline'' @ right_arrow @ ''warm speedup '' @
             ''(need at least one baseline run and one warm run)._'', []]
       | Some speedup \<Rightarrow>
           let sentence = ''A cold model download took **'' @ format_seconds (hl_base_median_s h) @ ''**; '' @
                 ''once the cache was warm, repeat pulls took **'' @ format_seconds (hl_warm_median_s h) @
                 ''** '' @ em_dash @ '' **'' @ fixed_text 1 speedup @ times_sign @ '' faster**.'';
               p = peering_payoff metrics_rows;
               peering = (if metrics_rows \<noteq> [] \<and> (peer_bytes p \<noteq> 0 \<or> wan_bytes p \<noteq> 0)
                 then '' **'' @ format_percent (Some (peer_fraction p)) @ '' of cache-miss bytes came from a '' @
                   ''neighboring cache pod** over the datacenter backbone instead of the public internet.''
                 else [])
           in Inr [''## In one line'', [], sentence @ peering, []]))"

section \<open>The tables\<close>

definition BASELINE_PHASE_DESC :: string where
  "BASELINE_PHASE_DESC = ''naive pull straight from HuggingFace (no cache)''"

definition PHASE_DESCRIPTIONS :: "(string, (string, string) pydict) pydict" where
  "PHASE_DESCRIPTIONS =
    [(''shim'', [(''populate'', ''first pull, fills the cache''),
                 (''warm'', ''pull through a cache that already has it'')]),
     (''volumecache'', [(''populate'', ''first pull, fills the volume''),
                        (''warm'', ''later pull, restored from the volume'')]),
     (''modelstore'', [(''warm'', ''pull from the platform'' @ [CHR 0x27] @ ''s pre-staged model cache'')])]"

definition phase_description :: "string \<Rightarrow> string \<Rightarrow> string" where
  "phase_description mechanism phase =
    (if phase = ''baseline'' then BASELINE_PHASE_DESC
     else dict_get phase phase (dict_get mechanism [] PHASE_DESCRIPTIONS))"

definition staging_note_lines :: "timing_row list \<Rightarrow> string list res" where
  "staging_note_lines rows =
    (let warm_delays = concat (map (\<lambda>r. case row_delay_seconds r of None \<Rightarrow> []
           | Some d \<Rightarrow> if row_phase r = ''warm'' \<and> d \<noteq> 0 then [d] else []) rows)
     in if warm_delays = [] then Inr []
        else res_bind (py_median warm_delays) (\<lambda>median.
          Inr [''_A large share of this end-to-end wait (median **'' @ format_seconds (Some median) @ ''**) '' @
            ''is **provisioning-triggered platform staging** (`delayTime`), which is unbilled '' @ em_dash @
            '' but it recurs on every cold worker at scale-out. See '' @ [CHR 0x22] @ ''Steady-state'' @ [CHR 0x22] @
            '' below for the once-running, like-for-like number._'', []]))"

text \<open>One table row for each phase of the schema that has statistics.\<close>

definition phase_lines :: "string \<Rightarrow> (string, phase_stats) pydict \<Rightarrow> string list" where
  "phase_lines mechanism lat =
    concat (map (\<lambda>phase. case map_of lat phase of None \<Rightarrow> []
      | Some d \<Rightarrow> [''| '' @ phase @ '' | '' @ phase_description mechanism phase @ '' | '' @ str_nat (ps_n d) @ '' | '' @
            format_seconds (Some (ps_median_s d)) @ '' | '' @ format_bytes (Some (of_int (ps_total_bytes d))) @ '' |''])
      SCHEMA_PHASES)"

definition cold_vs_warm_lines :: "string \<Rightarrow> recorded_job list \<Rightarrow> string list res" where
  "cold_vs_warm_lines mechanism jobs =
    (let rows = timing_rows jobs
     in res_bind (latency_by_schema_phase rows) (\<lambda>lat.
        if lat = [] then Inr [''## Cold-start latency (end-to-end)'', [],
             ''_No timing data captured for this run._'', []]
        else res_bind
          (if mechanism = ''modelstore'' then staging_note_lines rows
           else res_bind (headline_vs_baseline rows) (\<lambda>h. Inr (case hl_speedup h of None \<Rightarrow> []
             | Some speedup \<Rightarrow> [''_Warm reads are **'' @ fixed_text 1 speedup @ times_sign @
                   ''** faster than going to HuggingFace._'', []])))
          (\<lambda>note. Inr ([''## Cold-start latency (end-to-end)'', [],
             ''_What the caller actually waits: submit '' @ right_arrow @
               '' ready (queue + placement/staging + execution)._'', [],
             ''| stage | what it measures | runs | median | data |'', ''|---|---|---|---|---|''] @
             phase_lines mechanism lat @ [[]] @ note))))"

definition steady_state_lines :: "string \<Rightarrow> recorded_job list \<Rightarrow> string list res" where
  "steady_state_lines mechanism jobs =
    res_bind (steady_state_by_schema_phase (timing_rows jobs)) (\<lambda>lat.
      Inr (if lat = [] then []
        else [''## Steady-state (once running)'', [],
          ''_Like-for-like: execution/read time only, with queue and placement/staging wait excluded. '' @
            ''This is who'' @ [CHR 0x27] @ ''s fastest once a worker is actually running._'', [],
          ''| stage | what it measures | runs | median | data |'', ''|---|---|---|---|---|''] @
          phase_lines mechanism lat @ [[]]))"

definition coldstart_lines :: "recorded_job list \<Rightarrow> string list res" where
  "coldstart_lines jobs =
    res_bind (coldstart jobs) (\<lambda>cs.
      Inr (if cs_n_cold cs = 0
        then [''## Cold start'', [], ''_No cold-start (first-invocation) jobs recorded this run._'', []]
        else [''## Cold start'', [],
          ''**'' @ str_nat (cs_n_cold cs) @ ''** job(s) hit a genuine cold start (first invocation on a fresh worker) '' @
            ''this run.'',
          ''Cold jobs averaged **'' @ format_seconds (cs_cold_mean_s cs) @ ''**; '' @
            ''warm jobs averaged **'' @ format_seconds (cs_warm_mean_s cs) @ ''**.''] @
          (case cs_dep_upgrade_ms cs of None \<Rightarrow> []
           | Some ms \<Rightarrow> if ms = 0 then [] else
               [''Installing dependencies on that cold worker added **'' @ fixed_text 1 (ms / MS_PER_SECOND) @
                 ''s** on average.'']) @ [[]]))"

definition render_timing_core ::
  "string \<Rightarrow> string \<Rightarrow> recorded_job list \<Rightarrow> metric_row list \<Rightarrow> provision_state option \<Rightarrow> string list res" where
  "render_timing_core runid mechanism jobs metrics_rows state =
    res_bind (one_line_lines mechanism jobs metrics_rows) (\<lambda>one.
    res_bind (cold_vs_warm_lines mechanism jobs) (\<lambda>cold.
    res_bind (steady_state_lines mechanism jobs) (\<lambda>steady.
    res_bind (coldstart_lines jobs) (\<lambda>cs.
      Inr (header_lines runid mechanism jobs state @ one @ cold @ steady @ cs)))))"

section \<open>The sections of the shim\<close>

definition NO_METRICS :: string where
  "NO_METRICS = ''_No pod metrics captured for this run (`make scrape` was not running); section omitted._''"

text \<open>\<open>sorted({r['pod'] for r in rows})\<close>, with the final values of each pod alone.\<close>

definition per_pod_stats :: "metric_row list \<Rightarrow> (string, rat \<times> rat) pydict" where
  "per_pod_stats rows =
    map (\<lambda>pod. let pod_rows = filter (\<lambda>r. mt_pod r = pod) rows
               in (pod, final_by_pod pod_rows ''xet_effective_hit_rate'',
                   final_by_pod pod_rows ''xet_wan_bytes_saved''))
      (sort (remdups (map mt_pod rows)))"

definition peering_lines :: "peering_stats \<Rightarrow> string list" where
  "peering_lines p =
    (if peer_bytes p = 0 \<and> wan_bytes p = 0 then [''_Peering not exercised this run._'', []]
     else [''Of all cache-miss bytes, **'' @ format_percent (Some (peer_fraction p)) @ '' ('' @
         format_bytes (Some (peer_bytes p)) @ '') were served peer-to-peer** over the backbone; '' @
         ''only **'' @ format_percent (Some (1 - peer_fraction p)) @ '' ('' @ format_bytes (Some (wan_bytes p)) @
         '')** fell back to the internet.'' @
         (if hedge_win_ratio p \<noteq> 0
          then '' When a peer lagged, the hedge raced the CDN and the peer still won **'' @
            format_percent (Some (hedge_win_ratio p)) @ ''** of the time.''
          else []),
       [], ''_(Higher peer % = less internet egress = the point of the system.)_'', []])"

definition heap_lines :: "rat \<Rightarrow> string list" where
  "heap_lines peak =
    (if peak = 0 then []
     else [''## Peak shim heap (RSS proxy)'', [],
       ''Highest `xet_heap_inuse_bytes` on any pod this run: **'' @ format_bytes (Some peak) @ ''**. '' @
       ''Streaming cache hits is the default; compare against a `STREAM_CACHE_HITS=0` '' @
       ''(buffered) run to see the memory it avoids '' @ em_dash @ '' buffered serving peaks with '' @
       ''concurrency '' @ times_sign @ '' range size, streamed serving stays flat.'', []])"

definition shim_report_sections :: "metric_row list \<Rightarrow> provision_state option \<Rightarrow> string list" where
  "shim_report_sections rows state =
    (if rows = []
     then [''## Per-pod cache effectiveness'', [], NO_METRICS, [],
           ''## Where the bytes came from (peering)'', [], NO_METRICS, []]
     else [''## Per-pod cache effectiveness'', [], ''| pod | hit rate | internet traffic avoided |'', ''|---|---|---|''] @
       map (\<lambda>(pod, hit_rate, saved). ''| '' @ pod_label pod state @ '' | '' @ format_percent (Some hit_rate) @ '' | '' @
         format_bytes (Some saved) @ '' |'') (per_pod_stats rows) @
       [[], ''## Where the bytes came from (peering)'', []] @
       peering_lines (peering_payoff rows) @ heap_lines (heap_peak_bytes rows))"

text \<open>The report of a run: the timing core and the sections of its mechanism.\<close>

definition report_lines ::
  "string \<Rightarrow> string \<Rightarrow> recorded_job list \<Rightarrow> metric_row list \<Rightarrow> provision_state option \<Rightarrow> string list res" where
  "report_lines runid mechanism jobs metrics_rows state =
    res_bind (render_timing_core runid mechanism jobs metrics_rows state) (\<lambda>core.
      Inr (core @ (if mechanism = ''shim'' then shim_report_sections metrics_rows state else [])))"

section \<open>A report is always rendered\<close>

text \<open>A row that the driver can have recorded for a mechanism's job has a result.\<close>

definition has_result :: "recorded_job \<Rightarrow> bool" where
  "has_result j \<longleftrightarrow> rj_result j \<noteq> No_output"

lemma results_of_total: "has_result j \<Longrightarrow> \<exists>rs. results_of (rj_result j) = Inr rs"
  by (cases "rj_result j") (auto simp: has_result_def results_of_def)

lemma coldstart_total:
  assumes "list_all has_result jobs"
  shows "\<exists>cs. coldstart jobs = Inr cs"
proof -
  have "\<exists>acc. coldstart_job j a = Inr acc" if j: "has_result j" for j a
  proof -
    obtain rs where "results_of (rj_result j) = Inr rs" using results_of_total [OF j] by blast
    then show ?thesis by (cases "rj_result j") (auto simp: coldstart_job_def Let_def split: prod.split)
  qed
  then have "\<exists>acc. fold_res coldstart_job jobs ([], [], []) = Inr acc \<and> True"
    using assms by (intro fold_res_total) (auto simp: list_all_iff)
  then show ?thesis by (auto simp: coldstart_def split: prod.split)
qed

lemma headline_total: "\<exists>h. headline_vs_baseline rows = Inr h"
  using latency_total [of rows] by (auto simp: headline_vs_baseline_def Let_def)

lemma one_line_total: "\<exists>ls. one_line_lines mechanism jobs metrics_rows = Inr ls"
proof -
  obtain lat where "latency_by_schema_phase (timing_rows jobs) = Inr lat" using latency_total by blast
  moreover obtain steady where "steady_state_by_schema_phase (timing_rows jobs) = Inr steady"
    using steady_total by blast
  ultimately have "\<exists>ls. one_line_modelstore jobs = Inr ls"
    by (simp add: one_line_modelstore_def Let_def split: option.split)
  moreover obtain h where "headline_vs_baseline (timing_rows jobs) = Inr h" using headline_total by blast
  ultimately show ?thesis by (simp add: one_line_lines_def Let_def split: option.split)
qed

lemma staging_note_total: "\<exists>ls. staging_note_lines rows = Inr ls"
proof -
  define delays where "delays = concat (map (\<lambda>r. case row_delay_seconds r of None \<Rightarrow> []
    | Some d \<Rightarrow> if row_phase r = ''warm'' \<and> d \<noteq> 0 then [d] else []) rows)"
  show ?thesis
  proof (cases "delays = []")
    case False
    then obtain m where "py_median delays = Inr m" using py_median_total by blast
    then show ?thesis unfolding staging_note_lines_def Let_def delays_def [symmetric] using False
      by (simp only: if_False res_bind_Inr) blast
  qed (simp add: staging_note_lines_def delays_def [symmetric])
qed

lemma cold_vs_warm_total: "\<exists>ls. cold_vs_warm_lines mechanism jobs = Inr ls"
proof -
  obtain lat where lat: "latency_by_schema_phase (timing_rows jobs) = Inr lat" using latency_total by blast
  obtain h where h: "headline_vs_baseline (timing_rows jobs) = Inr h" using headline_total by blast
  obtain staged where staged: "staging_note_lines (timing_rows jobs) = Inr staged" using staging_note_total by blast
  show ?thesis by (simp add: cold_vs_warm_lines_def Let_def lat h staged)
qed

lemma steady_lines_total: "\<exists>ls. steady_state_lines mechanism jobs = Inr ls"
  using steady_total [of "timing_rows jobs"] by (auto simp: steady_state_lines_def)

text \<open>The report of any run whose jobs have a result is rendered: no phase, job, pod or metric that is
  missing, no empty list and no zero makes it raise.\<close>

theorem report_always_rendered:
  assumes "list_all has_result jobs"
  shows "\<exists>lines. report_lines runid mechanism jobs metrics_rows state = Inr lines"
proof -
  obtain one where one: "one_line_lines mechanism jobs metrics_rows = Inr one" using one_line_total by blast
  obtain cold where cold: "cold_vs_warm_lines mechanism jobs = Inr cold" using cold_vs_warm_total by blast
  obtain steady where steady: "steady_state_lines mechanism jobs = Inr steady" using steady_lines_total by blast
  obtain cs where "coldstart jobs = Inr cs" using coldstart_total [OF assms] by blast
  then have "\<exists>ls. coldstart_lines jobs = Inr ls" unfolding coldstart_lines_def by simp
  then show ?thesis by (auto simp: report_lines_def render_timing_core_def one cold steady)
qed

definition example_rows :: "recorded_job list" where
  "example_rows = map (\<lambda>(phase, wall). \<lparr>rj_job = mechanism_job ''shim'' ''A'' ''o/a@r'' phase 0, rj_submit_ts = 0,
     rj_return_ts = wall, rj_result = Worker_output example_worker,
     rj_timing = Some \<lparr>row_mechanism = ''shim'', row_phase = phase, row_model = ''o/a@r'', row_wall_seconds = wall,
       row_bytes = 100, row_breakdown = EMPTY_BREAKDOWN, row_worker_cold = True, row_ok = True,
       row_delay_seconds = None, row_exec_seconds = Some (wall / 2)\<rparr>\<rparr>)
   [(''baseline'', 12), (''populate'', 8), (''warm'', 3), (''warm'', 5)]"

theorem report_always_rendered_witness:
  "list_all has_result example_rows \<and> (\<exists>lines. report_lines ''r'' ''shim'' example_rows example_metrics None = Inr lines)"
proof -
  have "list_all has_result example_rows" by code_simp
  with report_always_rendered [OF this] show ?thesis by blast
qed

section \<open>The date of a run\<close>

text \<open>The name \<open>up.main\<close> gives a run: \<open>strftime('%Y%m%d-%H%M%S')\<close>.\<close>

definition runid_text :: "nat \<Rightarrow> nat \<Rightarrow> nat \<Rightarrow> nat \<Rightarrow> nat \<Rightarrow> nat \<Rightarrow> string" where
  "runid_text y mo d h mi sec =
    pad_zeros 4 (str_nat y) @ pad_zeros 2 (str_nat mo) @ pad_zeros 2 (str_nat d) @ ''-'' @
    pad_zeros 2 (str_nat h) @ pad_zeros 2 (str_nat mi) @ pad_zeros 2 (str_nat sec)"

definition read_digits :: "nat \<Rightarrow> string \<Rightarrow> nat" where
  "read_digits acc s = foldl (\<lambda>acc x. 10 * acc + the (digit_val x)) acc s"

lemma read_digits_append: "read_digits acc (s @ t) = read_digits (read_digits acc s) t"
  by (simp add: read_digits_def)

lemma read_str_nat: "read_digits 0 (str_nat n) = n"
proof (induction n rule: str_nat.induct)
  case (1 n)
  show ?case
  proof (cases "n < 10")
    case True
    then show ?thesis by (subst str_nat.simps) (simp add: read_digits_def)
  next
    case False
    then show ?thesis using 1 by (subst str_nat.simps) (simp add: read_digits_append, simp add: read_digits_def)
  qed
qed

lemma read_zeros: "read_digits 0 (replicate n CHR ''0'') = 0"
  by (induction n) (auto simp: read_digits_def digit_val_def)

lemma str_nat_length: "0 < k \<Longrightarrow> n < 10 ^ k \<Longrightarrow> length (str_nat n) \<le> k"
proof (induction n arbitrary: k rule: str_nat.induct)
  case (1 n)
  show ?case
  proof (cases "n < 10")
    case True
    then show ?thesis using 1(2) by (subst str_nat.simps) simp
  next
    case False
    then have "1 < k" using 1(2,3) by (cases "k = 1") auto
    then have "n div 10 < 10 ^ (k - 1)" using 1(3) by (cases k) (auto simp: less_mult_imp_div_less mult.commute)
    then show ?thesis using 1(1) [OF False, of "k - 1"] \<open>1 < k\<close> False by (subst str_nat.simps) simp
  qed
qed

lemma digits_upto_padded:
  assumes "0 < n" and "v < 10 ^ n"
  shows "digits_upto n (pad_zeros n (str_nat v) @ t) = [(v, t)]"
proof -
  let ?p = "pad_zeros n (str_nat v)"
  have len: "length ?p = n" using str_nat_length [OF assms] by (simp add: pad_zeros_def)
  have "list_all (\<lambda>x. digit_val x \<noteq> None) ?p"
    by (auto simp: pad_zeros_def list_all_iff digit_val_def [of "CHR ''0''"] dest: str_nat_digits)
  moreover have "read_digits 0 ?p = v"
    by (simp add: pad_zeros_def read_digits_append read_zeros read_str_nat)
  ultimately show ?thesis using len by (simp add: digits_upto_def read_digits_def [symmetric])
qed

lemma match_first:
  assumes "\<exists>others. f s = (v, t) # others" and "\<exists>rest. match_fields fs t = (vs, u) # rest"
  shows "\<exists>rest. match_fields (f # fs) s = (v # vs, u) # rest"
  using assms by auto

lemma match_none: "\<exists>rest. match_fields [] s = ([], s) # rest"
  by simp

lemma two_digits: "v < 100 \<Longrightarrow> digits_upto 2 (pad_zeros 2 (str_nat v) @ t) = [(v, t)]"
  by (rule digits_upto_padded) simp_all

lemma between_one: "between lo hi [(v, t)] = (if lo \<le> v \<and> v \<le> hi then [(v, t)] else [])"
  by (simp add: between_def)

lemma field_firsts:
  "y < 10000 \<Longrightarrow> \<exists>more. year_field (pad_zeros 4 (str_nat y) @ t) = (y, t) # more"
  "1 \<le> mo \<Longrightarrow> mo \<le> 12 \<Longrightarrow> \<exists>more. month_field (pad_zeros 2 (str_nat mo) @ t) = (mo, t) # more"
  "1 \<le> d \<Longrightarrow> d \<le> 31 \<Longrightarrow> \<exists>more. day_field (pad_zeros 2 (str_nat d) @ t) = (d, t) # more"
  "\<exists>more. dash_field (''-'' @ t) = (0, t) # more"
  "h \<le> 23 \<Longrightarrow> \<exists>more. hour_field (pad_zeros 2 (str_nat h) @ t) = (h, t) # more"
  "mi \<le> 59 \<Longrightarrow> \<exists>more. minute_field (pad_zeros 2 (str_nat mi) @ t) = (mi, t) # more"
  "sec \<le> 59 \<Longrightarrow> \<exists>more. second_field (pad_zeros 2 (str_nat sec) @ t) = (sec, t) # more"
  by (simp_all add: year_field_def month_field_def day_field_def dash_field_def hour_field_def minute_field_def
      second_field_def two_digits between_one digits_upto_padded)

text \<open>The name of a run that provisioning gives it is read back by the report as the date and time
  of the run.\<close>

theorem run_datetime_of_runid:
  assumes "1 \<le> y" "y < 10000" "1 \<le> mo" "mo \<le> 12" "1 \<le> d" "d \<le> days_in_month y mo" "h \<le> 23" "mi \<le> 59" "sec \<le> 59"
  shows "run_datetime (runid_text y mo d h mi sec) =
    pad_zeros 4 (str_nat y) @ ''-'' @ pad_zeros 2 (str_nat mo) @ ''-'' @ pad_zeros 2 (str_nat d) @ '' '' @
    pad_zeros 2 (str_nat h) @ '':'' @ pad_zeros 2 (str_nat mi)"
proof -
  have d: "d \<le> 31" using assms(6) by (simp add: days_in_month_def split: if_splits)
  have "\<exists>rest. match_fields RUNID_FIELDS (runid_text y mo d h mi sec) = ([y, mo, d, 0, h, mi, sec], []) # rest"
    unfolding RUNID_FIELDS_def runid_text_def
    by (rule match_first, rule field_firsts(1) [OF assms(2)], rule match_first, rule field_firsts(2) [OF assms(3,4)],
      rule match_first, rule field_firsts(3) [OF assms(5) d], rule match_first, rule field_firsts(4),
      rule match_first, rule field_firsts(5) [OF assms(7)], rule match_first, rule field_firsts(6) [OF assms(8)],
      rule match_first, rule field_firsts(7) [OF assms(9), where t = "[]", unfolded append_Nil2], rule match_none)
  then show ?thesis using assms by (auto simp: run_datetime_def)
qed

theorem run_datetime_of_runid_witness:
  "runid_text 2026 9 24 8 5 59 = ''20260924-080559'' \<and> run_datetime ''20260924-080559'' = ''2026-09-24 08:05''"
proof -
  have texts: "str_nat 2026 = ''2026''" "str_nat 9 = ''9''" "str_nat 24 = ''24''" "str_nat 8 = ''8''"
      "str_nat 5 = ''5''" "str_nat 59 = ''59''"
    by (simp_all add: str_nat.simps digit_char_values)
  have padded: "pad_zeros 4 ''2026'' = ''2026''" "pad_zeros 2 ''9'' = ''09''" "pad_zeros 2 ''24'' = ''24''"
      "pad_zeros 2 ''8'' = ''08''" "pad_zeros 2 ''5'' = ''05''" "pad_zeros 2 ''59'' = ''59''"
    by code_simp+
  have "runid_text 2026 9 24 8 5 59 = ''20260924-080559''"
    by (simp add: runid_text_def texts padded)
  moreover have "run_datetime (runid_text 2026 9 24 8 5 59) = ''2026-09-24 08:05''"
    by (subst run_datetime_of_runid) (simp_all add: days_in_month_def texts padded)
  ultimately show ?thesis by simp
qed

end
