(* ===== verification/Compare.thy ===== *)
theory Compare
  imports Report_Text
begin

text \<open>
  \<open>harvest/compare.py\<close>: the roll-up of several runs. The jobs files are a function from a run's
  file to its rows (\<open>None\<close> where there is no file); the date and the time of the roll-up are
  arguments.
\<close>

section \<open>Arguments and files\<close>

definition MECHANISM_ORDER :: "string list" where
  "MECHANISM_ORDER = [''shim'', ''volumecache'', ''modelstore'']"

definition WARM_PHASE_PRIORITY :: "string list" where
  "WARM_PHASE_PRIORITY = [''warm'', ''populate'']"

definition SIGNIFICANT_DELAY_SECONDS :: rat where
  "SIGNIFICANT_DELAY_SECONDS = 1"

definition parse_args :: "string list \<Rightarrow> (string, string) pydict res" where
  "parse_args argv =
    fold_res (\<lambda>arg runids.
      if CHR ''='' \<notin> set arg then Inl (ValueError (''expected mechanism=runid, got '' @ py_repr arg))
      else Inr (AList.update (before_char CHR ''='' arg) (after_char CHR ''='' arg) runids)) argv []"

type_synonym jobs_files = "string \<Rightarrow> recorded_job list option"

definition jobs_path :: "string \<Rightarrow> string" where
  "jobs_path runid = ''data/jobs-'' @ runid @ ''.jsonl''"

definition load_mechanism_jobs :: "jobs_files \<Rightarrow> string \<Rightarrow> string \<Rightarrow> recorded_job list res" where
  "load_mechanism_jobs files mechanism runid =
    (case files (jobs_path runid) of
       None \<Rightarrow> Inl (FileNotFoundError (''no jobs file for '' @ mechanism @ ''='' @ runid @ '': '' @
                 jobs_path runid @ '' does not exist''))
     | Some jobs \<Rightarrow>
         if jobs = [] then Inl (ValueError (''jobs file for '' @ mechanism @ ''='' @ runid @ '' ('' @
                jobs_path runid @ '') is empty''))
         else Inr jobs)"

section \<open>Numbers of a mechanism\<close>

fun pick_bucket :: "(string, phase_stats) pydict \<Rightarrow> string list \<Rightarrow> phase_stats option" where
  "pick_bucket buckets [] = None"
| "pick_bucket buckets (phase # priority) =
    (case map_of buckets phase of Some b \<Rightarrow> Some b | None \<Rightarrow> pick_bucket buckets priority)"

definition median_s :: "phase_stats option \<Rightarrow> rat option" where
  "median_s bucket = map_option ps_median_s bucket"

definition ratio :: "rat option \<Rightarrow> rat option \<Rightarrow> rat option" where
  "ratio numerator denominator =
    (case (numerator, denominator) of
       (Some a, Some b) \<Rightarrow> if b = 0 then None else Some (a / b) | _ \<Rightarrow> None)"

definition warm_delay_median :: "timing_row list \<Rightarrow> (string, phase_stats) pydict \<Rightarrow> rat res" where
  "warm_delay_median rows wall_buckets =
    (case find (\<lambda>p. has_key p wall_buckets) WARM_PHASE_PRIORITY of
       None \<Rightarrow> Inr 0
     | Some warm_phase \<Rightarrow>
         (let delays = concat (map (\<lambda>r. case row_delay_seconds r of None \<Rightarrow> []
                | Some d \<Rightarrow> if row_phase r = warm_phase \<and> row_ok r \<and> d \<noteq> 0 then [d] else []) rows)
          in if delays \<noteq> [] then py_median delays else Inr 0))"

record shared_baseline =
  sb_runid :: string
  sb_wall :: rat
  sb_exec :: rat

definition compute_shared_baseline :: "jobs_files \<Rightarrow> string \<Rightarrow> shared_baseline res" where
  "compute_shared_baseline files runid =
    res_bind (load_mechanism_jobs files ''baseline'' runid) (\<lambda>jobs.
    res_bind (latency_by_schema_phase (timing_rows jobs)) (\<lambda>lat.
    res_bind (steady_state_by_schema_phase (timing_rows jobs)) (\<lambda>steady.
      case (median_s (map_of lat ''baseline''), median_s (map_of steady ''baseline'')) of
        (Some wall, Some exec) \<Rightarrow> Inr \<lparr>sb_runid = runid, sb_wall = wall, sb_exec = exec\<rparr>
      | _ \<Rightarrow> Inl (ValueError (''pinned baseline run '' @ py_repr runid @ '' ('' @ jobs_path runid @
              '') has no baseline-phase rows to compute a shared baseline from'')))))"

record mechanism_numbers =
  mn_mechanism :: string
  mn_baseline_wall :: "rat option"
  mn_warm_wall :: "rat option"
  mn_baseline_exec :: "rat option"
  mn_warm_exec :: "rat option"
  mn_delay_median :: rat
  mn_coldstart_speedup :: "rat option"
  mn_steadystate_speedup :: "rat option"

definition mechanism_stats ::
  "string \<Rightarrow> recorded_job list \<Rightarrow> shared_baseline option \<Rightarrow> mechanism_numbers res" where
  "mechanism_stats mechanism jobs shared =
    (let rows = timing_rows jobs
     in res_bind (latency_by_schema_phase rows) (\<lambda>wall.
        res_bind (steady_state_by_schema_phase rows) (\<lambda>exec.
          let baseline_wall = (case shared of Some s \<Rightarrow> Some (sb_wall s) | None \<Rightarrow> median_s (map_of wall ''baseline''));
              baseline_exec = (case shared of Some s \<Rightarrow> Some (sb_exec s) | None \<Rightarrow> median_s (map_of exec ''baseline''));
              warm_wall = median_s (pick_bucket wall WARM_PHASE_PRIORITY);
              warm_exec = median_s (pick_bucket exec WARM_PHASE_PRIORITY)
          in res_bind (warm_delay_median rows wall) (\<lambda>delay.
               Inr \<lparr>mn_mechanism = mechanism, mn_baseline_wall = baseline_wall, mn_warm_wall = warm_wall,
                    mn_baseline_exec = baseline_exec, mn_warm_exec = warm_exec, mn_delay_median = delay,
                    mn_coldstart_speedup = ratio baseline_wall warm_wall,
                    mn_steadystate_speedup = ratio baseline_exec warm_exec\<rparr>))))"

section \<open>The lines of the roll-up\<close>

definition compare_header_lines :: "string \<Rightarrow> (string, string) pydict \<Rightarrow>
  (string, recorded_job list) pydict \<Rightarrow> shared_baseline option \<Rightarrow> string list" where
  "compare_header_lines today runids jobs_by_mechanism shared =
    (let models = sort (remdups (concat (map (\<lambda>(m, jobs). model_names jobs) jobs_by_mechanism)));
         model_str = (if models \<noteq> [] then join_text '', '' models else ''no models recorded'');
         runid_str = join_text ''; '' (concat (map (\<lambda>mech. case map_of runids mech of None \<Rightarrow> []
             | Some r \<Rightarrow> [mech @ ''='' @ r]) MECHANISM_ORDER))
     in [''# Cache mechanism comparison'', [],
         ''**'' @ today @ '' '' @ middle_dot @ '' models: '' @ model_str @ '' '' @ middle_dot @ '' runs: '' @
           runid_str @ ''**'', []] @
        (case shared of None \<Rightarrow> []
         | Some s \<Rightarrow>
             [''**Shared baseline: pinned from run `'' @ sb_runid s @ ''`** '' @ ''(wall '' @
                format_seconds (Some (sb_wall s)) @ '', '' @ ''steady-state '' @ format_seconds (Some (sb_exec s)) @
                '').'', [],
              ''_Every mechanism'' @ [CHR 0x27] @ ''s speedup below is computed against this one baseline, not its own '' @
                ''run'' @ [CHR 0x27] @ ''s baseline, so the numbers are directly comparable '' @ em_dash @
                '' the pinned run'' @ [CHR 0x27] @ ''s instance type and conditions define the reference._'', []]))"

definition speedup_str :: "rat option \<Rightarrow> string" where
  "speedup_str speedup = (case speedup of None \<Rightarrow> ''n/a'' | Some x \<Rightarrow> fixed_text 2 x @ times_sign)"

definition table_header :: "shared_baseline option \<Rightarrow> string \<Rightarrow> string list" where
  "table_header shared baseline_label =
    (if shared \<noteq> None
     then [''_baseline (shared, see above): '' @ baseline_label @ ''_'', [],
           ''| mechanism | warm | speedup |'', ''|---|---|---|'']
     else [''| mechanism | baseline | warm | speedup |'', ''|---|---|---|---|''])"

definition significant :: "mechanism_numbers \<Rightarrow> bool" where
  "significant s \<longleftrightarrow> SIGNIFICANT_DELAY_SECONDS \<le> mn_delay_median s"

definition star_marker :: string where
  "star_marker = [CHR 0x5C, CHR ''*'']"

text \<open>The cell of the mechanism's own baseline; there is none with a shared one.\<close>

definition baseline_cell :: "shared_baseline option \<Rightarrow> rat option \<Rightarrow> string" where
  "baseline_cell shared own_baseline = (if shared \<noteq> None then [] else format_seconds own_baseline @ '' | '')"

definition coldstart_table :: "mechanism_numbers list \<Rightarrow> shared_baseline option \<Rightarrow> string list" where
  "coldstart_table stats_list shared =
    (let footnotes = map (\<lambda>s. star_marker @ '' **'' @ mn_mechanism s @ ''**: '' @
           format_seconds (Some (mn_delay_median s)) @ '' of this is unbilled '' @
           ''provisioning-triggered staging, recurring per cold worker.'') (filter significant stats_list)
     in [''## Cold-start latency (end-to-end)'', [],
         ''_What the caller actually waits: submit '' @ right_arrow @ '' ready._'', []] @
        table_header shared (case shared of Some s \<Rightarrow> format_seconds (Some (sb_wall s)) | None \<Rightarrow> []) @
        map (\<lambda>s. ''| '' @ mn_mechanism s @ (if significant s then star_marker else []) @ '' | '' @
          baseline_cell shared (mn_baseline_wall s) @ format_seconds (mn_warm_wall s) @ '' | '' @
          speedup_str (mn_coldstart_speedup s) @ '' |'') stats_list @
        [[]] @ (if footnotes \<noteq> [] then footnotes @ [[]] else []))"

definition steadystate_table :: "mechanism_numbers list \<Rightarrow> shared_baseline option \<Rightarrow> string list" where
  "steadystate_table stats_list shared =
    [''## Steady-state (once running)'', [],
     ''_Like-for-like: execution/read time only, queue and staging wait excluded._'', []] @
    table_header shared (case shared of Some s \<Rightarrow> format_seconds (Some (sb_exec s)) | None \<Rightarrow> []) @
    map (\<lambda>s. ''| '' @ mn_mechanism s @ '' | '' @ baseline_cell shared (mn_baseline_exec s) @
      format_seconds (mn_warm_exec s) @ '' | '' @ speedup_str (mn_steadystate_speedup s) @ '' |'') stats_list @
    [[]]"

definition clean_win_sentence :: "(string, mechanism_numbers) pydict \<Rightarrow> string option" where
  "clean_win_sentence by_mechanism =
    (let wins = concat (map (\<lambda>m. case map_of by_mechanism m of None \<Rightarrow> []
           | Some s \<Rightarrow> (case mn_coldstart_speedup s of None \<Rightarrow> [] | Some x \<Rightarrow> [(mn_mechanism s, x)]))
         [''shim'', ''volumecache'']);
         parts = map (\<lambda>(m, x). ''**'' @ m @ ''** ('' @ fixed_text 1 x @ times_sign @ '')'') wins
     in if wins = [] then None
        else Some (join_text '' and '' parts @ '' are clean end-to-end wins: the cache fill is a one-time cost, and '' @
               ''every subsequent read is faster, full stop.''))"

definition modelstore_sentence :: "mechanism_numbers option \<Rightarrow> string option" where
  "modelstore_sentence s =
    (case s of None \<Rightarrow> None
     | Some s \<Rightarrow> (case (mn_coldstart_speedup s, mn_steadystate_speedup s) of
         (Some cold, Some steady) \<Rightarrow>
           Some (''**modelstore** is two separate claims, not one speedup: once a worker is running, its read is '' @
             ''the fastest of the three ('' @ fixed_text 1 steady @ times_sign @ '' steady-state), but its cold-start '' @
             ''is the *worst* end-to-end wait ('' @ format_seconds (mn_warm_wall s) @ '' vs '' @
             format_seconds (mn_baseline_wall s) @ '' baseline, a '' @ fixed_text 2 cold @ times_sign @ '' '' @
             [CHR 0x22] @ ''speedup'' @ [CHR 0x22] @ '' '' @ em_dash @ '' i.e. slower), dominated by unbilled '' @
             ''platform staging that recurs on every cold worker.'')
       | _ \<Rightarrow> None))"

definition verdict_lines :: "mechanism_numbers list \<Rightarrow> string list" where
  "verdict_lines stats_list =
    (let by_mechanism = dict_update [] (map (\<lambda>s. (mn_mechanism s, s)) stats_list);
         sentences = [clean_win_sentence by_mechanism, modelstore_sentence (map_of by_mechanism ''modelstore'')]
     in [''## Verdict'', []] @ concat (map (\<lambda>s. case s of None \<Rightarrow> [] | Some t \<Rightarrow> [t]) sentences) @ [[]])"

definition load_all :: "jobs_files \<Rightarrow> (string, string) pydict \<Rightarrow> (string, recorded_job list) pydict res" where
  "load_all files runids =
    map_res (\<lambda>(m, r). res_bind (load_mechanism_jobs files m r) (\<lambda>jobs. Inr (m, jobs))) runids"

definition build_report ::
  "jobs_files \<Rightarrow> string \<Rightarrow> string \<Rightarrow> (string, string) pydict \<Rightarrow> (string \<times> string) res" where
  "build_report files today stamp runids =
    (let mechanism_runids = filter (\<lambda>(m, r). m \<noteq> ''baseline'') runids
     in res_bind (case map_of runids ''baseline'' of None \<Rightarrow> Inr None
          | Some r \<Rightarrow> if r = [] then Inr None
                      else res_bind (compute_shared_baseline files r) (\<lambda>s. Inr (Some s))) (\<lambda>shared.
        res_bind (load_all files mechanism_runids) (\<lambda>jobs_by_mechanism.
        res_bind (map_res (\<lambda>m. mechanism_stats m (dict_get m [] jobs_by_mechanism) shared)
            (filter (\<lambda>m. has_key m jobs_by_mechanism) MECHANISM_ORDER)) (\<lambda>stats_list.
          Inr (''data/comparison-'' @ stamp @ ''.md'',
            join_text [CHR 0x0A] (compare_header_lines today mechanism_runids jobs_by_mechanism shared @
              coldstart_table stats_list shared @ steadystate_table stats_list shared @
              verdict_lines stats_list))))))"

section \<open>What makes a roll-up fail\<close>

lemma warm_delay_total: "\<exists>d. warm_delay_median rows buckets = Inr d"
  using py_median_total by (auto simp: warm_delay_median_def Let_def simp del: has_key_iff split: option.split)

lemma mechanism_stats_total: "\<exists>s. mechanism_stats m jobs shared = Inr s"
proof -
  obtain wall where wall: "latency_by_schema_phase (timing_rows jobs) = Inr wall" using latency_total by blast
  obtain exec where exec: "steady_state_by_schema_phase (timing_rows jobs) = Inr exec" using steady_total by blast
  obtain d where "warm_delay_median (timing_rows jobs) wall = Inr d" using warm_delay_total by blast
  then show ?thesis by (simp add: mechanism_stats_def Let_def wall exec)
qed

definition has_rows :: "jobs_files \<Rightarrow> string \<Rightarrow> bool" where
  "has_rows files runid \<longleftrightarrow> (case files (jobs_path runid) of None \<Rightarrow> False | Some jobs \<Rightarrow> jobs \<noteq> [])"

lemma load_mechanism_jobs_ok: "isl (load_mechanism_jobs files m r) = (\<not> has_rows files r)"
  by (simp add: load_mechanism_jobs_def has_rows_def split: option.split)

text \<open>A run that can be pinned: it has an ok baseline job, and one whose steady time is known.\<close>

definition can_be_pinned :: "jobs_files \<Rightarrow> string \<Rightarrow> bool" where
  "can_be_pinned files runid \<longleftrightarrow>
    (case files (jobs_path runid) of None \<Rightarrow> False
     | Some jobs \<Rightarrow> list_ex (\<lambda>r. row_ok r \<and> row_phase r = ''baseline'' \<and> steady_seconds r \<noteq> None) (timing_rows jobs))"

lemma latency_lookup:
  assumes "latency_by_schema_phase rows = Inr lat"
  shows "map_of lat phase = None \<longleftrightarrow> \<not> list_ex (\<lambda>r. row_ok r \<and> row_phase r = phase) rows"
proof -
  obtain lat' where "latency_by_schema_phase rows = Inr lat'"
    and "case map_of lat' phase of None \<Rightarrow> filter (\<lambda>r. row_phase r = phase) (filter row_ok rows) = []
       | Some s \<Rightarrow> summarises (map row_wall_seconds (filter (\<lambda>r. row_phase r = phase) (filter row_ok rows)))
           (sum_list (map row_bytes (filter (\<lambda>r. row_phase r = phase) (filter row_ok rows)))) s"
    using latency_buckets [of rows] unfolding Let_def by blast
  then show ?thesis using assms
    by (cases "map_of lat phase") (auto simp: summarises_def filter_empty_conv list_ex_iff)
qed

lemma own_steady_Nil:
  "own phase (steady_pairs rows) = [] \<longleftrightarrow>
   \<not> list_ex (\<lambda>r. row_ok r \<and> row_phase r = phase \<and> steady_seconds r \<noteq> None) rows"
  by (induction rows) (auto simp: own_def steady_pairs_def split: option.splits)

lemma steady_lookup:
  assumes "steady_state_by_schema_phase rows = Inr lat"
  shows "map_of lat phase = None \<longleftrightarrow>
    \<not> list_ex (\<lambda>r. row_ok r \<and> row_phase r = phase \<and> steady_seconds r \<noteq> None) rows"
proof -
  obtain lat' where "steady_state_by_schema_phase rows = Inr lat'"
    and "case map_of lat' phase of None \<Rightarrow> own phase (steady_pairs rows) = []
       | Some s \<Rightarrow> summarises (map fst (own phase (steady_pairs rows))) (sum_list (map snd (own phase (steady_pairs rows)))) s"
    using bucket_stats [of fst snd "steady_pairs rows"] unfolding steady_state_by_schema_phase_def by blast
  then show ?thesis using assms unfolding own_steady_Nil [symmetric]
    by (cases "map_of lat phase") (auto simp: summarises_def)
qed

lemma compute_shared_baseline_ok: "isl (compute_shared_baseline files runid) = (\<not> can_be_pinned files runid)"
proof (cases "files (jobs_path runid)")
  case None
  then show ?thesis
    by (simp add: compute_shared_baseline_def load_mechanism_jobs_def can_be_pinned_def)
next
  case (Some jobs)
  let ?rows = "timing_rows jobs"
  obtain lat where lat: "latency_by_schema_phase ?rows = Inr lat" using latency_total by blast
  obtain steady where steady: "steady_state_by_schema_phase ?rows = Inr steady" using steady_total by blast
  show ?thesis
  proof (cases "jobs = []")
    case True
    then show ?thesis using Some
      by (simp add: compute_shared_baseline_def load_mechanism_jobs_def can_be_pinned_def timing_rows_def)
  next
    case False
    then have load: "load_mechanism_jobs files ''baseline'' runid = Inr jobs"
      using Some by (simp add: load_mechanism_jobs_def)
    have pinned: "can_be_pinned files runid \<longleftrightarrow> map_of steady ''baseline'' \<noteq> None"
      using Some steady_lookup [OF steady] by (simp add: can_be_pinned_def)
    moreover have "map_of lat ''baseline'' \<noteq> None" if "map_of steady ''baseline'' \<noteq> None"
      using that unfolding latency_lookup [OF lat] steady_lookup [OF steady] list_ex_iff by blast
    ultimately show ?thesis
      by (cases "map_of steady ''baseline''"; cases "map_of lat ''baseline''")
        (simp_all add: compute_shared_baseline_def load lat steady median_s_def)
  qed
qed

lemma isl_res_bind: "isl (res_bind m f) = (case m of Inl e \<Rightarrow> True | Inr x \<Rightarrow> isl (f x))"
  by (cases m) simp_all

lemma isl_map_res: "isl (map_res f xs) = list_ex (\<lambda>x. isl (f x)) xs"
  by (induction xs) (auto simp: isl_res_bind split: sum.splits)

lemma isl_load_all: "isl (load_all files rs) = list_ex (\<lambda>(m, r). \<not> has_rows files r) rs"
proof -
  have "isl (res_bind (load_mechanism_jobs files m r) (\<lambda>jobs. Inr (m, jobs))) = (\<not> has_rows files r)" for m r
    using load_mechanism_jobs_ok [of files m r] by (cases "load_mechanism_jobs files m r") simp_all
  then show ?thesis by (simp add: load_all_def isl_map_res case_prod_unfold)
qed

lemma all_stats_total: "\<exists>st. map_res (\<lambda>m. mechanism_stats m (dict_get m [] jobs) sh) ms = Inr st"
proof -
  have "\<not> isl (map_res (\<lambda>m. mechanism_stats m (dict_get m [] jobs) sh) ms)"
    using mechanism_stats_total unfolding isl_map_res list_ex_iff by (metis sum.disc(2))
  then show ?thesis using res_not_isl by blast
qed

text \<open>Once the rows are loaded, nothing in the rest of the report fails.\<close>

lemma isl_stats_of_loaded:
  "isl (res_bind (load_all files rs) (\<lambda>jobs. res_bind (map_res (\<lambda>m. mechanism_stats m (dict_get m [] jobs) sh)
      (ms jobs)) (\<lambda>st. Inr (g jobs st)))) = list_ex (\<lambda>(m, r). \<not> has_rows files r) rs"
proof (cases "load_all files rs")
  case (Inr jobs)
  obtain st where "map_res (\<lambda>m. mechanism_stats m (dict_get m [] jobs) sh) (ms jobs) = Inr st"
    using all_stats_total by blast
  then show ?thesis using isl_load_all [of files rs] Inr by simp
qed (use isl_load_all [of files rs] in simp)

lemma isl_shared_baseline:
  "isl (if r = [] then Inr None else res_bind (compute_shared_baseline files r) (\<lambda>s. Inr (Some s))) =
    (r \<noteq> [] \<and> \<not> can_be_pinned files r)"
  using compute_shared_baseline_ok [of files r] by (auto simp: isl_res_bind split: sum.splits)

lemma build_report_isl:
  "isl (build_report files today stamp runids) =
    (list_ex (\<lambda>(m, r). m \<noteq> ''baseline'' \<and> \<not> has_rows files r) runids \<or>
     (case map_of runids ''baseline'' of None \<Rightarrow> False
      | Some r \<Rightarrow> r \<noteq> [] \<and> \<not> can_be_pinned files r))"
proof -
  let ?rs = "filter (\<lambda>(m, r). m \<noteq> ''baseline'') runids"
  define F where "F = (\<lambda>shared. res_bind (load_all files ?rs) (\<lambda>jobs_by_mechanism.
        res_bind (map_res (\<lambda>m. mechanism_stats m (dict_get m [] jobs_by_mechanism) shared)
            (filter (\<lambda>m. has_key m jobs_by_mechanism) MECHANISM_ORDER)) (\<lambda>stats_list.
          Inr (''data/comparison-'' @ stamp @ ''.md'',
            join_text [CHR 0x0A] (compare_header_lines today ?rs jobs_by_mechanism shared @
              coldstart_table stats_list shared @ steadystate_table stats_list shared @
              verdict_lines stats_list)))) :: (string \<times> string) res)"
  have "list_ex (\<lambda>(m, r). \<not> has_rows files r) ?rs = list_ex (\<lambda>(m, r). m \<noteq> ''baseline'' \<and> \<not> has_rows files r) runids"
    by (auto simp: list_ex_iff)
  then have F: "isl (F sh) = list_ex (\<lambda>(m, r). m \<noteq> ''baseline'' \<and> \<not> has_rows files r) runids" for sh
    unfolding F_def isl_stats_of_loaded .
  have report: "build_report files today stamp runids = res_bind (case map_of runids ''baseline'' of None \<Rightarrow> Inr None
      | Some r \<Rightarrow> if r = [] then Inr None else res_bind (compute_shared_baseline files r) (\<lambda>s. Inr (Some s))) F"
    unfolding build_report_def Let_def F_def ..
  show ?thesis
  proof (cases "map_of runids ''baseline''")
    case None
    then show ?thesis by (simp add: report F)
  next
    case (Some r)
    have "isl (res_bind T F) = (list_ex (\<lambda>(m, r). m \<noteq> ''baseline'' \<and> \<not> has_rows files r) runids \<or> isl T)" for T
      by (cases T) (simp_all add: F)
    then show ?thesis using isl_shared_baseline [of r files] unfolding report Some option.case by simp
  qed
qed

lemma mechanism_stats_reads:
  assumes "mechanism_stats m jobs sh = Inr s"
  obtains wall where "latency_by_schema_phase (timing_rows jobs) = Inr wall"
    and "mn_warm_wall s = median_s (pick_bucket wall WARM_PHASE_PRIORITY)"
    and "mn_baseline_wall s = (case sh of Some b \<Rightarrow> Some (sb_wall b) | None \<Rightarrow> median_s (map_of wall ''baseline''))"
    and "mn_coldstart_speedup s = ratio (mn_baseline_wall s) (mn_warm_wall s)"
proof -
  obtain wall exec d where r: "latency_by_schema_phase (timing_rows jobs) = Inr wall"
      "steady_state_by_schema_phase (timing_rows jobs) = Inr exec" "warm_delay_median (timing_rows jobs) wall = Inr d"
    using latency_total steady_total warm_delay_total by metis
  then show thesis using assms that by (force simp: mechanism_stats_def Let_def)
qed

lemma Min_pos: "xs \<noteq> [] \<Longrightarrow> (\<And>x. x \<in> set xs \<Longrightarrow> 0 < x) \<Longrightarrow> 0 < Min (set xs)" for xs :: "rat list"
  using Min_in [of "set xs"] by simp

lemma ratio_Some: "ratio a b = Some x \<Longrightarrow> \<exists>p q. a = Some p \<and> b = Some q \<and> x * q = p"
  by (auto simp: ratio_def split: option.splits if_splits)

text \<open>With a pinned baseline the numbers of the mechanisms are comparable: the speedups of two runs are
  to each other as their warm times, whatever the baselines of the two runs were.\<close>

theorem shared_baseline_comparable:
  assumes "mechanism_stats m1 jobs1 (Some b) = Inr s1" and "mechanism_stats m2 jobs2 (Some b) = Inr s2"
    and "mn_coldstart_speedup s1 = Some x1" and "mn_coldstart_speedup s2 = Some x2"
  shows "\<exists>w1 w2. mn_warm_wall s1 = Some w1 \<and> mn_warm_wall s2 = Some w2 \<and> x1 * w1 = sb_wall b \<and> x1 * w1 = x2 * w2"
proof -
  have speedup: "\<exists>w. mn_warm_wall s = Some w \<and> x * w = sb_wall b"
    if stats: "mechanism_stats m jobs (Some b) = Inr s" and x: "mn_coldstart_speedup s = Some x" for m jobs s x
  proof -
    have "ratio (Some (sb_wall b)) (mn_warm_wall s) = Some x"
      using stats by (rule mechanism_stats_reads) (use x in simp)
    then show ?thesis by (auto dest!: ratio_Some)
  qed
  then show ?thesis using speedup [OF assms(1,3)] speedup [OF assms(2,4)] by auto
qed


text \<open>The verdict on the Model Store is fixed text: whatever its numbers are, also where its warm
  time is below the baseline (a speedup above 1), it says that its cold start is slower and the
  worst, and that its read is the fastest.\<close>

theorem modelstore_verdict_is_fixed:
  assumes "mn_coldstart_speedup s = Some cold" and "mn_steadystate_speedup s = Some steady"
  shows "\<exists>t. modelstore_sentence (Some s) = Some t \<and> has_text ''i.e. slower'' t \<and>
    has_text ''its read is the fastest of the three'' t"
proof -
  let ?a = "''**modelstore** is two separate claims, not one speedup: once a worker is running, ''"
  let ?b = "'' ('' @ fixed_text 1 steady @ times_sign @ '' steady-state), but its cold-start '' @
    ''is the *worst* end-to-end wait ('' @ format_seconds (mn_warm_wall s) @ '' vs '' @
    format_seconds (mn_baseline_wall s) @ '' baseline, a '' @ fixed_text 2 cold @ times_sign @ '' '' @
    [CHR 0x22] @ ''speedup'' @ [CHR 0x22] @ '' '' @ em_dash @ '' ''"
  let ?c = "''), dominated by unbilled platform staging that recurs on every cold worker.''"
  let ?t = "?a @ ''its read is the fastest of the three'' @ ?b @ ''i.e. slower'' @ ?c"
  have "modelstore_sentence (Some s) = Some ?t"
    using assms by (simp add: modelstore_sentence_def)
  moreover have "has_text ''i.e. slower'' ?t"
    unfolding has_text_def sublist_def
    by (rule exI [of _ "?a @ ''its read is the fastest of the three'' @ ?b"], rule exI [of _ ?c]) (simp only: append_assoc)
  moreover have "has_text ''its read is the fastest of the three'' ?t"
    unfolding has_text_def sublist_def by blast
  ultimately show ?thesis by blast
qed

section \<open>Examples\<close>

definition example_files :: jobs_files where
  "example_files path = (if path = jobs_path ''r'' then Some example_rows else None)"

definition example_baseline :: shared_baseline where
  "example_baseline = \<lparr>sb_runid = ''b'', sb_wall = 10, sb_exec = 5\<rparr>"

definition example_numbers :: "shared_baseline option \<Rightarrow> mechanism_numbers" where
  "example_numbers sh = projr (mechanism_stats ''modelstore'' example_rows sh)"

lemma example_stats: "mechanism_stats ''modelstore'' example_rows sh = Inr (example_numbers sh)"
  using mechanism_stats_total [of "''modelstore''" example_rows sh] by (auto simp: example_numbers_def)

lemma example_speedups:
  "mn_coldstart_speedup (example_numbers (Some example_baseline)) = Some (5 / 2)"
  "mn_coldstart_speedup (example_numbers None) = Some 3"
  "mn_steadystate_speedup (example_numbers None) = Some 3"
  by code_simp+

theorem shared_baseline_comparable_witness:
  "\<exists>w. mn_warm_wall (example_numbers (Some example_baseline)) = Some w \<and> 5 / 2 * w = sb_wall example_baseline"
  using shared_baseline_comparable [OF example_stats example_stats example_speedups(1) example_speedups(1)] by blast


theorem modelstore_verdict_is_fixed_witness:
  "mn_coldstart_speedup (example_numbers None) = Some 3 \<and>
   (\<exists>t. modelstore_sentence (Some (example_numbers None)) = Some t \<and> has_text ''i.e. slower'' t)"
  using modelstore_verdict_is_fixed [OF example_speedups(2,3)] example_speedups(2) by blast

end
