(* ===== verification/Report_Main.thy ===== *)
theory Report_Main
  imports Compare Run_Contracts
begin

text \<open>
  \<open>harvest/report.py\<close>'s \<open>main\<close> and \<open>harvest/compare.py\<close>'s \<open>main\<close>: which files of a run are read, what is
  drawn and where the report goes. A run that was driven to its end can be reported.
\<close>

section \<open>The files of a run\<close>

text \<open>A line of the jobs file, as \<open>json.loads\<close> takes it.\<close>

datatype jobs_line = Blank_line | Row_line recorded_job | Other_line

record run_files =
  rf_states :: "(string, provision_state) pydict"
  rf_lines :: "string \<Rightarrow> jobs_line list option"
  rf_metrics :: "string \<Rightarrow> metric_row list option"

fun jobs_line_row :: "jobs_line \<Rightarrow> recorded_job res" where
  "jobs_line_row (Row_line r) = Inr r"
| "jobs_line_row _ = Inl (ValueError ''not a JSON document'')"

definition load_jobs :: "run_files \<Rightarrow> string \<Rightarrow> recorded_job list res" where
  "load_jobs disk path =
    (case rf_lines disk path of
       None \<Rightarrow> Inl (FileNotFoundError path)
     | Some ls \<Rightarrow> map_res jobs_line_row (filter (\<lambda>l. l \<noteq> Blank_line) ls))"

definition metrics_path :: "string \<Rightarrow> string" where
  "metrics_path runid = ''data/pod-metrics-'' @ runid @ ''.parquet''"

text \<open>The rows, and what is printed.\<close>

definition load_metrics :: "run_files \<Rightarrow> string \<Rightarrow> string \<Rightarrow> metric_row list \<times> string list" where
  "load_metrics disk path runid =
    (case rf_metrics disk path of
       Some rows \<Rightarrow> (rows, [])
     | None \<Rightarrow> ([], [''warning: '' @ path @ '' not found '' @ em_dash @ '' omitting pod hit-rate and peering sections '' @
         ''(run `make scrape RUNID='' @ runid @ ''` during a run to capture them)'']))"

section \<open>The plots\<close>

record plot =
  plot_file :: string
  plot_ylabel :: string
  plot_title :: string
  plot_bars :: "(string \<times> rat) list"

definition latency_plot :: "string \<Rightarrow> string \<Rightarrow> (string, phase_stats) pydict \<Rightarrow> plot list" where
  "latency_plot mechanism runid lat =
    (let bars = concat (map (\<lambda>p. case map_of lat p of None \<Rightarrow> [] | Some d \<Rightarrow> [(p, ps_median_s d)]) SCHEMA_PHASES)
     in if bars = [] then []
        else [\<lparr>plot_file = plot_path mechanism runid ''latency'', plot_ylabel = ''median wall_seconds (driver-observed)'',
               plot_title = ''Latency by phase '' @ em_dash @ '' '' @ mechanism @ '' ('' @ runid @ '')'', plot_bars = bars\<rparr>])"

definition hitrate_plot :: "string \<Rightarrow> string \<Rightarrow> metric_row list \<Rightarrow> plot list" where
  "hitrate_plot mechanism runid metrics_rows =
    (let per_pod = per_pod_stats metrics_rows
     in if per_pod = [] then []
        else [\<lparr>plot_file = plot_path mechanism runid ''hitrate'', plot_ylabel = ''effective_hit_rate'',
               plot_title = ''Per-pod hit rate ('' @ runid @ '')'',
               plot_bars = map (\<lambda>(pod, hit_rate, saved). (pod, hit_rate)) per_pod\<rparr>])"

definition plots :: "string \<Rightarrow> string \<Rightarrow> recorded_job list \<Rightarrow> metric_row list \<Rightarrow> plot list res" where
  "plots mechanism runid jobs metrics_rows =
    res_bind (latency_by_schema_phase (timing_rows jobs)) (\<lambda>lat.
      Inr (latency_plot mechanism runid lat @ hitrate_plot mechanism runid metrics_rows))"

section \<open>The commands\<close>

record report_output =
  ro_path :: string
  ro_text :: string
  ro_plots :: "plot list"
  ro_warnings :: "string list"

definition run_mechanism :: "run_files \<Rightarrow> string \<Rightarrow> string" where
  "run_mechanism disk runid =
    (case map_of (rf_states disk) (state_path runid) of None \<Rightarrow> ''shim'' | Some st \<Rightarrow> st_mechanism st)"

definition report_main :: "'e cloud \<Rightarrow> environment \<Rightarrow> run_files \<Rightarrow> string list \<Rightarrow> report_output res" where
  "report_main c environ disk argv =
    (case argv of [] \<Rightarrow> Inl IndexError
     | runid # _ \<Rightarrow>
        (let state = map_of (rf_states disk) (state_path runid); mechanism = run_mechanism disk runid
         in res_bind (get_mechanism c environ mechanism) (\<lambda>mech.
            res_bind (load_jobs disk (jobs_path runid)) (\<lambda>jobs.
              let (metrics_rows, warnings) =
                (if mech_has_metrics mech then load_metrics disk (metrics_path runid) runid else ([], []))
              in res_bind (plots mechanism runid jobs metrics_rows) (\<lambda>drawn.
                 res_bind (report_lines runid mechanism jobs metrics_rows state) (\<lambda>ls.
                   Inr \<lparr>ro_path = report_path mechanism runid, ro_text = join_text [CHR 0x0A] ls,
                        ro_plots = drawn, ro_warnings = warnings\<rparr>))))))"

definition COMPARE_USAGE :: string where
  "COMPARE_USAGE = ''usage: python -m runpod_testbed.harvest.compare '' @
     ''shim=<runid> volumecache=<runid> modelstore=<runid> [baseline=<runid>]''"

definition compare_main :: "jobs_files \<Rightarrow> string \<Rightarrow> string \<Rightarrow> string list \<Rightarrow> (string \<times> string) res" where
  "compare_main disk today stamp argv =
    res_bind (parse_args argv) (\<lambda>runids.
      if runids = [] then Inl (OtherError COMPARE_USAGE) else build_report disk today stamp runids)"

section \<open>A run that was driven can be reported\<close>

lemma load_jobs_rows: "rf_lines disk path = Some (map Row_line rows) \<Longrightarrow> load_jobs disk path = Inr rows"
proof -
  have "map_res jobs_line_row (filter (\<lambda>l. l \<noteq> Blank_line) (map Row_line rows)) = Inr rows" by (induction rows) simp_all
  then show "rf_lines disk path = Some (map Row_line rows) \<Longrightarrow> load_jobs disk path = Inr rows"
    by (simp add: load_jobs_def)
qed

lemma row_has_result: "row_of job row \<Longrightarrow> job_mechanism job = Some m \<Longrightarrow> has_result row"
  by (cases "rj_result row") (auto simp: row_of_def has_result_def make_timing_row_def)

lemma plan_jobs_named:
  assumes "get_mechanism c environ name = Inr mech" and "j \<in> set (drive_jobs (mech_jobs mech) cfg)"
  shows "\<exists>m. job_mechanism j = Some m"
proof (cases "j \<in> set (mech_jobs mech cfg)")
  case True
  with assms(1) show ?thesis
    by (cases rule: get_mechanism_cases) (auto dest: shim_plan.named volumecache_plan.named modelstore_plan.named)
next
  case False
  then show ?thesis using assms(2) by (auto simp: drive_jobs_def baseline_jobs_def mechanism_job_def)
qed

lemma plots_total:
  obtains drawn where "plots mechanism runid jobs metrics_rows = Inr drawn"
    and "set (map plot_file drawn) \<subseteq> {plot_path mechanism runid ''latency'', plot_path mechanism runid ''hitrate''}"
proof -
  obtain lat where "latency_by_schema_phase (timing_rows jobs) = Inr lat" using latency_total by blast
  then show thesis
    by (intro that) (auto simp: plots_def latency_plot_def hitrate_plot_def Let_def split: if_splits)
qed

lemma report_main_ok:
  assumes "get_mechanism c environ (run_mechanism disk runid) = Inr mech"
    and "load_jobs disk (jobs_path runid) = Inr jobs" and "list_all has_result jobs"
  shows "\<exists>out. report_main c environ disk [runid] = Inr out \<and> ro_path out = report_path (run_mechanism disk runid) runid \<and>
    set (map plot_file (ro_plots out)) \<subseteq> {plot_path (run_mechanism disk runid) runid ''latency'',
      plot_path (run_mechanism disk runid) runid ''hitrate''} \<and>
    (ro_warnings out \<noteq> [] \<longleftrightarrow> mech_has_metrics mech \<and> rf_metrics disk (metrics_path runid) = None)"
proof -
  let ?m = "run_mechanism disk runid"
  obtain rows warnings where metrics: "(if mech_has_metrics mech then load_metrics disk (metrics_path runid) runid else ([], [])) =
      (rows, warnings)" by force
  then have warned: "warnings \<noteq> [] \<longleftrightarrow> mech_has_metrics mech \<and> rf_metrics disk (metrics_path runid) = None"
    by (auto simp: load_metrics_def split: if_splits option.splits)
  obtain drawn where "plots ?m runid jobs rows = Inr drawn"
      "set (map plot_file drawn) \<subseteq> {plot_path ?m runid ''latency'', plot_path ?m runid ''hitrate''}"
    by (rule plots_total)
  moreover obtain ls where "report_lines runid ?m jobs rows (map_of (rf_states disk) (state_path runid)) = Inr ls"
    using report_always_rendered [OF assms(3)] by blast
  ultimately show ?thesis
    using warned by (simp add: report_main_def Let_def assms(1,2) metrics del: set_map)
qed

text \<open>C4: A run that the driver finished without an exception can be reported, whatever became of its jobs: the
  report reads one row for each job of the plan, goes to the file of the run and its mechanism, draws into that
  run's files alone, and warns exactly where the metrics of a mechanism that has them are missing.\<close>

theorem driven_run_reports:
  assumes "get_mechanism c environ (st_mechanism st) = Inr mech" and "drive_main p (mech_jobs mech) cfg st d (Inr ()) d'"
    and "map_of (rf_states disk) (state_path runid) = Some st"
    and "rf_lines disk (jobs_path runid) = Some (map Row_line (jobs_file d'))"
  shows "\<exists>out. report_main c environ disk [runid] = Inr out \<and> ro_path out = report_path (st_mechanism st) runid \<and>
    (\<exists>jobs. load_jobs disk (jobs_path runid) = Inr jobs \<and>
      mset (map rj_job jobs) = mset (drive_jobs (mech_jobs mech) cfg)) \<and>
    set (map plot_file (ro_plots out)) \<subseteq> {plot_path (st_mechanism st) runid ''latency'',
      plot_path (st_mechanism st) runid ''hitrate''} \<and>
    (ro_warnings out \<noteq> [] \<longleftrightarrow> mech_has_metrics mech \<and> rf_metrics disk (metrics_path runid) = None)"
proof -
  have name: "run_mechanism disk runid = st_mechanism st" by (simp add: run_mechanism_def assms(3))
  obtain first rest where rows: "jobs_file d' = first @ rest"
      "map rj_job first = fst (split_jobs (drive_jobs (mech_jobs mech) cfg))"
      "mset (map rj_job rest) = mset (snd (split_jobs (drive_jobs (mech_jobs mech) cfg)))"
      "\<forall>row \<in> set (jobs_file d'). row_of (rj_job row) row"
    using drive_main_rows [OF assms(2)] by blast
  have jobs: "mset (map rj_job (jobs_file d')) = mset (drive_jobs (mech_jobs mech) cfg)"
    using set_split_jobs rows by (metis map_append mset_append)
  then have "set (map rj_job (jobs_file d')) = set (drive_jobs (mech_jobs mech) cfg)" by (rule mset_eq_setD)
  then have "list_all has_result (jobs_file d')"
    using row_has_result rows(4) plan_jobs_named [OF assms(1)] unfolding list_all_iff by (metis image_eqI list.set_map)
  from report_main_ok [OF assms(1) [folded name] load_jobs_rows [OF assms(4)] this] jobs load_jobs_rows [OF assms(4)]
  show ?thesis unfolding name by blast
qed

definition example_disk :: "recorded_job list \<Rightarrow> run_files" where
  "example_disk rows = \<lparr>rf_states = [(state_path ''r'', example_run_state)],
     rf_lines = (\<lambda>p. Some (map Row_line rows)), rf_metrics = (\<lambda>p. None)\<rparr>"

theorem driven_run_reports_witness:
  "\<exists>d' out. drive_main example_platform volumecache_jobs example_config example_run_state fresh_driver (Inr ()) d' \<and>
    report_main flash_cloud vc_environ (example_disk (jobs_file d')) [''r''] = Inr out \<and> ro_warnings out = []"
proof -
  have "0 < cfg_burst example_config" by code_simp
  then obtain d' where run: "drive_main example_platform volumecache_jobs example_config example_run_state
      fresh_driver (Inr ()) d'"
    using drive_main_ends_well example_plan example_no_raise by blast
  let ?mech = "snd (mechanisms flash_cloud vc_environ ! 1)"
  have mech: "get_mechanism flash_cloud vc_environ (st_mechanism example_run_state) = Inr ?mech"
      "mech_jobs ?mech = volumecache_jobs" "\<not> mech_has_metrics ?mech"
    by (simp_all add: get_mechanism_def mechanisms_def example_run_state_def new_state_def)
  have disk: "map_of (rf_states (example_disk (jobs_file d'))) (state_path ''r'') = Some example_run_state"
      "rf_lines (example_disk (jobs_file d')) (jobs_path ''r'') = Some (map Row_line (jobs_file d'))"
    by (simp_all add: example_disk_def)
  from driven_run_reports [OF mech(1) run [folded mech(2)] disk] show ?thesis
    using run mech(3) by blast
qed


end
