(* ===== verification/Xorb_Scrape.thy ===== *)
theory Xorb_Scrape
  imports Locality_Sim Fleet
begin

text \<open>
  \<open>study/scrape_xorb_map.py\<close>: for every revision of a repository the xorbs that its files
  refer to, with the size that the reconstruction manifests let one estimate, as the rows that
  the locality simulator loads. The hub (token, files, headers, manifests) is a parameter.
\<close>

section \<open>Manifests\<close>

type_synonym size_map = "(string, int) pydict"

definition raise_size :: "string \<Rightarrow> int \<Rightarrow> size_map \<Rightarrow> size_map" where
  "raise_size h n sizes = AList.update h (max (dict_get h 0 sizes) n) sizes"

definition add_range :: "string \<Rightarrow> json \<Rightarrow> size_map \<Rightarrow> size_map res" where
  "add_range h rng sizes =
    res_bind (json_item ''bytes'' rng) (\<lambda>b.
    res_bind (json_item ''end'' b) (\<lambda>e.
    res_bind (json_int e) (\<lambda>n. Inr (raise_size h n sizes))))"

definition add_entry :: "string \<Rightarrow> json \<Rightarrow> size_map \<Rightarrow> size_map res" where
  "add_entry h entry sizes =
    res_bind (json_get ''ranges'' (JArr []) entry) (\<lambda>rs.
    res_bind (json_iter rs) (\<lambda>rngs. fold_res (add_range h) rngs sizes))"

definition add_xorb_entries :: "string \<times> json \<Rightarrow> size_map \<Rightarrow> size_map res" where
  "add_xorb_entries he sizes =
    res_bind (json_iter (snd he)) (\<lambda>es. fold_res (add_entry (fst he)) es sizes)"

definition flatten_manifest :: "json \<Rightarrow> size_map res" where
  "flatten_manifest reconstruction =
    res_bind (json_get ''xorbs'' (JObj []) reconstruction) (\<lambda>xorbs.
    res_bind (json_obj xorbs) (\<lambda>d. fold_res add_xorb_entries d []))"

definition merge_sizes :: "size_map \<Rightarrow> size_map \<Rightarrow> size_map" where
  "merge_sizes target incoming = fold (\<lambda>(h, size_b) t. raise_size h size_b t) incoming target"

section \<open>The hub\<close>

text \<open>\<open>hub_get\<close> and \<open>hub_head\<close> include \<open>raise_for_status\<close>; the second argument of \<open>hub_get\<close> is a
  bearer token for this request only. Names of headers are in lower case.\<close>

record 'e xet_hub =
  hub_get :: "string \<Rightarrow> string option \<Rightarrow> ('e, json) io"
  hub_head :: "string \<Rightarrow> ('e, (string, string) pydict) io"
  list_repo_files :: "string \<Rightarrow> string \<Rightarrow> string \<Rightarrow> ('e, string list) io"

definition get_xet_token :: "'e xet_hub \<Rightarrow> string \<Rightarrow> string \<Rightarrow> string \<Rightarrow> string \<Rightarrow> ('e, string \<times> string) io" where
  "get_xet_token hub endpoint repo_id rvn repo_type =
    bind_call (hub_get hub (endpoint @ ''/api/'' @ repo_type @ ''s/'' @ repo_id @ ''/xet-read-token/'' @ rvn) None)
      (\<lambda>body. lift_res (
        res_bind (res_bind (json_item ''casUrl'' body) json_text) (\<lambda>cas_url.
        res_bind (res_bind (json_item ''accessToken'' body) json_text) (\<lambda>token. Inr (cas_url, token)))))"

definition resolve_file_id :: "'e xet_hub \<Rightarrow> string \<Rightarrow> string \<Rightarrow> string \<Rightarrow> string \<Rightarrow> ('e, string option) io" where
  "resolve_file_id hub endpoint repo_id rvn path =
    bind_call (hub_head hub (endpoint @ ''/'' @ repo_id @ ''/resolve/'' @ rvn @ ''/'' @ path))
      (\<lambda>headers. pure (map_of headers ''x-xet-hash''))"

definition fetch_reconstruction :: "'e xet_hub \<Rightarrow> string \<Rightarrow> string \<Rightarrow> string \<Rightarrow> ('e, json) io" where
  "fetch_reconstruction hub cas_url file_id token =
    hub_get hub (cas_url @ ''/v2/reconstructions/'' @ file_id) (Some token)"

text \<open>The loop over the files of a revision; a file without an id is not stored as xorbs.\<close>

fun scrape_files ::
  "'e xet_hub \<Rightarrow> string \<Rightarrow> string \<Rightarrow> string \<Rightarrow> string \<times> string \<Rightarrow> string list \<Rightarrow> size_map \<Rightarrow> ('e, size_map) io"
where
  "scrape_files hub endpoint repo_id rvn creds [] sizes = pure sizes"
| "scrape_files hub endpoint repo_id rvn creds (path # paths) sizes =
    bind_call (resolve_file_id hub endpoint repo_id rvn path) (\<lambda>file_id. case file_id of
        None \<Rightarrow> scrape_files hub endpoint repo_id rvn creds paths sizes
      | Some fid \<Rightarrow>
          bind_call (fetch_reconstruction hub (fst creds) fid (snd creds)) (\<lambda>manifest.
          bind_call (lift_res (flatten_manifest manifest)) (\<lambda>incoming.
            scrape_files hub endpoint repo_id rvn creds paths (merge_sizes sizes incoming))))"

definition scrape_revision ::
  "'e xet_hub \<Rightarrow> string \<Rightarrow> string \<Rightarrow> string \<Rightarrow> string \<Rightarrow> ('e, size_map) io" where
  "scrape_revision hub endpoint repo_id rvn repo_type =
    bind_call (list_repo_files hub repo_id rvn repo_type) (\<lambda>files.
    bind_call (get_xet_token hub endpoint repo_id rvn repo_type) (\<lambda>creds.
      scrape_files hub endpoint repo_id rvn creds files []))"

section \<open>Targets and rows\<close>

text \<open>\<open>drop_duplicates\<close> keeps the first of equal rows.\<close>

definition targets_from_events :: "event frame \<Rightarrow> model_key list res" where
  "targets_from_events f =
    (case filter (\<lambda>c. c \<notin> set (frame_columns f)) [''repo_id'', ''revision''] of
       [] \<Rightarrow> Inr (rev (remdups (rev (map event_model (frame_rows f)))))
     | missing \<Rightarrow> Inl (KeyError (concat missing)))"

definition before_last :: "char \<Rightarrow> string \<Rightarrow> string" where
  "before_last c s = rev (tl (dropWhile (\<lambda>x. x \<noteq> c) (rev s)))"

definition target_of_spec :: "string \<Rightarrow> model_key res" where
  "target_of_spec spec =
    (if CHR ''@'' \<notin> set spec then Inl (ValueError (''expected repo_id@revision, got: '' @ spec))
     else Inr (before_last CHR ''@'' spec, after_last CHR ''@'' spec))"

definition targets_from_args :: "string list \<Rightarrow> model_key list res" where
  "targets_from_args specs = map_res target_of_spec specs"

definition rows_of_sizes :: "model_key \<Rightarrow> size_map \<Rightarrow> xorb_row list" where
  "rows_of_sizes target sizes =
    map (\<lambda>(h, n). \<lparr>xr_repo_id = fst target, xr_revision = snd target, xr_hash = h, xr_size_bytes = n\<rparr>) sizes"

fun build_rows :: "'e xet_hub \<Rightarrow> string \<Rightarrow> string \<Rightarrow> model_key list \<Rightarrow> ('e, xorb_row list) io" where
  "build_rows hub endpoint repo_type [] = pure []"
| "build_rows hub endpoint repo_type (target # targets) =
    bind_call (scrape_revision hub endpoint (fst target) (snd target) repo_type) (\<lambda>sizes.
    bind_call (build_rows hub endpoint repo_type targets) (\<lambda>rest.
      pure (rows_of_sizes target sizes @ rest)))"

section \<open>The command\<close>

text \<open>The manifests of \<open>self_test\<close>.\<close>

definition json_bounds :: "int \<Rightarrow> int \<Rightarrow> json" where
  "json_bounds lo hi = JObj [(''start'', JInt lo), (''end'', JInt hi)]"

definition self_test_manifest_a :: json where
  "self_test_manifest_a = JObj
    [(''offset_into_first_range'', JInt 0),
     (''terms'', JArr [JObj [(''hash'', JStr ''XORB_A''), (''unpacked_length'', JInt 100), (''range'', json_bounds 0 4)]]),
     (''xorbs'', JObj
       [(''XORB_A'', JArr [JObj [(''url'', JStr ''x''),
           (''ranges'', JArr [JObj [(''chunks'', json_bounds 0 4), (''bytes'', json_bounds 0 1000000)]])]]),
        (''XORB_B'', JArr [JObj [(''url'', JStr ''y''),
           (''ranges'', JArr [JObj [(''chunks'', json_bounds 0 2), (''bytes'', json_bounds 0 500000)]])]])])]"

definition self_test_manifest_b :: json where
  "self_test_manifest_b = JObj [(''xorbs'', JObj [(''XORB_A'',
     JArr [JObj [(''ranges'', JArr [JObj [(''bytes'', json_bounds 500000 4000000)]])]])])]"

definition assert_sizes :: "size_map \<Rightarrow> size_map \<Rightarrow> unit res" where
  "assert_sizes got meant = (if set got = set meant then Inr () else Inl (AssertionError ''sizes differ''))"

definition self_test :: "unit res" where
  "self_test =
    res_bind (flatten_manifest self_test_manifest_a) (\<lambda>a.
    res_bind (assert_sizes a [(''XORB_A'', 1000000), (''XORB_B'', 500000)]) (\<lambda>_.
    res_bind (flatten_manifest self_test_manifest_b) (\<lambda>b.
    res_bind (assert_sizes (merge_sizes (merge_sizes [] a) b) [(''XORB_A'', 4000000), (''XORB_B'', 500000)]) (\<lambda>_.
    res_bind (flatten_manifest (JObj [])) (\<lambda>none. assert_sizes none [])))))"

theorem self_test_passes: "self_test = Inr ()"
  by code_simp

text \<open>What \<open>main\<close> writes (nothing for a self-test): a log of events or a list of specifications gives the targets.\<close>

definition scrape_xorbs_main ::
  "'e xet_hub \<Rightarrow> string \<Rightarrow> string \<Rightarrow> bool \<Rightarrow> event frame option \<Rightarrow> string list \<Rightarrow> ('e, xorb_row frame option) io" where
  "scrape_xorbs_main hub endpoint repo_type self_testing events repos =
    (if self_testing then then_call (lift_res self_test) (pure None)
     else if events = None \<and> repos = []
     then throw (OtherError ''provide --events, --repos, or --self-test'')
     else bind_call (lift_res (case events of Some f \<Rightarrow> targets_from_events f | None \<Rightarrow> targets_from_args repos)) (\<lambda>targets.
          bind_call (build_rows hub endpoint repo_type targets) (\<lambda>rws.
            pure (Some \<lparr>frame_columns = XORB_MAP_COLUMNS, frame_rows = rws\<rparr>))))"

section \<open>What a manifest says\<close>

text \<open>Every range of a manifest, as a xorb with the end of the bytes that are used of it.\<close>

definition observed_range :: "string \<Rightarrow> json \<Rightarrow> (string \<times> int) list res" where
  "observed_range h rng =
    res_bind (json_item ''bytes'' rng) (\<lambda>b.
    res_bind (json_item ''end'' b) (\<lambda>e.
    res_bind (json_int e) (\<lambda>n. Inr [(h, n)])))"

definition observed_entry :: "string \<Rightarrow> json \<Rightarrow> (string \<times> int) list res" where
  "observed_entry h entry =
    res_bind (json_get ''ranges'' (JArr []) entry) (\<lambda>rs.
    res_bind (json_iter rs) (\<lambda>rngs. res_map concat (map_res (observed_range h) rngs)))"

definition observed_xorb :: "string \<times> json \<Rightarrow> (string \<times> int) list res" where
  "observed_xorb he =
    res_bind (json_iter (snd he)) (\<lambda>es. res_map concat (map_res (observed_entry (fst he)) es))"

definition observed :: "json \<Rightarrow> (string \<times> int) list res" where
  "observed reconstruction =
    res_bind (json_get ''xorbs'' (JObj []) reconstruction) (\<lambda>xorbs.
    res_bind (json_obj xorbs) (\<lambda>d. res_map concat (map_res observed_xorb d)))"

definition grow :: "int option \<Rightarrow> int \<Rightarrow> int" where
  "grow old n = max (case old of None \<Rightarrow> 0 | Some x \<Rightarrow> x) n"

lemma grow_simps: "grow None n = max 0 n" "grow (Some x) n = max x n"
  by (simp_all add: grow_def)

lemma raise_size_grow: "raise_size h n sizes = AList.update h (grow (map_of sizes h) n) sizes"
  by (simp add: raise_size_def grow_def dict_get_def)

lemma accumulate_simps:
  "pd.accumulate grow [] sizes = sizes"
  "pd.accumulate grow ((h, n) # kvs) sizes = pd.accumulate grow kvs (raise_size h n sizes)"
  by (simp_all add: pd.accumulate_def raise_size_grow)

lemma accumulate_append: "pd.accumulate grow (as @ bs) sizes = pd.accumulate grow bs (pd.accumulate grow as sizes)"
  by (simp add: pd.accumulate_def)

text \<open>A loop that only adds to a dict, as one addition of what its rounds collect.\<close>

lemma fold_res_collect:
  fixes f :: "'x \<Rightarrow> size_map \<Rightarrow> size_map res"
  assumes "\<And>x s. f x s = res_map (\<lambda>kvs. pd.accumulate grow kvs s) (g x)"
  shows "fold_res f xs s = res_map (\<lambda>kvs. pd.accumulate grow kvs s) (res_map concat (map_res g xs))"
proof (induction xs arbitrary: s)
  case (Cons x xs)
  have "res_map (\<lambda>kvs. pd.accumulate grow kvs (pd.accumulate grow a s)) (res_map concat (map_res g xs)) =
      res_map (\<lambda>kvs. pd.accumulate grow kvs s) (res_map (\<lambda>kvss. a @ concat kvss) (map_res g xs))" for a
    by (cases "map_res g xs") (simp_all add: accumulate_append)
  then show ?case
    using assms Cons by (cases "g x") (simp_all add: res_bind_assoc)
qed (simp add: accumulate_simps)

lemma add_range_observed: "add_range h rng s = res_map (\<lambda>kvs. pd.accumulate grow kvs s) (observed_range h rng)"
  by (simp add: add_range_def observed_range_def res_bind_assoc accumulate_simps)

lemma add_entry_observed: "add_entry h entry s = res_map (\<lambda>kvs. pd.accumulate grow kvs s) (observed_entry h entry)"
  by (simp add: add_entry_def observed_entry_def res_bind_assoc fold_res_collect [OF add_range_observed])

lemma add_xorb_observed: "add_xorb_entries he s = res_map (\<lambda>kvs. pd.accumulate grow kvs s) (observed_xorb he)"
  by (simp add: add_xorb_entries_def observed_xorb_def res_bind_assoc fold_res_collect [OF add_entry_observed])

lemma flatten_observed: "flatten_manifest m = res_map (\<lambda>kvs. pd.accumulate grow kvs []) (observed m)"
  by (simp add: flatten_manifest_def observed_def res_bind_assoc fold_res_collect [OF add_xorb_observed])

text \<open>The largest end that was observed of a xorb.\<close>

definition largest_end :: "(string \<times> int) list \<Rightarrow> string \<Rightarrow> int option" where
  "largest_end kvs h =
    (case map snd (filter (\<lambda>kv. fst kv = h) kvs) of [] \<Rightarrow> None | n # ns \<Rightarrow> Some (fold max ns (max 0 n)))"

lemma fold_grow: "fold (\<lambda>n s. Some (grow s n)) ns (Some x) = Some (fold max ns x)"
  by (induction ns arbitrary: x) (simp_all add: grow_def max.commute)

lemma accumulate_largest: "map_of (pd.accumulate grow kvs []) h = largest_end kvs h"
  unfolding pd.accumulate_lookup largest_end_def
  by (cases "map snd (filter (\<lambda>kv. fst kv = h) kvs)") (simp_all add: fold_grow grow_simps)

lemma largest_end_Max:
  "largest_end kvs h = (if h \<in> fst ` set kvs then Some (Max (insert 0 {n. (h, n) \<in> set kvs})) else None)"
proof (cases "map snd (filter (\<lambda>kv. fst kv = h) kvs)")
  case Nil
  then show ?thesis by (force simp: largest_end_def filter_empty_conv)
next
  case (Cons n ns)
  have own: "{m. (h, m) \<in> set kvs} = set (n # ns)"
    unfolding Cons [symmetric] by force
  then have "h \<in> fst ` set kvs" by force
  moreover have "fold max ns (max 0 n) = Max (insert 0 (set (n # ns)))"
    by (metis Max.set_eq_fold fold_simps(2) list.simps(15) max.commute)
  ultimately show ?thesis using own by (simp add: largest_end_def Cons)
qed

section \<open>What a revision holds\<close>

definition nonneg_sizes :: "size_map \<Rightarrow> bool" where
  "nonneg_sizes sizes \<longleftrightarrow> (\<forall>h n. map_of sizes h = Some n \<longrightarrow> 0 \<le> n)"

lemma raise_size_nonneg: "nonneg_sizes t \<Longrightarrow> nonneg_sizes (raise_size h n t)"
  by (auto simp: nonneg_sizes_def raise_size_grow grow_def update_conv' le_max_iff_disj split: option.split)

lemma merge_nonneg: "nonneg_sizes t \<Longrightarrow> nonneg_sizes (merge_sizes t d)"
  unfolding merge_sizes_def by (induction d arbitrary: t) (auto simp: raise_size_nonneg)

lemma merge_lookup:
  assumes "nonneg_sizes target"
  shows "map_of (merge_sizes target (pd.accumulate grow kvs [])) = map_of (pd.accumulate grow kvs target)"
proof
  fix h
  let ?in = "pd.accumulate grow kvs [] :: size_map"
  have merge: "merge_sizes t d = pd.accumulate grow d t" for t d
    unfolding merge_sizes_def pd.accumulate_def raise_size_grow ..
  have wf: "dict_wf ?in" by (rule pd.accumulate_wf) simp
  have own: "map snd (filter (\<lambda>kv. fst kv = h) d) = (case map_of d h of None \<Rightarrow> [] | Some n \<Rightarrow> [n])"
    if "dict_wf d" for d :: size_map
    using that
  proof (induction d)
    case (Cons kv d)
    have "filter (\<lambda>kv. fst kv = h) d = []" if "fst kv = h"
    proof -
      have "h \<notin> fst ` set d" using Cons.prems that by (simp add: dict_wf_def)
      then show ?thesis by (force simp: filter_empty_conv)
    qed
    then show ?case using Cons by (auto simp: dict_wf_def split: option.split)
  qed simp
  have fold_max: "fold max ns (max a b) = max a (fold max ns (b :: int))" for ns a b
    by (induction ns arbitrary: b) (simp_all, metis max.left_commute)
  have own_max: "max a (max 0 b) = max a b" if "map_of target h = Some a" for a b
  proof -
    have "0 \<le> a" using assms that by (simp add: nonneg_sizes_def)
    then show ?thesis by simp
  qed
  show "map_of (merge_sizes target ?in) h = map_of (pd.accumulate grow kvs target) h"
    unfolding merge pd.accumulate_lookup [of grow ?in] own [OF wf] accumulate_largest
    unfolding pd.accumulate_lookup largest_end_def
    by (cases "map snd (filter (\<lambda>kv. fst kv = h) kvs)"; cases "map_of target h")
      (simp_all add: fold_grow grow_simps fold_max own_max)
qed


text \<open>Merging the files of a revision one by one is one addition of all their ranges.\<close>

lemma same_lookup: "map_of s = map_of t \<Longrightarrow> map_of (pd.accumulate grow kvs s) = map_of (pd.accumulate grow kvs t)"
  by (rule ext) (simp add: pd.accumulate_lookup)

lemma merge_wf: "dict_wf t \<Longrightarrow> dict_wf (merge_sizes t d)"
  unfolding merge_sizes_def raise_size_def by (induction d arbitrary: t) auto

section \<open>A hub that does not change\<close>

text \<open>
  Revisions are commits, whose content does not change: the answers to requests are functions of
  the request. What a file of a revision shows of the xorbs, then, is a function too.
\<close>

definition unchanging ::
  "'e xet_hub \<Rightarrow> (string \<Rightarrow> string option \<Rightarrow> json res) \<Rightarrow> (string \<Rightarrow> (string, string) pydict res) \<Rightarrow>
   (string \<Rightarrow> string \<Rightarrow> string \<Rightarrow> string list res) \<Rightarrow> bool" where
  "unchanging hub gets heads files \<longleftrightarrow>
    (\<forall>u b w. hub_get hub u b w = (gets u b, w)) \<and> (\<forall>u w. hub_head hub u w = (heads u, w)) \<and>
    (\<forall>r v t w. list_repo_files hub r v t w = (files r v t, w))"

definition file_ranges ::
  "(string \<Rightarrow> string option \<Rightarrow> json res) \<Rightarrow> (string \<Rightarrow> (string, string) pydict res) \<Rightarrow>
   string \<Rightarrow> model_key \<Rightarrow> string \<times> string \<Rightarrow> string \<Rightarrow> (string \<times> int) list" where
  "file_ranges gets heads endpoint target creds path =
    (case heads (endpoint @ ''/'' @ fst target @ ''/resolve/'' @ snd target @ ''/'' @ path) of
       Inl e \<Rightarrow> []
     | Inr headers \<Rightarrow> (case map_of headers ''x-xet-hash'' of
         None \<Rightarrow> []
       | Some fid \<Rightarrow>
           (case res_bind (gets (fst creds @ ''/v2/reconstructions/'' @ fid) (Some (snd creds))) observed of
              Inl e \<Rightarrow> [] | Inr kvs \<Rightarrow> kvs)))"

lemma scrape_files_ranges:
  assumes hub: "unchanging hub gets heads files"
    and "scrape_files hub endpoint r v creds paths sizes w = (Inr sizes', w')"
    and "dict_wf sizes" and "nonneg_sizes sizes"
  shows "dict_wf sizes' \<and> map_of sizes' =
    map_of (pd.accumulate grow (concat (map (file_ranges gets heads endpoint (r, v) creds) paths)) sizes)"
  using assms(2-)
proof (induction paths arbitrary: sizes)
  case Nil
  then show ?case by (simp add: accumulate_simps)
next
  case (Cons path paths)
  let ?ranges = "file_ranges gets heads endpoint (r, v) creds"
  obtain fid where fid: "resolve_file_id hub endpoint r v path w = (Inr fid, w)"
    and heads: "map_option (\<lambda>h. map_of h ''x-xet-hash'')
      (case heads (endpoint @ ''/'' @ r @ ''/resolve/'' @ v @ ''/'' @ path) of Inl e \<Rightarrow> None | Inr h \<Rightarrow> Some h) = Some fid"
    using Cons.prems(1) hub
    by (auto simp: resolve_file_id_def unchanging_def run_bind split: sum.splits)
  show ?case
  proof (cases fid)
    case None
    then have "?ranges path = []" using heads by (auto simp: file_ranges_def split: sum.splits)
    moreover have "scrape_files hub endpoint r v creds paths sizes w = (Inr sizes', w')"
      using Cons.prems(1) fid None by (simp add: run_bind)
    ultimately show ?thesis using Cons.IH [OF _ Cons.prems(2,3)] by simp
  next
    case (Some f)
    obtain m kvs where m: "gets (fst creds @ ''/v2/reconstructions/'' @ f) (Some (snd creds)) = Inr m"
      and kvs: "observed m = Inr kvs"
      and rest: "scrape_files hub endpoint r v creds paths (merge_sizes sizes (pd.accumulate grow kvs [])) w = (Inr sizes', w')"
      using Cons.prems(1) fid Some hub
      by (auto simp: run_bind fetch_reconstruction_def unchanging_def flatten_observed res_bind_eq_Inr split: sum.splits)
    have "?ranges path = kvs"
      using heads Some m kvs by (auto simp: file_ranges_def split: sum.splits)
    then have "concat (map ?ranges (path # paths)) = kvs @ concat (map ?ranges paths)" by simp
    moreover have "dict_wf sizes' \<and> map_of sizes' =
        map_of (pd.accumulate grow (concat (map ?ranges paths)) (merge_sizes sizes (pd.accumulate grow kvs [])))"
      by (rule Cons.IH [OF rest merge_wf [OF Cons.prems(2)] merge_nonneg [OF Cons.prems(3)]])
    ultimately show ?thesis
      using same_lookup [OF merge_lookup [OF Cons.prems(3)], of _ kvs] by (simp add: accumulate_append)
  qed
qed

text \<open>C35: The size that the map gives to a xorb of a revision is the largest end of a range that any file of the
  revision uses of it, whatever the order of the files and of the ranges; a xorb of which no file
  uses a range is not in the map.\<close>

theorem scrape_revision_sizes:
  assumes "unchanging hub gets heads files"
    and "scrape_revision hub endpoint r v repo_type w = (Inr sizes, w')"
  shows "\<exists>paths creds. files r v repo_type = Inr paths \<and> dict_wf sizes \<and>
    (let used = \<Union>path \<in> set paths. set (file_ranges gets heads endpoint (r, v) creds path)
     in map_of sizes h = (if h \<in> fst ` used then Some (Max (insert 0 {n. (h, n) \<in> used})) else None))"
proof -
  obtain paths creds where paths: "files r v repo_type = Inr paths"
    and "\<exists>w. scrape_files hub endpoint r v creds paths [] w = (Inr sizes, w')"
    using assms by (auto simp: scrape_revision_def run_bind unchanging_def split: sum.splits prod.splits)
  then have sizes: "dict_wf sizes" "map_of sizes h =
      largest_end (concat (map (file_ranges gets heads endpoint (r, v) creds) paths)) h"
    using scrape_files_ranges [OF assms(1)] accumulate_largest by (fastforce simp: nonneg_sizes_def)+
  show ?thesis
    by (intro exI [of _ paths] exI [of _ creds]) (simp add: sizes paths largest_end_Max Let_def)
qed

section \<open>From the hub to the simulator\<close>

lemma scrape_files_wf:
  "scrape_files hub endpoint r v creds paths sizes w = (Inr sizes', w') \<Longrightarrow> dict_wf sizes \<Longrightarrow> dict_wf sizes'"
proof (induction paths arbitrary: sizes w)
  case (Cons path paths)
  from Cons.prems(1) obtain fid w1 where
      rest: "(case fid of None \<Rightarrow> scrape_files hub endpoint r v creds paths sizes
        | Some f \<Rightarrow> bind_call (fetch_reconstruction hub (fst creds) f (snd creds)) (\<lambda>manifest.
            bind_call (lift_res (flatten_manifest manifest)) (\<lambda>incoming.
              scrape_files hub endpoint r v creds paths (merge_sizes sizes incoming)))) w1 = (Inr sizes', w')"
    by (auto elim: bind_Inr)
  show ?case
  proof (cases fid)
    case None
    then show ?thesis using rest Cons by simp
  next
    case (Some f)
    then obtain incoming w2 where
        "scrape_files hub endpoint r v creds paths (merge_sizes sizes incoming) w2 = (Inr sizes', w')"
      using rest by (auto elim!: bind_Inr)
    then show ?thesis using Cons.IH merge_wf [OF Cons.prems(2)] by blast
  qed
qed simp

lemma scrape_revision_wf: "scrape_revision hub endpoint r v repo_type w = (Inr sizes, w') \<Longrightarrow> dict_wf sizes"
  by (auto simp: scrape_revision_def elim!: bind_Inr intro: scrape_files_wf [OF _ dict_wf_Nil])

lemma own_rows:
  "filter (\<lambda>r. (xr_repo_id r, xr_revision r) = t) (rows_of_sizes t' sizes) = (if t' = t then rows_of_sizes t' sizes else [])"
  by (induction sizes) (auto simp: rows_of_sizes_def prod_eq_iff)

lemma rows_back: "map (\<lambda>r. (xr_hash r, xr_size_bytes r)) (rows_of_sizes t sizes) = sizes"
  by (induction sizes) (auto simp: rows_of_sizes_def)

lemma build_rows_own:
  assumes "build_rows hub endpoint repo_type targets w = (Inr rws, w')" and "distinct targets" and "t \<in> set targets"
  obtains w1 w2 sizes where "scrape_revision hub endpoint (fst t) (snd t) repo_type w1 = (Inr sizes, w2)"
    and "filter (\<lambda>r. (xr_repo_id r, xr_revision r) = t) rws = rows_of_sizes t sizes"
proof -
  have other: "filter (\<lambda>r. (xr_repo_id r, xr_revision r) = t) rws = []"
    if "build_rows hub endpoint repo_type targets w = (Inr rws, w')" "t \<notin> set targets" for targets w rws
    using that
    by (induction targets arbitrary: w rws) (auto simp: own_rows elim!: bind_Inr)
  have "\<exists>w1 w2 sizes. scrape_revision hub endpoint (fst t) (snd t) repo_type w1 = (Inr sizes, w2) \<and>
      filter (\<lambda>r. (xr_repo_id r, xr_revision r) = t) rws = rows_of_sizes t sizes"
    using assms
  proof (induction targets arbitrary: w rws)
    case (Cons u targets)
    obtain sizes w1 rest where scrape: "scrape_revision hub endpoint (fst u) (snd u) repo_type w = (Inr sizes, w1)"
      and rest: "build_rows hub endpoint repo_type targets w1 = (Inr rest, w')"
      and rws: "rws = rows_of_sizes u sizes @ rest"
      using Cons.prems(1) by (auto elim!: bind_Inr)
    show ?case
    proof (cases "u = t")
      case True
      then have "filter (\<lambda>r. (xr_repo_id r, xr_revision r) = t) rest = []"
        using other [OF rest] Cons.prems(2) by simp
      then show ?thesis using scrape True rws by (auto simp: own_rows)
    next
      case False
      then show ?thesis using Cons.IH [OF rest] Cons.prems rws by (simp add: own_rows)
    qed
  qed simp
  then show thesis using that by blast
qed


text \<open>A hub with three repositories, two of which use the xorb \<open>X\<close>, the one up to byte 10, the other up to byte 1.\<close>

definition manifest_of :: "(string \<times> int) list \<Rightarrow> json" where
  "manifest_of kvs = JObj [(''xorbs'', JObj (map (\<lambda>(h, n).
     (h, JArr [JObj [(''ranges'', JArr [JObj [(''bytes'', JObj [(''end'', JInt n)])]])]])) kvs))]"

definition hub_gets :: "string \<Rightarrow> string option \<Rightarrow> json res" where
  "hub_gets u bearer = (case bearer of
      None \<Rightarrow> Inr (JObj [(''casUrl'', JStr ''C''), (''accessToken'', JStr ''t'')])
    | Some b \<Rightarrow> dict_item u [(''C/v2/reconstructions/1'', manifest_of [(''X'', 10)]),
        (''C/v2/reconstructions/2'', manifest_of [(''X'', 1)]), (''C/v2/reconstructions/3'', manifest_of [(''Y'', 5)])])"

definition hub_heads :: "string \<Rightarrow> (string, string) pydict res" where
  "hub_heads u = dict_item u [(''E/a/resolve/r1/w'', [(''x-xet-hash'', ''1'')]), (''E/a/resolve/r1/c'', []),
     (''E/b/resolve/r1/w'', [(''x-xet-hash'', ''2'')]), (''E/b/resolve/r1/c'', []),
     (''E/c/resolve/r1/w'', [(''x-xet-hash'', ''3'')]), (''E/c/resolve/r1/c'', [])]"

definition small_hub :: "unit xet_hub" where
  "small_hub = \<lparr>hub_get = (\<lambda>u b w. (hub_gets u b, w)), hub_head = (\<lambda>u w. (hub_heads u, w)),
     list_repo_files = (\<lambda>r v t w. (Inr [''c'', ''w''], w))\<rparr>"

lemma small_hub_unchanging: "unchanging small_hub hub_gets hub_heads (\<lambda>r v t. Inr [''c'', ''w''])"
  by (simp add: unchanging_def small_hub_def)

lemma small_hub_scrapes:
  "scrape_revision small_hub ''E'' ''a'' ''r1'' ''model'' w = (Inr [(''X'', 10)], w)"
  "scrape_revision small_hub ''E'' ''b'' ''r1'' ''model'' w = (Inr [(''X'', 1)], w)"
  "scrape_revision small_hub ''E'' ''c'' ''r1'' ''model'' w = (Inr [(''Y'', 5)], w)"
  by code_simp+


theorem scrape_revision_sizes_witness:
  "\<exists>paths creds. Inr [''c'', ''w''] = (Inr paths :: string list res) \<and> dict_wf [(''X'', 10 :: int)] \<and>
    (let used = \<Union>path \<in> set paths. set (file_ranges hub_gets hub_heads ''E'' (''a'', ''r1'') creds path)
     in Some 10 = (if ''X'' \<in> fst ` used then Some (Max (insert 0 {n. (''X'', n) \<in> used})) else None))"
  using scrape_revision_sizes [OF small_hub_unchanging small_hub_scrapes(1), of "''X''"] by simp

abbreviation drift_targets :: "model_key list" where
  "drift_targets \<equiv> [(''a'', ''r1''), (''b'', ''r1''), (''c'', ''r1'')]"

definition drift_rows :: "xorb_row list" where
  "drift_rows = rows_of_sizes (''a'', ''r1'') [(''X'', 10)] @ rows_of_sizes (''b'', ''r1'') [(''X'', 1)] @
     rows_of_sizes (''c'', ''r1'') [(''Y'', 5)]"

lemma drift_build: "build_rows small_hub ''E'' ''model'' drift_targets w = (Inr drift_rows, w)"
  by (simp add: run_bind small_hub_scrapes drift_rows_def)


text \<open>The sizes are estimates of each revision on its own. Two revisions that use a xorb to different ends
  are scraped into a map that makes the tier 2 replay of the simulator raise \<open>StopIteration\<close>.\<close>

theorem scraped_sizes_crash_replay:
  "\<exists>rws xm. build_rows small_hub ''E'' ''model'' drift_targets () = (Inr rws, ()) \<and>
    load_xorb_map \<lparr>frame_columns = XORB_MAP_COLUMNS, frame_rows = rws\<rparr> = Inr xm \<and>
    simulate_tier2 \<lparr>frame_columns = REQUIRED_COLUMNS,
        frame_rows = [demo_start 0 ''a'' ''h'' 0, demo_start 1 ''b'' ''h'' 0, demo_start 2 ''c'' ''h'' 0]\<rparr>
      xm ''host'' 10 None = Inl StopIteration"
proof -
  have "load_xorb_map \<lparr>frame_columns = XORB_MAP_COLUMNS, frame_rows = drift_rows\<rparr> =
      Inr [((''a'', ''r1''), [(''X'', 10)]), ((''b'', ''r1''), [(''X'', 1)]), ((''c'', ''r1''), [(''Y'', 5)])]"
    by code_simp
  moreover have "simulate_tier2 \<lparr>frame_columns = REQUIRED_COLUMNS,
        frame_rows = [demo_start 0 ''a'' ''h'' 0, demo_start 1 ''b'' ''h'' 0, demo_start 2 ''c'' ''h'' 0]\<rparr>
      [((''a'', ''r1''), [(''X'', 10)]), ((''b'', ''r1''), [(''X'', 1)]), ((''c'', ''r1''), [(''Y'', 5)])]
      ''host'' 10 None = Inl StopIteration"
    by code_simp
  ultimately show ?thesis using drift_build by blast
qed

section \<open>Specifications on the command line\<close>

lemma before_last_append: "c \<notin> set t \<Longrightarrow> before_last c (s @ c # t) = s"
  by (simp add: before_last_def dropWhile_upto)

text \<open>A target that is written \<open>repo@revision\<close> is read back, whatever the name of the repository, when the
  revision has no \<open>@\<close>.\<close>

theorem targets_from_args_roundtrip:
  assumes "list_all (\<lambda>t. CHR ''@'' \<notin> set (snd t)) targets"
  shows "targets_from_args (map (\<lambda>(repo, rvn). repo @ ''@'' @ rvn) targets) = Inr targets"
  using assms
  by (induction targets) (auto simp: targets_from_args_def target_of_spec_def before_last_append)

theorem targets_from_args_roundtrip_witness:
  "targets_from_args [''o/m@x@r1'', ''o/n@r2''] = Inr [(''o/m@x'', ''r1''), (''o/n'', ''r2'')]"
  using targets_from_args_roundtrip [of "[(''o/m@x'', ''r1''), (''o/n'', ''r2'')]"] by simp

end
