(* ===== verification/Preflight.thy ===== *)
theory Preflight
  imports Provision
begin

text \<open>
  \<open>provision/preflight.py\<close>: the problems that are reported before anything is spent. The
  configuration comes as its document after \<open>tomllib.loads\<close>, or as the exception of reading it.
\<close>

definition REQUIRED_ENV :: "string list" where
  "REQUIRED_ENV = [''RUNPOD_API_KEY'', ''HF_TOKEN'']"

definition missing_secrets :: "environment \<Rightarrow> string list" where
  "missing_secrets environ =
    map (\<lambda>var. var @ '' not set (add it to runpod_testbed/.env)'')
      (filter (\<lambda>var. dict_get var [] environ = []) REQUIRED_ENV)"

definition config_problems :: "document res \<Rightarrow> string list" where
  "config_problems doc =
    (case res_bind doc (\<lambda>d. load_str d None) of
       Inl e \<Rightarrow> [''config invalid: '' @ err_text e]
     | Inr cfg \<Rightarrow> [])"

text \<open>\<open>len\<close> of what is under a key.\<close>

fun json_len :: "json \<Rightarrow> nat res" where
  "json_len (JArr xs) = Inr (length xs)"
| "json_len (JObj d) = Inr (length d)"
| "json_len (JStr s) = Inr (length s)"
| "json_len _ = Inl (TypeError ''object has no len()'')"

definition account_counts :: "json \<Rightarrow> (nat \<times> nat) res" where
  "account_counts answer =
    res_bind (json_item ''data'' answer) (\<lambda>data.
    res_bind (json_item ''myself'' data) (\<lambda>myself.
    res_bind (json_item ''pods'' myself) (\<lambda>pods.
    res_bind (json_len pods) (\<lambda>n_pods.
    res_bind (json_item ''endpoints'' myself) (\<lambda>eps.
    res_bind (json_len eps) (\<lambda>n_eps. Inr (n_pods, n_eps)))))))"

definition orphan_lines :: "nat \<times> nat \<Rightarrow> string list" where
  "orphan_lines counts =
    (if fst counts \<noteq> 0 \<or> snd counts \<noteq> 0
     then [''orphaned resources on the account: '' @ str_nat (fst counts) @ '' pods, '' @ str_nat (snd counts) @
           '' endpoints '' @ em_dash @ '' tear them down before the demo'']
     else [])"

definition query_failed :: "pyerr \<Rightarrow> string" where
  "query_failed e = ''could not query the Runpod account (key/network?): '' @ err_text e"

definition ACCOUNT_QUERY :: string where
  "ACCOUNT_QUERY = ''query { myself { pods { id } endpoints { id } } }''"

definition account_problems :: "'e cloud \<Rightarrow> ('e, string list) io" where
  "account_problems c =
    try_call
      (bind_call (graphql c ACCOUNT_QUERY) (\<lambda>answer.
       bind_call (lift_res (account_counts answer)) (\<lambda>counts. pure (orphan_lines counts))))
      (\<lambda>e. pure [query_failed e])"

definition preflight_check :: "'e cloud \<Rightarrow> environment \<Rightarrow> document res \<Rightarrow> ('e, string list) io" where
  "preflight_check c environ doc =
    bind_call (if dict_get ''RUNPOD_API_KEY'' [] environ \<noteq> [] then account_problems c else pure []) (\<lambda>account.
      pure (missing_secrets environ @ config_problems doc @ account))"

text \<open>\<open>main\<close>: the exit status and what is printed.\<close>

definition preflight_main :: "string list \<Rightarrow> nat \<times> string list" where
  "preflight_main problems =
    (if problems \<noteq> [] then (1, ''PREFLIGHT FAILED:'' # map (\<lambda>p. ''  - '' @ p) problems)
     else (0, [''preflight OK: env set, config valid, no orphaned resources'']))"

section \<open>What a clean preflight means\<close>

lemma missing_secrets_Nil:
  "missing_secrets environ = [] \<longleftrightarrow>
    dict_get ''RUNPOD_API_KEY'' [] environ \<noteq> [] \<and> dict_get ''HF_TOKEN'' [] environ \<noteq> []"
  by (simp add: missing_secrets_def REQUIRED_ENV_def)

lemma account_problems_run:
  obtains ps where "account_problems c w = (Inr ps, snd (graphql c ACCOUNT_QUERY w))"
    and "ps = [] \<longleftrightarrow> res_bind (fst (graphql c ACCOUNT_QUERY w)) account_counts = Inr (0, 0)"
proof -
  obtain r w' where r: "graphql c ACCOUNT_QUERY w = (r, w')" by force
  show thesis
  proof (cases "res_bind r account_counts")
    case (Inl e)
    then show thesis using r by (intro that [of "[query_failed e]"]) (cases r; simp add: account_problems_def io_simps)+
  next
    case (Inr p)
    then obtain answer where "r = Inr answer" "account_counts answer = Inr p" by (auto simp: res_bind_eq_Inr)
    then have "account_problems c w = (Inr (orphan_lines p), w')"
      using r by (simp add: account_problems_def io_simps)
    moreover have "orphan_lines p = [] \<longleftrightarrow> p = (0, 0)" by (cases p) (simp add: orphan_lines_def)
    ultimately show thesis using r Inr by (intro that [of "orphan_lines p"]) simp_all
  qed
qed

text \<open>Preflight never raises, and it finds no problem exactly when both secrets are set, the configuration loads, and
  the account could be asked and has neither pods nor endpoints.\<close>

theorem preflight_clean_iff:
  "\<exists>problems w'. preflight_check c environ doc w = (Inr problems, w') \<and>
    (fst (preflight_main problems) = 0 \<longleftrightarrow>
      dict_get ''RUNPOD_API_KEY'' [] environ \<noteq> [] \<and> dict_get ''HF_TOKEN'' [] environ \<noteq> [] \<and>
      \<not> isl (res_bind doc (\<lambda>d. load_str d None)) \<and>
      res_bind (fst (graphql c ACCOUNT_QUERY w)) account_counts = Inr (0, 0))"
proof -
  let ?key = "dict_get ''RUNPOD_API_KEY'' [] environ \<noteq> []"
  define account where "account = (if ?key then account_problems c else pure [])"
  obtain ps w' where run: "account w = (Inr ps, w')"
    and ps: "?key \<longrightarrow> (ps = [] \<longleftrightarrow> res_bind (fst (graphql c ACCOUNT_QUERY w)) account_counts = Inr (0, 0))"
    by (rule account_problems_run [of c w]) (cases ?key; force simp: account_def)
  have config: "config_problems doc = [] \<longleftrightarrow> \<not> isl (res_bind doc (\<lambda>d. load_str d None))"
    by (cases "res_bind doc (\<lambda>d. load_str d None)") (simp_all add: config_problems_def)
  show ?thesis
    using run ps config
    by (auto simp: preflight_check_def run_bind preflight_main_def missing_secrets_Nil account_def [symmetric])
qed

end
