(* ===== verification/Dedup_Tools.thy ===== *)
theory Dedup_Tools
  imports Provision "HOL-Library.Multiset"
begin

text \<open>
  \<open>tools/fsck.py\<close> (the chunk-level comparison of two files) and \<open>tools/dedup_study.py\<close> (how often
  a file changes over the commits of a repository). The chunker of \<open>xet_verify\<close>, the download
  and the requests are parameters; of the printed text the numbers are modelled.
\<close>

section \<open>Shared chunks\<close>

text \<open>\<open>Counter\<close>, and the minimum \<open>&\<close> of two of them.\<close>

definition hash_counter :: "string list \<Rightarrow> (string, nat) pydict" where
  "hash_counter xs = fold (\<lambda>h d. AList.update h (dict_get h 0 d + 1) d) xs []"

definition counter_and :: "(string, nat) pydict \<Rightarrow> (string, nat) pydict \<Rightarrow> (string, nat) pydict" where
  "counter_and a b = filter (\<lambda>(h, n). 0 < n) (map (\<lambda>(h, n). (h, min n (dict_get h 0 b))) a)"

record dedup_numbers =
  chunks_a :: nat
  bytes_a :: nat
  chunks_b :: nat
  bytes_b :: nat
  shared_chunks :: nat
  shared_bytes :: nat
  share_of_b :: rat

type_synonym chunk = "nat \<times> string"

definition dedup_report :: "chunk list \<Rightarrow> chunk list \<Rightarrow> dedup_numbers" where
  "dedup_report ca cb =
    (let ha = hash_counter (map snd ca);
         len_by_hash = dict_update [] (map (\<lambda>(n, h). (h, n)) ca);
         shared = counter_and ha (hash_counter (map snd cb));
         tot_b = sum_list (map fst cb);
         bytes = sum_list (map (\<lambda>(h, k). dict_get h 0 len_by_hash * k) shared)
     in \<lparr>chunks_a = length ca, bytes_a = sum_list (map fst ca), chunks_b = length cb, bytes_b = tot_b,
         shared_chunks = sum_list (map snd shared), shared_bytes = bytes,
         share_of_b = of_nat bytes / of_nat (max tot_b 1)\<rparr>)"

text \<open>\<open>org/model[@rev]/path\<close> as the address it is fetched from.\<close>

definition fetch_url :: "string \<Rightarrow> string \<Rightarrow> string res" where
  "fetch_url hub spec =
    (case split_text CHR ''/'' spec of
       org # model_rev # p # ps \<Rightarrow>
         (let model = before_char CHR ''@'' model_rev; r = after_char CHR ''@'' model_rev;
              path = join_text ''/'' (p # ps)
          in Inr (hub @ ''/'' @ org @ ''/'' @ model @ ''/resolve/'' @ (if r = [] then ''main'' else r) @ ''/'' @ path))
     | _ \<Rightarrow> Inl (ValueError ''not enough values to unpack''))"

section \<open>Counting is multisets\<close>

lemma hash_counter_step: "hash_counter (xs @ [h]) = AList.update h (dict_get h 0 (hash_counter xs) + 1) (hash_counter xs)"
  by (simp add: hash_counter_def)

lemma hash_counter_count: "dict_get h 0 (hash_counter xs) = count (mset xs) h"
  by (induction xs rule: rev_induct)
    (auto simp: hash_counter_step dict_get_def update_conv' hash_counter_def split: option.splits)

lemma hash_counter_wf: "dict_wf (hash_counter xs)" and hash_counter_keys: "fst ` set (hash_counter xs) = set xs"
  by (induction xs rule: rev_induct) (auto simp: hash_counter_step hash_counter_def)

text \<open>The shared chunks, as a multiset of hashes.\<close>

definition shared_of :: "chunk list \<Rightarrow> chunk list \<Rightarrow> string multiset" where
  "shared_of ca cb = mset (map snd ca) \<inter># mset (map snd cb)"

lemma sum_over_mset:
  fixes f :: "'a \<Rightarrow> nat"
  assumes "finite A" and "set_mset M \<subseteq> A"
  shows "(\<Sum>h \<in> A. f h * count M h) = sum_mset (image_mset f M)"
  using assms(2)
proof (induction M)
  case (add x M)
  have "(\<Sum>h \<in> A. f h * count (add_mset x M) h) = (\<Sum>h \<in> A. f h * count M h + (if h = x then f h else 0))"
    by (rule sum.cong) simp_all
  also have "\<dots> = (\<Sum>h \<in> A. f h * count M h) + f x"
    using add.prems assms(1) by (simp add: sum.distrib)
  finally show ?case using add by simp
qed simp

lemma sum_shared:
  "sum_list (map (\<lambda>(h, k). f h * k) (counter_and (hash_counter xs) (hash_counter ys))) =
    sum_mset (image_mset f (mset xs \<inter># mset ys))" for f :: "string \<Rightarrow> nat"
proof -
  let ?c = "hash_counter xs" and ?m = "\<lambda>h. min (count (mset xs) h) (count (mset ys) h)"
  have distinct: "distinct (map fst ?c)" using hash_counter_wf by (simp add: dict_wf_def)
  have value_at: "n = count (mset xs) h" if "(h, n) \<in> set ?c" for h n
    using that distinct hash_counter_count [of h xs] by (simp add: dict_get_def)
  have drop_zero: "sum_list (map (\<lambda>(h, k). f h * k) (filter (\<lambda>(h, n). 0 < n) d)) = sum_list (map (\<lambda>(h, k). f h * k) d)"
    for d :: "(string \<times> nat) list"
    by (induction d) auto
  have "sum_list (map (\<lambda>(h, k). f h * k) (counter_and ?c (hash_counter ys))) =
      sum_list (map ((\<lambda>h. f h * ?m h) \<circ> fst) ?c)"
    unfolding counter_and_def drop_zero
    by (auto simp: comp_def hash_counter_count intro!: arg_cong [of _ _ sum_list] dest!: value_at)
  also have "\<dots> = (\<Sum>h \<in> set xs. f h * ?m h)"
    using sum_list_distinct_conv_sum_set [OF distinct, of "\<lambda>h. f h * ?m h"] hash_counter_keys [of xs] by simp
  also have "\<dots> = sum_mset (image_mset f (mset xs \<inter># mset ys))"
    using sum_over_mset [of "set xs" "mset xs \<inter># mset ys" f] by simp
  finally show ?thesis .
qed


text \<open>The chunks of both files have a length that their hash determines: the chunker hashes the bytes.\<close>

definition lengths_agree :: "(string \<Rightarrow> nat) \<Rightarrow> chunk list \<Rightarrow> bool" where
  "lengths_agree len cs \<longleftrightarrow> list_all (\<lambda>(n, h). n = len h) cs"

lemma lengths_sum: "lengths_agree len cs \<Longrightarrow> sum_list (map fst cs) = sum_mset (image_mset len (mset (map snd cs)))"
  by (induction cs) (auto simp: lengths_agree_def)

lemma length_lookup:
  assumes "lengths_agree len ca" and "h \<in> snd ` set ca"
  shows "dict_get h 0 (dict_update [] (map (\<lambda>(n, h). (h, n)) ca)) = len h"
proof -
  have "map_of (dict_update [] (map (\<lambda>(n, h). (h, n)) ca)) h = map_of (rev (map (\<lambda>(n, h). (h, n)) ca)) h"
    by (simp add: map_of_dict_update)
  also have "\<dots> = Some (len h)"
  proof (cases "map_of (rev (map (\<lambda>(n, h). (h, n)) ca)) h")
    case None
    then show ?thesis using assms(2) by (force simp: map_of_eq_None_iff)
  next
    case (Some n)
    then have "(n, h) \<in> set ca" by (auto dest!: map_of_SomeD)
    then show ?thesis using Some assms(1) by (auto simp: lengths_agree_def list_all_iff)
  qed
  finally show ?thesis by (simp add: dict_get_def)
qed

lemma dedup_shared:
  assumes "lengths_agree len ca"
  shows "shared_chunks (dedup_report ca cb) = size (shared_of ca cb)"
    and "shared_bytes (dedup_report ca cb) = sum_mset (image_mset len (shared_of ca cb))"
proof -
  let ?shared = "counter_and (hash_counter (map snd ca)) (hash_counter (map snd cb))"
  let ?len = "dict_update [] (map (\<lambda>(n, h). (h, n)) ca)"
  have "shared_chunks (dedup_report ca cb) = sum_list (map snd ?shared)"
    by (simp add: dedup_report_def Let_def)
  also have "\<dots> = sum_list (map (\<lambda>(h, k). 1 * k) ?shared)"
    by (simp add: case_prod_unfold)
  also have "\<dots> = size (shared_of ca cb)"
    unfolding sum_shared [of "\<lambda>_. 1"] shared_of_def by (simp only: size_eq_sum_mset)
  finally show "shared_chunks (dedup_report ca cb) = size (shared_of ca cb)" .
  have "shared_bytes (dedup_report ca cb) = sum_list (map (\<lambda>(h, k). dict_get h 0 ?len * k) ?shared)"
    by (simp add: dedup_report_def Let_def)
  also have "\<dots> = sum_mset (image_mset (\<lambda>h. dict_get h 0 ?len) (shared_of ca cb))"
    unfolding sum_shared shared_of_def ..
  also have "\<dots> = sum_mset (image_mset len (shared_of ca cb))"
    using length_lookup [OF assms]
    by (intro arg_cong [of _ _ sum_mset] image_mset_cong) (auto simp: shared_of_def)
  finally show "shared_bytes (dedup_report ca cb) = sum_mset (image_mset len (shared_of ca cb))" .
qed

text \<open>C39: What the comparison reports is the intersection of the two files as multisets of chunks: the number of
  shared chunks and their bytes are the same whichever file comes first, and the share of the second file is at
  most all of it.\<close>

theorem dedup_report_shared:
  assumes "lengths_agree len ca" and "lengths_agree len cb"
  shows "shared_chunks (dedup_report ca cb) = size (shared_of ca cb) \<and>
    shared_chunks (dedup_report cb ca) = shared_chunks (dedup_report ca cb) \<and>
    shared_bytes (dedup_report cb ca) = shared_bytes (dedup_report ca cb) \<and>
    shared_bytes (dedup_report ca cb) \<le> bytes_b (dedup_report ca cb) \<and>
    share_of_b (dedup_report ca cb) \<le> 1"
proof -
  let ?r = "dedup_report ca cb"
  have swap: "shared_of cb ca = shared_of ca cb" by (simp add: shared_of_def subset_mset.inf.commute)
  have bytes_b: "bytes_b ?r = sum_mset (image_mset len (mset (map snd cb)))"
    using lengths_sum [OF assms(2)] by (simp add: dedup_report_def Let_def)
  have sub: "shared_of ca cb \<subseteq># mset (map snd cb)" by (simp add: shared_of_def)
  have le: "shared_bytes ?r \<le> bytes_b ?r"
    unfolding dedup_shared(2) [OF assms(1)] bytes_b
    using sub by (metis (no_types, lifting) image_mset_union le_add1 subset_mset.add_diff_inverse sum_mset.union)
  moreover have "share_of_b ?r = of_nat (shared_bytes ?r) / of_nat (max (bytes_b ?r) 1)"
    by (simp add: dedup_report_def Let_def)
  moreover have "of_nat (shared_bytes ?r) \<le> (of_nat (max (bytes_b ?r) 1) :: rat)"
    using le by (simp only: of_nat_le_iff)
  ultimately show ?thesis
    using dedup_shared [OF assms(1), of cb] dedup_shared [OF assms(2), of ca] swap
    by (simp add: divide_le_eq_1)
qed

lemma demo_dedup: "bytes_b (dedup_report [(3, ''x''), (3, ''x''), (2, ''y'')] [(2, ''y''), (3, ''x'')]) = 5"
    "shared_bytes (dedup_report [(3, ''x''), (3, ''x''), (2, ''y'')] [(2, ''y''), (3, ''x'')]) = 5"
  by code_simp+

theorem dedup_report_shared_witness:
  "shared_bytes (dedup_report [(2, ''y''), (3, ''x'')] [(3, ''x''), (3, ''x''), (2, ''y'')]) = 5 \<and>
    share_of_b (dedup_report [(3, ''x''), (3, ''x''), (2, ''y'')] [(2, ''y''), (3, ''x'')]) \<le> 1"
  using dedup_report_shared [of "\<lambda>h. if h = ''x'' then 3 else 2" "[(3, ''x''), (3, ''x''), (2, ''y'')]" "[(2, ''y''), (3, ''x'')]"]
    demo_dedup(2) by (simp add: lengths_agree_def)

section \<open>The history of a file\<close>

text \<open>\<open>commits\<close>: at most twenty pages, newest first, cut at \<open>limit\<close> (a negative one cuts from the end).\<close>

definition take_limit :: "int \<Rightarrow> 'a list \<Rightarrow> 'a list" where
  "take_limit limit xs = (if 0 \<le> limit then take (nat limit) xs else take (length xs - nat (- limit)) xs)"

fun commit_pages :: "(nat \<Rightarrow> ('e, 'c list) io) \<Rightarrow> int \<Rightarrow> nat list \<Rightarrow> 'c list \<Rightarrow> ('e, 'c list) io" where
  "commit_pages page limit [] out = pure out"
| "commit_pages page limit (p # ps) out =
    bind_call (page p) (\<lambda>batch.
      if batch = [] then pure out
      else if limit \<le> int (length (out @ batch)) then pure (out @ batch)
      else commit_pages page limit ps (out @ batch))"

definition commits :: "(nat \<Rightarrow> ('e, 'c list) io) \<Rightarrow> int \<Rightarrow> ('e, 'c list) io" where
  "commits page limit = bind_call (commit_pages page limit [0..<20] []) (\<lambda>out. pure (take_limit limit out))"

text \<open>The row of a commit: its id, the hash and size of the file there (\<open>None\<close> where it is absent), the mark.\<close>

datatype mark = Absent | First | Identical | Changed

record probe_state =
  prev_hash :: "string option"
  identical :: nat
  changed :: nat
  missing :: nat
  changed_pairs :: "(string \<times> string) list"
  probe_rows :: "(string \<times> string option \<times> string option \<times> mark) list"

definition probe_step :: "(string \<Rightarrow> string option \<times> string option) \<Rightarrow> string \<Rightarrow> probe_state \<Rightarrow> probe_state res" where
  "probe_step file sha s =
    (let (h, size_b) = file sha
     in case h of
          None \<Rightarrow> Inr (s\<lparr>missing := missing s + 1, probe_rows := probe_rows s @ [(sha, h, size_b, Absent)]\<rparr>)
        | Some x \<Rightarrow>
            (case prev_hash s of
               None \<Rightarrow> Inr (s\<lparr>prev_hash := Some x, probe_rows := probe_rows s @ [(sha, h, size_b, First)]\<rparr>)
             | Some p \<Rightarrow>
                 if x = p
                 then Inr (s\<lparr>prev_hash := Some x, identical := identical s + 1,
                        probe_rows := probe_rows s @ [(sha, h, size_b, Identical)]\<rparr>)
                 else if probe_rows s = [] then Inl IndexError
                 else Inr (s\<lparr>prev_hash := Some x, changed := changed s + 1,
                        changed_pairs := changed_pairs s @ [(sha, fst (last (probe_rows s)))],
                        probe_rows := probe_rows s @ [(sha, h, size_b, Changed)]\<rparr>)))"

definition probe_start :: probe_state where
  "probe_start = \<lparr>prev_hash = None, identical = 0, changed = 0, missing = 0, changed_pairs = [], probe_rows = []\<rparr>"

definition probe_path :: "(string \<Rightarrow> string option \<times> string option) \<Rightarrow> string list \<Rightarrow> probe_state res" where
  "probe_path file history = fold_res (probe_step file) history probe_start"

text \<open>The two specifications that are printed for the chunk-level comparison, old before new.\<close>

definition printed_pair :: "string \<Rightarrow> string \<Rightarrow> probe_state \<Rightarrow> (string \<times> string) option" where
  "printed_pair repo path s =
    (case changed_pairs s of
       [] \<Rightarrow> None
     | (newsha, oldsha) # _ \<Rightarrow> Some (repo @ ''@'' @ oldsha @ ''/'' @ path, repo @ ''@'' @ newsha @ ''/'' @ path))"


lemma probe_rows_log:
  "fold_res (probe_step file) history s = Inr s' \<Longrightarrow> map fst (probe_rows s') = map fst (probe_rows s) @ history"
proof (induction history arbitrary: s)
  case (Cons sha history)
  then obtain s1 where s1: "probe_step file sha s = Inr s1" "fold_res (probe_step file) history s1 = Inr s'"
    by (auto simp: res_bind_eq_Inr)
  then have "map fst (probe_rows s1) = map fst (probe_rows s) @ [sha]"
    by (auto simp: probe_step_def Let_def split: prod.splits option.splits if_splits)
  then show ?case using Cons.IH [OF s1(2)] by simp
qed simp

text \<open>A state in which every pair is of two neighbours of the list, the later one first, and a hash was seen only
  with a row.\<close>

definition neighbours :: "'a list \<Rightarrow> 'a \<times> 'a \<Rightarrow> bool" where
  "neighbours xs p \<longleftrightarrow> (\<exists>as bs. xs = as @ [snd p, fst p] @ bs)"

definition probe_inv :: "probe_state \<Rightarrow> bool" where
  "probe_inv s \<longleftrightarrow> (prev_hash s \<noteq> None \<longrightarrow> probe_rows s \<noteq> []) \<and>
    list_all (neighbours (map fst (probe_rows s))) (changed_pairs s) \<and>
    identical s + changed s + missing s + (if prev_hash s = None then 0 else 1) = length (probe_rows s) \<and>
    length (changed_pairs s) = changed s"

lemma neighbours_snoc: "neighbours xs p \<Longrightarrow> neighbours (xs @ [x]) p"
  unfolding neighbours_def by (metis append.assoc)

lemma neighbours_last: "xs \<noteq> [] \<Longrightarrow> neighbours (xs @ [x]) (x, last xs)"
  unfolding neighbours_def by (metis append.assoc append_Cons append_Nil append_butlast_last_id fst_conv snd_conv)

lemma probe_step_inv:
  assumes "probe_inv s"
  shows "\<exists>s'. probe_step file sha s = Inr s' \<and> probe_inv s'"
proof -
  obtain h size_b where at: "file sha = (h, size_b)" by force
  have pairs: "list_all (neighbours (map fst (probe_rows s) @ [sha])) (changed_pairs s)"
    using assms neighbours_snoc by (fastforce simp: probe_inv_def list_all_iff)
  have new: "probe_rows s \<noteq> [] \<Longrightarrow> neighbours (map fst (probe_rows s) @ [sha]) (sha, fst (last (probe_rows s)))"
    using neighbours_last [of "map fst (probe_rows s)" sha] by (simp add: last_map)
  show ?thesis
    using assms pairs new
    by (cases h; cases "prev_hash s") (auto simp: probe_step_def at probe_inv_def)
qed

lemma probe_path_inv:
  obtains s where "probe_path file history = Inr s" and "probe_inv s" and "map fst (probe_rows s) = history"
proof -
  have "probe_inv probe_start" by (simp add: probe_inv_def probe_start_def)
  then obtain s where s: "probe_path file history = Inr s" "probe_inv s"
    using fold_res_total [of probe_inv probe_start history "probe_step file"] probe_step_inv
    unfolding probe_path_def by blast
  moreover have "map fst (probe_rows s) = history"
    using probe_rows_log [OF s(1) [unfolded probe_path_def]] by (simp add: probe_start_def)
  ultimately show ?thesis by (rule that)
qed

text \<open>The history is scanned newest first: the scan never raises, it has one row per commit, every commit is counted
  once, and every pair of the file's changes has the older commit first. The pair that is printed therefore names
  the older commit as the new one and the newer one as the old one.\<close>

theorem probe_pairs_swapped:
  "\<exists>s. probe_path file history = Inr s \<and> map fst (probe_rows s) = history \<and>
    identical s + changed s + missing s \<le> length history \<and>
    list_all (\<lambda>(older, newer). \<exists>as bs. history = as @ [newer, older] @ bs) (changed_pairs s) \<and>
    printed_pair repo path s = map_option
      (\<lambda>(older, newer). (repo @ ''@'' @ newer @ ''/'' @ path, repo @ ''@'' @ older @ ''/'' @ path))
      (case changed_pairs s of [] \<Rightarrow> None | p # ps \<Rightarrow> Some p)"
proof -
  obtain s where s: "probe_path file history = Inr s" "probe_inv s" and rows: "map fst (probe_rows s) = history"
    by (rule probe_path_inv)
  then have "length (probe_rows s) = length history" by (metis length_map)
  then have "identical s + changed s + missing s \<le> length history"
    using s(2) by (simp add: probe_inv_def split: if_splits)
  moreover have "list_all (\<lambda>(older, newer). \<exists>as bs. history = as @ [newer, older] @ bs) (changed_pairs s)"
  proof -
    have "list_all (neighbours history) (changed_pairs s)" using s(2) rows by (simp add: probe_inv_def)
    moreover have "neighbours history = (\<lambda>(older, newer). \<exists>as bs. history = as @ [newer, older] @ bs)"
      by (simp add: fun_eq_iff neighbours_def)
    ultimately show ?thesis by simp
  qed
  moreover have "printed_pair repo path s = map_option
      (\<lambda>(older, newer). (repo @ ''@'' @ newer @ ''/'' @ path, repo @ ''@'' @ older @ ''/'' @ path))
      (case changed_pairs s of [] \<Rightarrow> None | p # ps \<Rightarrow> Some p)"
    by (cases "changed_pairs s") (auto simp: printed_pair_def)
  ultimately show ?thesis using s(1) rows by blast
qed

text \<open>The neighbour can be a commit without the file, which then is no side of the change.\<close>

theorem probe_pair_with_missing:
  "changed_pairs (projr (probe_path (\<lambda>sha. (map_of [(''new'', ''h2''), (''old'', ''h1'')] sha, None))
     [''new'', ''gap'', ''old''])) = [(''old'', ''gap'')]"
  by code_simp

section \<open>The commands\<close>

text \<open>The requests (with their headers) give a status whatever it is, but for those of \<open>page_of_commits\<close>, which
  raise it. Bytes are strings.\<close>

record 'e hub_tools =
  page_of_commits :: "string \<Rightarrow> int \<Rightarrow> environment \<Rightarrow> ('e, json) io"
  head_of :: "string \<Rightarrow> environment \<Rightarrow> ('e, int \<times> (string, string) pydict) io"
  content_of :: "string \<Rightarrow> environment \<Rightarrow> ('e, int \<times> string) io"
  chunk_hashes :: "string \<Rightarrow> chunk list"
  urandom :: "nat \<Rightarrow> ('e, string) io"
  hf_xet_hash :: "string \<Rightarrow> ('e, string) io"
  file_hash_hex :: "string \<Rightarrow> string"

definition hub_base :: "environment \<Rightarrow> string" where
  "hub_base environ = dict_get ''HF_ENDPOINT'' ''https://huggingface.co'' environ"

definition auth_headers :: "environment \<Rightarrow> environment" where
  "auth_headers environ =
    (let token = dict_get ''HF_TOKEN'' [] environ
     in if token = [] then [] else [(''Authorization'', ''Bearer '' @ token)])"

definition commit_page :: "'e hub_tools \<Rightarrow> environment \<Rightarrow> string \<Rightarrow> nat \<Rightarrow> ('e, json list) io" where
  "commit_page t environ repo p =
    bind_call (page_of_commits t (hub_base environ @ ''/api/models/'' @ repo @ ''/commits/main'') (int p)
        (auth_headers environ)) (\<lambda>batch.
      lift_res (if truthy batch then json_iter batch else Inr []))"

definition resolve_url :: "string \<Rightarrow> string \<Rightarrow> string \<Rightarrow> string \<Rightarrow> string" where
  "resolve_url hub repo sha path = hub @ ''/'' @ repo @ ''/resolve/'' @ sha @ ''/'' @ path"

definition xet_hash ::
  "'e hub_tools \<Rightarrow> environment \<Rightarrow> string \<Rightarrow> string \<Rightarrow> string \<Rightarrow> ('e, string option \<times> string option) io" where
  "xet_hash t environ repo path sha =
    bind_call (head_of t (resolve_url (hub_base environ) repo sha path) (auth_headers environ)) (\<lambda>(status, headers).
      pure (if status \<notin> {200, 302} then (None, None)
        else (map_of headers ''X-Xet-Hash'',
          if dict_get ''X-Linked-Size'' [] headers \<noteq> [] then map_of headers ''X-Linked-Size''
          else map_of headers ''Content-Length'')))"

definition commit_id :: "json \<Rightarrow> string res" where
  "commit_id cm = res_bind (json_item ''id'' cm) json_text"

fun probe_commits ::
  "(string \<Rightarrow> ('e, string option \<times> string option) io) \<Rightarrow> json list \<Rightarrow> probe_state \<Rightarrow> ('e, probe_state) io" where
  "probe_commits hash_at [] s = pure s"
| "probe_commits hash_at (cm # cms) s =
    bind_call (lift_res (commit_id cm)) (\<lambda>sha.
    bind_call (hash_at sha) (\<lambda>found.
    bind_call (lift_res (probe_step (\<lambda>_. found) sha s)) (\<lambda>s'.
      probe_commits hash_at cms s')))"

text \<open>The share that is printed, where there is a transition.\<close>

definition identical_share :: "probe_state \<Rightarrow> rat option" where
  "identical_share s =
    (if identical s + changed s = 0 then None else Some (of_nat (identical s) / of_nat (identical s + changed s)))"

definition probe ::
  "'e hub_tools \<Rightarrow> environment \<Rightarrow> string \<Rightarrow> string list \<Rightarrow> int \<Rightarrow>
   ('e, (probe_state \<times> rat option \<times> (string \<times> string) option) list) io" where
  "probe t environ repo paths limit =
    bind_call (commits (commit_page t environ repo) limit) (\<lambda>history.
      map_each (\<lambda>path. bind_call (probe_commits (xet_hash t environ repo path) history probe_start) (\<lambda>s.
        pure (s, identical_share s, printed_pair repo path s))) paths)"

definition fetch :: "'e hub_tools \<Rightarrow> environment \<Rightarrow> string \<Rightarrow> ('e, string) io" where
  "fetch t environ spec =
    bind_call (lift_res (fetch_url (hub_base environ) spec)) (\<lambda>url.
    bind_call (content_of t url (auth_headers environ)) (\<lambda>(status, content). pure content))"

definition compare_files :: "'e hub_tools \<Rightarrow> environment \<Rightarrow> string \<Rightarrow> string \<Rightarrow> ('e, dedup_numbers) io" where
  "compare_files t environ a b =
    bind_call (fetch t environ a) (\<lambda>fa.
    bind_call (fetch t environ b) (\<lambda>fb.
      pure (dedup_report (chunk_hashes t fa) (chunk_hashes t fb))))"

definition PARITY_SIZES :: "nat list" where
  "PARITY_SIZES = [0, 1, 100000, 5000000]"

definition parity_at :: "'e hub_tools \<Rightarrow> nat \<Rightarrow> ('e, unit) io" where
  "parity_at t n =
    bind_call (urandom t n) (\<lambda>content.
    bind_call (hf_xet_hash t content) (\<lambda>oracle.
      if file_hash_hex t content = oracle then pure ()
      else throw (AssertionError (''parity broken at '' @ str_int (int n) @ '' B: '' @ file_hash_hex t content @
             '' != '' @ oracle))))"

definition parity_selftest :: "'e hub_tools \<Rightarrow> nat list \<Rightarrow> ('e, unit) io" where
  "parity_selftest t sizes = for_each (parity_at t) sizes"

text \<open>\<open>main\<close> of \<open>fsck.py\<close>, over its arguments; the parser's \<open>error\<close> ends the process.\<close>

definition fsck_main ::
  "'e hub_tools \<Rightarrow> environment \<Rightarrow> bool \<Rightarrow> (string \<times> string) option \<Rightarrow> ('e, dedup_numbers option) io" where
  "fsck_main t environ parity dedup =
    (if parity then then_call (parity_selftest t PARITY_SIZES) (pure None)
     else case dedup of
            Some (a, b) \<Rightarrow> bind_call (compare_files t environ a b) (\<lambda>r. pure (Some r))
          | None \<Rightarrow> throw (OtherError ''pass --parity, or --dedup A B''))"

section \<open>From the one tool to the other\<close>

lemma fetch_url_resolves:
  assumes "CHR ''/'' \<notin> set org" and "CHR ''/'' \<notin> set model" and "CHR ''@'' \<notin> set model"
    and "CHR ''/'' \<notin> set sha" and "sha \<noteq> []"
  shows "fetch_url hub ((org @ ''/'' @ model) @ ''@'' @ sha @ ''/'' @ path) =
    Inr (resolve_url hub (org @ ''/'' @ model) sha path)"
proof -
  obtain p ps where path: "split_text CHR ''/'' path = p # ps" by (cases "split_text CHR ''/'' path") auto
  have "split_text CHR ''/'' (org @ CHR ''/'' # ((model @ CHR ''@'' # sha) @ CHR ''/'' # path)) =
      org # (model @ CHR ''@'' # sha) # p # ps"
    using split_text_append [OF assms(1)] split_text_append [of "CHR ''/''" "model @ CHR ''@'' # sha" path] assms(2,4)
    by (simp add: path)
  moreover have "join_text ''/'' (p # ps) = path" using join_split [of "CHR ''/''" path] path by simp
  ultimately show ?thesis using assms by (simp add: fetch_url_def resolve_url_def Let_def)
qed

lemma probe_commits_run:
  "(\<And>sha w. hash_at sha w = (Inr (file sha), w)) \<Longrightarrow> map_res commit_id history = Inr shas \<Longrightarrow>
    probe_commits hash_at history s w = (fold_res (probe_step file) shas s, w)"
proof (induction history arbitrary: s shas)
  case (Cons cm history)
  then obtain sha shas' where ids: "commit_id cm = Inr sha" "map_res commit_id history = Inr shas'" "shas = sha # shas'"
    by (auto simp: res_bind_eq_Inr)
  have "probe_step (\<lambda>_. file sha) sha s = probe_step file sha s" by (simp add: probe_step_def)
  then show ?case
    using Cons.IH [OF Cons.prems(1) ids(2)] Cons.prems(1) ids
    by (simp add: run_bind res_bind_def split: sum.split)
qed (simp add: pure_def)


text \<open>A repository whose file is missing at one commit in between.\<close>

definition gap_heads :: "string \<Rightarrow> int \<times> (string, string) pydict" where
  "gap_heads u =
    (if u = resolve_url ''hub'' ''o/m'' ''c3'' ''w'' then (200, [(''X-Xet-Hash'', ''h2'')])
     else if u = resolve_url ''hub'' ''o/m'' ''c1'' ''w'' then (200, [(''X-Xet-Hash'', ''h1'')]) else (404, []))"

definition gap_contents :: "string \<Rightarrow> int \<times> string" where
  "gap_contents u = (if u = resolve_url ''hub'' ''o/m'' ''c2'' ''w'' then (404, ''Not Found'') else (200, ''bytes''))"

definition gap_hub :: "unit hub_tools" where
  "gap_hub = \<lparr>page_of_commits = (\<lambda>u p h. pure (JArr [])), head_of = (\<lambda>u h. pure (gap_heads u)),
     content_of = (\<lambda>u h. pure (gap_contents u)), chunk_hashes = (\<lambda>s. [(length s, s)]), urandom = (\<lambda>n. pure []),
     hf_xet_hash = pure, file_hash_hex = (\<lambda>s. s)\<rparr>"

definition gap_history :: "json list" where
  "gap_history = map (\<lambda>c. JObj [(''id'', JStr c)]) [''c3'', ''c2'', ''c1'']"


text \<open>The commit without the file is a side of the pair, and \<open>fsck.py\<close>, which does not look at the status, then
  compares the page of the error.\<close>

theorem gap_page_compared:
  "fst (bind_call (probe_commits (xet_hash gap_hub [(''HF_ENDPOINT'', ''hub'')] ''o/m'' ''w'') gap_history probe_start) (\<lambda>s.
     case printed_pair ''o/m'' ''w'' s of None \<Rightarrow> throw StopIteration
     | Some (a, b) \<Rightarrow> compare_files gap_hub [(''HF_ENDPOINT'', ''hub'')] a b) ()) =
   Inr (dedup_report (chunk_hashes gap_hub ''Not Found'') (chunk_hashes gap_hub ''bytes''))"
  by code_simp

end
