(* ===== verification/Acceptance.thy ===== *)
theory Acceptance
  imports Pod_Leaks Scrape
begin

text \<open>
  \<open>shim-go/acceptance.py\<close>: the black-box acceptance test of the shim binary. It builds and starts
  the binary, downloads through it and directly, looks at its cache and metrics, restarts it on
  the same cache, and sums up its steps. Processes, HTTP, files and the clock are parameters.
\<close>

section \<open>The machine\<close>

text \<open>\<open>poll_proc\<close>, \<open>terminate_proc\<close>, \<open>kill_proc\<close> and \<open>wait_proc\<close> are the methods of \<open>Popen\<close>, which do not raise
  but for the \<open>TimeoutExpired\<close> of \<open>wait\<close>, here \<open>False\<close>. \<open>shim_health\<close> is \<open>None\<close> for the exceptions that
  \<open>start_shim\<close> catches. \<open>dir_entries\<close> is \<open>None\<close> where there is no directory; the flag says that an entry
  is a file. \<open>hash_start\<close>, \<open>hash_update\<close> and \<open>hash_hex\<close> are those of \<open>hashlib.sha256\<close>.\<close>

record ('e, 'h) machine =
  go_build :: "('e, unit) io"
  popen :: "environment \<Rightarrow> ('e, nat) io"
  poll_proc :: "nat \<Rightarrow> 'e \<Rightarrow> int option \<times> 'e"
  read_stdout :: "nat \<Rightarrow> ('e, string) io"
  terminate_proc :: "nat \<Rightarrow> 'e \<Rightarrow> 'e"
  kill_proc :: "nat \<Rightarrow> 'e \<Rightarrow> 'e"
  wait_proc :: "nat \<Rightarrow> 'e \<Rightarrow> bool \<times> 'e"
  shim_health :: "('e, int option) io"
  shim_metrics :: "('e, (string, int) pydict) io"
  hf_process :: "environment \<Rightarrow> ('e, int \<times> string \<times> string) io"
  read_file :: "string \<Rightarrow> ('e, string) io"
  file_size :: "string \<Rightarrow> ('e, int) io"
  dir_entries :: "string \<Rightarrow> ('e, (string \<times> bool) list option) io"
  hash_start :: 'h
  hash_update :: "'h \<Rightarrow> string \<Rightarrow> 'h"
  hash_hex :: "'h \<Rightarrow> string"
  machine_clock :: "'e \<Rightarrow> rat"
  nap_for :: "rat \<Rightarrow> 'e \<Rightarrow> 'e"

definition SHIM_BASE :: string where
  "SHIM_BASE = ''http://127.0.0.1:8000''"

definition shim_env :: "environment \<Rightarrow> string \<Rightarrow> environment" where
  "shim_env environ cache_dir = dict_update environ
    [(''CACHE_DIR'', cache_dir), (''PUBLIC_BASE'', SHIM_BASE), (''PORT'', ''8000''), (''XORB_CACHE_MAX_GIB'', ''0''),
     (''SHIM_AUTH_TOKEN'', ''acceptance-secret'')]"

text \<open>20 seconds in steps of a fifth.\<close>

definition SHIM_POLLS :: nat where
  "SHIM_POLLS = 102"

definition exited_early :: "int \<Rightarrow> string \<Rightarrow> pyerr" where
  "exited_early code out = RuntimeError (''shim exited early (code='' @ str_int code @ ''):'' @ [CHR 0x0A] @ out)"

text \<open>The loop of \<open>start_shim\<close>: whether the shim became healthy before the deadline.\<close>

fun await_shim :: "('e, 'h) machine \<Rightarrow> nat \<Rightarrow> rat \<Rightarrow> nat \<Rightarrow> ('e, bool) io" where
  "await_shim k p deadline 0 = throw OutOfFuel"
| "await_shim k p deadline (Suc n) =
    bind_call (look (machine_clock k)) (\<lambda>t.
      if t < deadline
      then bind_call (\<lambda>w. case poll_proc k p w of (c, w') \<Rightarrow> (Inr c, w')) (\<lambda>c. case c of
             Some code \<Rightarrow> bind_call (read_stdout k p) (\<lambda>out. throw (exited_early code out))
           | None \<Rightarrow> bind_call (shim_health k) (\<lambda>status.
                if status = Some 200 then pure True
                else then_call (change (nap_for k (1 / 5))) (await_shim k p deadline n)))
      else pure False)"

definition stop_shim :: "('e, 'h) machine \<Rightarrow> nat option \<Rightarrow> ('e, unit) io" where
  "stop_shim k proc = (\<lambda>w. case proc of None \<Rightarrow> (Inr (), w)
     | Some p \<Rightarrow>
        (case poll_proc k p w of
           (Some code, w1) \<Rightarrow> (Inr (), w1)
         | (None, w1) \<Rightarrow>
            (case wait_proc k p (terminate_proc k p w1) of
               (True, w2) \<Rightarrow> (Inr (), w2)
             | (False, w2) \<Rightarrow>
                (case wait_proc k p (kill_proc k p w2) of
                   (True, w3) \<Rightarrow> (Inr (), w3)
                 | (False, w3) \<Rightarrow> (Inl (OtherError ''timed out after 5 seconds''), w3)))))"

definition start_shim :: "('e, 'h) machine \<Rightarrow> environment \<Rightarrow> string \<Rightarrow> ('e, nat) io" where
  "start_shim k environ cache_dir =
    bind_call (popen k (shim_env environ cache_dir)) (\<lambda>p.
    bind_call (look (machine_clock k)) (\<lambda>t0.
    bind_call (await_shim k p (t0 + 20) SHIM_POLLS) (\<lambda>healthy.
      if healthy then pure p
      else then_call (stop_shim k (Some p)) (throw (RuntimeError ''shim did not become healthy within 20s'')))))"

text \<open>\<open>iter(lambda: f.read(1 << 20), b"")\<close>.\<close>

function chunks_of :: "nat \<Rightarrow> string \<Rightarrow> string list" where
  "chunks_of n s = (if s = [] \<or> n = 0 then [] else take n s # chunks_of n (drop n s))"
  by pat_completeness auto
termination by (relation "measure (\<lambda>(n, s). length s)") auto

declare chunks_of.simps [simp del]

definition sha256_of :: "('e, 'h) machine \<Rightarrow> string \<Rightarrow> ('e, string) io" where
  "sha256_of k path = bind_call (read_file k path) (\<lambda>body.
     pure (hash_hex k (fold (\<lambda>chunk h. hash_update k h chunk) (chunks_of (2 ^ 20) body) (hash_start k))))"

text \<open>\<open>download\<close>: the environment of the subprocess and the path that it prints.\<close>

definition download_env :: "environment \<Rightarrow> string option \<Rightarrow> string \<Rightarrow> environment" where
  "download_env environ endpoint cache_root =
    (let env = dict_update environ
       [(''HF_HOME'', cache_root @ ''/home''), (''HF_XET_CACHE'', cache_root @ ''/xet''), (''HF_HUB_DISABLE_XET'', ''0'')]
     in case endpoint of
          Some e \<Rightarrow> if e \<noteq> [] then AList.update ''HF_ENDPOINT'' e env else AList.delete ''HF_ENDPOINT'' env
        | None \<Rightarrow> AList.delete ''HF_ENDPOINT'' env)"

definition client_download :: "('e, 'h) machine \<Rightarrow> environment \<Rightarrow> string option \<Rightarrow> string \<Rightarrow> ('e, string) io" where
  "client_download k environ endpoint cache_root =
    bind_call (hf_process k (download_env environ endpoint cache_root)) (\<lambda>(code, out, err).
      if code \<noteq> 0
      then throw (RuntimeError (''download subprocess failed (endpoint='' @ (case endpoint of None \<Rightarrow> ''None'' | Some e \<Rightarrow> e) @
             ''):'' @ [CHR 0x0A] @ ''stdout:'' @ [CHR 0x0A] @ out @ [CHR 0x0A] @ ''stderr:'' @ [CHR 0x0A] @ err))
      else case split_lines (strip_text out) of
             [] \<Rightarrow> throw IndexError
           | ls \<Rightarrow> pure (last ls))"

definition cached_xorb_files :: "('e, 'h) machine \<Rightarrow> string \<Rightarrow> ('e, string list) io" where
  "cached_xorb_files k dir = bind_call (dir_entries k dir) (\<lambda>entries.
     pure (case entries of None \<Rightarrow> [] | Some es \<Rightarrow> map fst (filter snd es)))"

section \<open>The test\<close>

datatype finding = Text string | Count nat | Bytes int | Counters "(string, int) pydict"

text \<open>The steps with their status (\<open>True\<close> is \<open>PASS\<close>) and detail, the process, the results.\<close>

record 'e trial =
  trial_steps :: "(string \<times> bool \<times> string) list"
  trial_proc :: "nat option"
  trial_results :: "(string, finding) pydict"
  trial_world :: 'e

definition act :: "('e, 'a) io \<Rightarrow> ('e trial, 'a) io" where
  "act m = (\<lambda>s. case m (trial_world s) of (r, w) \<Rightarrow> (r, s\<lparr>trial_world := w\<rparr>))"

definition begin_step :: "string \<Rightarrow> ('e trial, unit) io" where
  "begin_step name = change (\<lambda>s. s\<lparr>trial_steps := trial_steps s @ [(name, True, [])]\<rparr>)"

text \<open>\<open>Step.fail\<close> of the current step, which is the last one.\<close>

definition fail_step :: "string \<Rightarrow> string \<Rightarrow> ('e trial, unit) io" where
  "fail_step name detail =
    then_call (change (\<lambda>s. s\<lparr>trial_steps := butlast (trial_steps s) @ [(name, False, detail)]\<rparr>))
      (throw (AssertionError (name @ '': '' @ detail)))"

definition result :: "string \<Rightarrow> finding \<Rightarrow> ('e trial, unit) io" where
  "result key v = change (\<lambda>s. s\<lparr>trial_results := AList.update key v (trial_results s)\<rparr>)"

definition set_proc :: "nat option \<Rightarrow> ('e trial, unit) io" where
  "set_proc p = change (\<lambda>s. s\<lparr>trial_proc := p\<rparr>)"

definition stage_start :: "('e, 'h) machine \<Rightarrow> environment \<Rightarrow> string \<Rightarrow> ('e trial, unit) io" where
  "stage_start k environ tmp =
    then_call (act (go_build k))
   (then_call (begin_step ''start shim + healthz'')
   (bind_call (act (start_shim k environ (tmp @ ''/gocache''))) (\<lambda>p. then_call (set_proc (Some p)) (pure ()))))"

definition stage_through :: "('e, 'h) machine \<Rightarrow> environment \<Rightarrow> string \<Rightarrow> ('e trial, string) io" where
  "stage_through k environ tmp =
    then_call (begin_step ''download through shim'')
   (bind_call (act (client_download k environ (Some SHIM_BASE) (tmp @ ''/client-a''))) (\<lambda>path.
    bind_call (act (sha256_of k path)) (\<lambda>sha.
    bind_call (act (file_size k path)) (\<lambda>bytes.
    then_call (result ''via_shim_sha256'' (Text sha))
   (then_call (result ''via_shim_size'' (Bytes bytes)) (pure sha))))))"

definition stage_cached :: "('e, 'h) machine \<Rightarrow> string \<Rightarrow> ('e trial, unit) io" where
  "stage_cached k tmp =
    (let name = ''Go xorb cache populated''; dir = tmp @ ''/gocache''
     in then_call (begin_step name)
       (bind_call (act (cached_xorb_files k dir)) (\<lambda>cached.
        then_call (if cached = [] then fail_step name (''no xorb files found under '' @ dir @ '' (excl. manifests)'') else pure ())
          (result ''cache_files_after_first_download'' (Count (length cached))))))"

definition stage_direct :: "('e, 'h) machine \<Rightarrow> environment \<Rightarrow> string \<Rightarrow> string \<Rightarrow> ('e trial, unit) io" where
  "stage_direct k environ tmp via_shim_sha =
    (let name = ''direct download byte-identical to via-shim''
     in then_call (begin_step name)
       (bind_call (act (client_download k environ None (tmp @ ''/client-b''))) (\<lambda>direct.
        bind_call (act (sha256_of k direct)) (\<lambda>direct_sha.
        then_call (result ''direct_sha256'' (Text direct_sha))
          (if via_shim_sha \<noteq> direct_sha
           then fail_step name (''sha256 mismatch: via_shim='' @ via_shim_sha @ '' direct='' @ direct_sha)
           else pure ())))))"

definition stage_metrics :: "('e, 'h) machine \<Rightarrow> environment \<Rightarrow> string \<Rightarrow> ('e trial, unit) io" where
  "stage_metrics k environ tmp =
    (let name = ''metrics show hits + wan_bytes_saved after 2nd through-shim download''
     in then_call (begin_step name)
       (bind_call (act (shim_metrics k)) (\<lambda>before.
        bind_call (act (client_download k environ (Some SHIM_BASE) (tmp @ ''/client-c''))) (\<lambda>path.
        bind_call (act (shim_metrics k)) (\<lambda>after.
        then_call (result ''metrics_before_2nd'' (Counters before))
       (then_call (result ''metrics_after_2nd'' (Counters after))
         (let hits_before = dict_get ''hits'' 0 before; hits_after = dict_get ''hits'' 0 after;
              wan_saved_after = dict_get ''wan_bytes_saved'' 0 after
          in then_call
              (if \<not> hits_before < hits_after
               then fail_step name (''hits did not increase: before='' @ str_int hits_before @ '' after='' @ str_int hits_after)
               else pure ())
              (if \<not> 0 < wan_saved_after
               then fail_step name (''wan_bytes_saved not positive: '' @ str_int wan_saved_after)
               else pure ()))))))))"

definition stage_restart :: "('e, 'h) machine \<Rightarrow> environment \<Rightarrow> string \<Rightarrow> ('e trial, unit) io" where
  "stage_restart k environ tmp =
    (let name = ''restart reuse: on-disk cache survives restart, LRU reseeded''
     in then_call (begin_step name)
       (bind_call (look trial_proc) (\<lambda>proc.
        then_call (act (stop_shim k proc))
       (then_call (set_proc None)
       (bind_call (act (start_shim k environ (tmp @ ''/gocache''))) (\<lambda>p.
        then_call (set_proc (Some p))
       (bind_call (act (shim_metrics k)) (\<lambda>baseline.
        bind_call (act (client_download k environ (Some SHIM_BASE) (tmp @ ''/client-d''))) (\<lambda>path.
        bind_call (act (shim_metrics k)) (\<lambda>after.
        then_call (result ''metrics_after_restart'' (Counters after))
         (let restart_hits = dict_get ''hits'' 0 after; baseline_hits = dict_get ''hits'' 0 baseline
          in if \<not> baseline_hits < restart_hits
             then fail_step name (''no hits after restart: cache was not reused (baseline='' @ str_int baseline_hits @
                    '' after='' @ str_int restart_hits @ '')'')
             else pure ())))))))))))"

definition acceptance_body :: "('e, 'h) machine \<Rightarrow> environment \<Rightarrow> string \<Rightarrow> ('e trial, unit) io" where
  "acceptance_body k environ tmp =
    then_call (stage_start k environ tmp)
   (bind_call (stage_through k environ tmp) (\<lambda>via_shim_sha.
    then_call (stage_cached k tmp)
   (then_call (stage_direct k environ tmp via_shim_sha)
   (then_call (stage_metrics k environ tmp)
      (stage_restart k environ tmp)))))"

definition step_line :: "string \<times> bool \<times> string \<Rightarrow> string" where
  "step_line st = (case st of (name, ok, detail) \<Rightarrow>
     ''['' @ (if ok then ''PASS'' else ''FAIL'') @ ''] '' @ name @ (if detail \<noteq> [] then '' -- '' @ detail else []))"

definition passed :: "string \<times> bool \<times> string \<Rightarrow> bool" where
  "passed st = fst (snd st)"

definition overall :: "(string \<times> bool \<times> string) list \<Rightarrow> bool" where
  "overall steps \<longleftrightarrow> list_all passed steps \<and> steps \<noteq> []"

definition summary_of :: "(string \<times> bool \<times> string) list \<Rightarrow> nat \<times> string list" where
  "summary_of steps = (if overall steps then 0 else 1, map step_line steps)"

definition is_assertion :: "pyerr \<Rightarrow> bool" where
  "is_assertion e = (case e of AssertionError msg \<Rightarrow> True | _ \<Rightarrow> False)"

text \<open>The \<open>finally\<close> stops the process that \<open>proc\<close> names; its exception replaces that of the body, and an
  \<open>AssertionError\<close> of the body ends at the summary.\<close>

definition acceptance_main :: "('e, 'h) machine \<Rightarrow> environment \<Rightarrow> string \<Rightarrow> 'e \<Rightarrow> (nat \<times> string list) res \<times> 'e trial" where
  "acceptance_main k environ tmp w =
    (let (r, s) = acceptance_body k environ tmp \<lparr>trial_steps = [], trial_proc = None, trial_results = [], trial_world = w\<rparr>;
         (q, s') = act (stop_shim k (trial_proc s)) s
     in case q of
          Inl e \<Rightarrow> (Inl e, s')
        | Inr _ \<Rightarrow> (case r of
              Inl e \<Rightarrow> if is_assertion e then (Inr (summary_of (trial_steps s')), s') else (Inl e, s')
            | Inr _ \<Rightarrow> (Inr (summary_of (trial_steps s')), s')))"

lemma is_assertion_iff: "is_assertion e \<longleftrightarrow> (\<exists>msg. e = AssertionError msg)"
  by (cases e) (simp_all add: is_assertion_def)

section \<open>What a pass has shown\<close>

lemma run_act: "act m s = (fst (m (trial_world s)), s\<lparr>trial_world := snd (m (trial_world s))\<rparr>)"
  by (simp add: act_def split: prod.split)

lemma act_Inr:
  assumes "act m s = (Inr x, s')"
  obtains w where "s' = s\<lparr>trial_world := w\<rparr>" and "m (trial_world s) = (Inr x, w)"
  using assms by (cases "m (trial_world s)") (auto simp: run_act)

lemma run_result: "result key v s = (Inr (), s\<lparr>trial_results := AList.update key v (trial_results s)\<rparr>)"
  and run_begin: "begin_step name s = (Inr (), s\<lparr>trial_steps := trial_steps s @ [(name, True, [])]\<rparr>)"
  and run_set_proc: "set_proc p s = (Inr (), s\<lparr>trial_proc := p\<rparr>)"
  and run_fail: "fst (fail_step name detail s) = Inl (AssertionError (name @ '': '' @ detail))"
  by (simp_all add: result_def begin_step_def set_proc_def fail_step_def run_then)

lemma guard_Inr:
  "(if b then fail_step name detail else pure ()) s = (Inr (), s') \<longleftrightarrow> \<not> b \<and> s' = s"
  using run_fail [of name detail s] by (cases "fail_step name detail s") auto

lemmas trial_runs = run_result run_begin run_set_proc guard_Inr

text \<open>What each stage that returns adds to the trial.\<close>

definition adds :: "string \<Rightarrow> (string, finding) pydict \<Rightarrow> 'e trial \<Rightarrow> 'e trial \<Rightarrow> bool" where
  "adds name found s s' \<longleftrightarrow> map fst (trial_steps s') = map fst (trial_steps s) @ [name] \<and>
    trial_results s' = dict_update (trial_results s) found"

lemma stage_start_adds: "stage_start k environ tmp s = (Inr (), s') \<Longrightarrow> adds ''start shim + healthz'' [] s s'"
  unfolding stage_start_def by (auto elim!: bind_Inr then_Inr act_Inr simp: trial_runs adds_def)

lemma stage_through_adds:
  assumes "stage_through k environ tmp s = (Inr sha, s')"
  shows "\<exists>b. adds ''download through shim'' [(''via_shim_sha256'', Text sha), (''via_shim_size'', Bytes b)] s s'"
  using assms unfolding stage_through_def
  by (auto elim!: bind_Inr then_Inr act_Inr simp: trial_runs adds_def) blast

lemma stage_cached_adds:
  assumes "stage_cached k tmp s = (Inr (), s')"
  shows "\<exists>n. 0 < n \<and> adds ''Go xorb cache populated'' [(''cache_files_after_first_download'', Count n)] s s'"
  using assms unfolding stage_cached_def Let_def
  by (auto elim!: bind_Inr then_Inr act_Inr simp: trial_runs adds_def) (metis length_greater_0_conv)

lemma stage_direct_adds:
  assumes "stage_direct k environ tmp sha s = (Inr (), s')"
  shows "adds ''direct download byte-identical to via-shim'' [(''direct_sha256'', Text sha)] s s'"
  using assms unfolding stage_direct_def Let_def
  by (auto elim!: bind_Inr then_Inr act_Inr simp: trial_runs adds_def)

definition grew :: "(string, int) pydict \<Rightarrow> (string, int) pydict \<Rightarrow> bool" where
  "grew before after \<longleftrightarrow> dict_get ''hits'' 0 before < dict_get ''hits'' 0 after"

lemma stage_metrics_adds:
  assumes "stage_metrics k environ tmp s = (Inr (), s')"
  shows "\<exists>before after. grew before after \<and> 0 < dict_get ''wan_bytes_saved'' 0 after \<and>
    adds ''metrics show hits + wan_bytes_saved after 2nd through-shim download''
      [(''metrics_before_2nd'', Counters before), (''metrics_after_2nd'', Counters after)] s s'"
  using assms unfolding stage_metrics_def Let_def
  by (auto elim!: bind_Inr then_Inr act_Inr simp: trial_runs adds_def grew_def) blast

lemma stage_restart_adds:
  assumes "stage_restart k environ tmp s = (Inr (), s')"
  shows "\<exists>baseline after. grew baseline after \<and>
    adds ''restart reuse: on-disk cache survives restart, LRU reseeded'' [(''metrics_after_restart'', Counters after)] s s'"
  using assms unfolding stage_restart_def Let_def
  by (auto elim!: bind_Inr then_Inr act_Inr simp: trial_runs adds_def grew_def) blast

section \<open>Exceptions that do not occur\<close>

lemma avoids_act [avoids_rules]: "avoids X m \<Longrightarrow> avoids X (act m)"
  by (simp add: avoids_def run_act)

definition machine_avoids :: "pyerr set \<Rightarrow> ('e, 'h) machine \<Rightarrow> bool" where
  "machine_avoids X k \<longleftrightarrow> avoids X (go_build k) \<and> (\<forall>env. avoids X (popen k env)) \<and> (\<forall>p. avoids X (read_stdout k p)) \<and>
    avoids X (shim_health k) \<and> avoids X (shim_metrics k) \<and> (\<forall>env. avoids X (hf_process k env)) \<and>
    (\<forall>f. avoids X (read_file k f)) \<and> (\<forall>f. avoids X (file_size k f)) \<and> (\<forall>d. avoids X (dir_entries k d))"

text \<open>The exceptions that the test's own code raises.\<close>

definition own_errors :: "pyerr set" where
  "own_errors = range RuntimeError \<union> {IndexError, OtherError ''timed out after 5 seconds''}"

lemma avoids_stop: "X \<inter> own_errors = {} \<Longrightarrow> avoids X (stop_shim k proc)"
  by (auto simp: avoids_def stop_shim_def own_errors_def split: option.splits prod.splits bool.splits)

lemma avoids_own:
  assumes "X \<inter> own_errors = {}"
  shows "avoids X (throw (RuntimeError t))" "avoids X (throw IndexError)"
  using assms by (auto intro!: avoids_calls simp: own_errors_def)

lemma avoids_machine:
  assumes "machine_avoids X k"
  shows "avoids X (go_build k)" "avoids X (popen k env)" "avoids X (read_stdout k p)" "avoids X (shim_health k)"
    "avoids X (shim_metrics k)" "avoids X (hf_process k env)" "avoids X (read_file k f)" "avoids X (file_size k f)"
    "avoids X (dir_entries k d)"
  using assms by (simp_all add: machine_avoids_def)

lemma avoids_helpers:
  assumes "machine_avoids X k" and "X \<inter> own_errors = {}"
  shows "avoids X (sha256_of k path)" "avoids X (client_download k environ endpoint cache)" "avoids X (cached_xorb_files k dir)"
proof -
  note here = avoids_rules avoids_own [OF assms(2)] avoids_machine [OF assms(1)]
  show "avoids X (sha256_of k path)" "avoids X (cached_xorb_files k dir)"
    unfolding sha256_of_def cached_xorb_files_def by (intro here)+
  show "avoids X (client_download k environ endpoint cache)"
    unfolding client_download_def by (intro here) (auto intro!: here split: list.split)
qed

text \<open>Waiting for the shim runs out of fuel only where the clock does not move on.\<close>

definition machine_steady :: "('e, 'h) machine \<Rightarrow> bool" where
  "machine_steady k \<longleftrightarrow> (\<forall>p w. machine_clock k w \<le> machine_clock k (snd (poll_proc k p w))) \<and>
    (\<forall>w. machine_clock k w \<le> machine_clock k (snd (shim_health k w))) \<and>
    (\<forall>w. machine_clock k w + 1 / 5 \<le> machine_clock k (nap_for k (1 / 5) w))"

lemma await_avoids:
  assumes "machine_avoids X k" and "X \<inter> own_errors = {}" and "machine_steady k"
    and "deadline - machine_clock k w < of_nat n * (1 / 5)" and "fst (await_shim k p deadline (Suc n) w) = Inl e"
  shows "e \<notin> X"
  using assms(4,5)
proof (induction n arbitrary: w)
  case 0
  then show ?case by (simp add: run_look_bind)
next
  case (Suc n)
  show ?case
  proof (cases "machine_clock k w < deadline")
    case False
    then show ?thesis using Suc.prems(2) by (subst (asm) await_shim.simps) (simp add: run_look_bind del: await_shim.simps)
  next
    case True
    obtain c w1 where c: "poll_proc k p w = (c, w1)" by force
    have run: "fst (case c of
             Some code \<Rightarrow> bind_call (read_stdout k p) (\<lambda>out. throw (exited_early code out)) w1
           | None \<Rightarrow> bind_call (shim_health k) (\<lambda>status.
                if status = Some 200 then pure True
                else then_call (change (nap_for k (1 / 5))) (await_shim k p deadline (Suc n))) w1) = Inl e"
      using Suc.prems(2) True c
      by (subst (asm) await_shim.simps) (cases c; simp add: run_look_bind run_bind [of "\<lambda>w. case poll_proc k p w of (c, w') \<Rightarrow> (Inr c, w')"] del: await_shim.simps)
    show ?thesis
    proof (cases c)
      case (Some code)
      show ?thesis
      proof (rule avoidsD)
        show "fst (bind_call (read_stdout k p) (\<lambda>out. throw (exited_early code out) :: ('a, bool) io) w1) = Inl e"
          using run Some by simp
      qed (unfold exited_early_def, intro avoids_bind avoids_machine [OF assms(1)] avoids_own [OF assms(2)])
    next
      case None
      obtain h w2 where h: "shim_health k w1 = (h, w2)" by force
      have clock: "machine_clock k w \<le> machine_clock k w1" "machine_clock k w1 \<le> machine_clock k w2"
        "machine_clock k w2 + 1 / 5 \<le> machine_clock k (nap_for k (1 / 5) w2)"
        using assms(3) c h unfolding machine_steady_def by (metis snd_conv)+
      have "deadline - machine_clock k (nap_for k (1 / 5) w2) < of_nat n * (1 / 5)"
        using Suc.prems(1) clock by (simp add: algebra_simps)
      from Suc.IH [OF this] show ?thesis
        using run None h avoids_machine(4) [OF assms(1)]
        by (cases h) (auto simp: run_bind run_then avoids_def split: if_splits simp del: await_shim.simps, metis fst_conv)
    qed
  qed
qed

lemma avoids_start:
  assumes "machine_avoids X k" and "X \<inter> own_errors = {}" and "machine_steady k"
  shows "avoids X (start_shim k environ dir)"
proof -
  have later: "avoids X (bind_call (look (machine_clock k)) (\<lambda>t0. bind_call (await_shim k p (t0 + 20) SHIM_POLLS) (f p)))"
    if f: "\<And>h. avoids X (f p h)" for p and f :: "nat \<Rightarrow> bool \<Rightarrow> ('a, nat) io"
    unfolding avoids_def run_look_bind
  proof (intro allI impI)
    fix w e
    assume e: "fst (bind_call (await_shim k p (machine_clock k w + 20) SHIM_POLLS) (f p) w) = Inl e"
    have polls: "SHIM_POLLS = Suc 101" by (simp add: SHIM_POLLS_def)
    obtain r w1 where r: "await_shim k p (machine_clock k w + 20) (Suc 101) w = (r, w1)" by force
    show "e \<notin> X"
    proof (cases r)
      case (Inl e')
      then have "e' = e" using e r by (simp add: run_bind polls del: await_shim.simps)
      then show ?thesis
        using Inl r by (intro await_avoids [OF assms, of "machine_clock k w + 20" w 101 p]) simp_all
    next
      case (Inr h)
      then show ?thesis using e r f [of h] by (simp add: run_bind polls avoids_def del: await_shim.simps)
    qed
  qed
  show ?thesis
    unfolding start_shim_def
    by (rule avoids_bind [OF avoids_machine(2) [OF assms(1)]], rule later)
      (intro avoids_rules avoids_own [OF assms(2)] avoids_stop [OF assms(2)])
qed

lemma avoids_fail: "X \<inter> range AssertionError = {} \<Longrightarrow> avoids X (if b then fail_step name detail else pure ())"
  by (cases b) (auto simp: avoids_def fail_step_def run_then)

lemma avoids_trial [avoids_rules]: "avoids X (begin_step name)" "avoids X (result key v)" "avoids X (set_proc p)"
  by (simp_all add: begin_step_def result_def set_proc_def avoids_calls)

lemma body_avoids:
  assumes "machine_avoids X k" and "machine_steady k" and "X \<inter> own_errors = {}" and "X \<inter> range AssertionError = {}"
  shows "avoids X (acceptance_body k environ tmp)"
  unfolding acceptance_body_def stage_start_def stage_through_def stage_cached_def stage_direct_def stage_metrics_def
    stage_restart_def Let_def
  by (intro avoids_fail [OF assms(4)] avoids_rules avoids_machine [OF assms(1)] avoids_helpers [OF assms(1,3)]
      avoids_start [OF assms(1,3,2)] avoids_stop [OF assms(3)])

text \<open>The acceptance test comes to its end, whatever the machine does: the waits for the shim are over within 20 seconds.\<close>

theorem acceptance_main_returns:
  assumes "machine_avoids {OutOfFuel} k" and "machine_steady k"
  shows "fst (acceptance_main k environ tmp w) \<noteq> Inl OutOfFuel"
proof -
  have own: "{OutOfFuel} \<inter> own_errors = {}" by (auto simp: own_errors_def)
  let ?s = "\<lparr>trial_steps = [], trial_proc = None, trial_results = [], trial_world = w\<rparr>"
  obtain r s where r: "acceptance_body k environ tmp ?s = (r, s)" by force
  obtain q s' where q: "act (stop_shim k (trial_proc s)) s = (q, s')" by force
  have "avoids {OutOfFuel} (acceptance_body k environ tmp)" by (rule body_avoids [OF assms own]) auto
  then have "r \<noteq> Inl OutOfFuel" using avoids_fst [of OutOfFuel "acceptance_body k environ tmp" ?s] r by simp
  moreover have "q \<noteq> Inl OutOfFuel"
    using avoids_fst [OF avoids_act [OF avoids_stop [OF own]], of k "trial_proc s" s] q by simp
  ultimately show ?thesis
    using r q by (auto simp: acceptance_main_def split: sum.split)
qed

section \<open>A failed check is in the summary\<close>

definition honest :: "('e trial, 'a) io \<Rightarrow> bool" where
  "honest m \<longleftrightarrow> (\<forall>s msg s'. m s = (Inl (AssertionError msg), s') \<longrightarrow> \<not> list_all passed (trial_steps s'))"

named_theorems honest_rules \<open>calls after whose AssertionError a step has failed\<close>

lemma honest_avoids: "avoids (range AssertionError) m \<Longrightarrow> honest m"
  unfolding honest_def by (metis avoidsD fst_conv rangeI)

lemma honest_bind [honest_rules]: "honest m \<Longrightarrow> (\<And>x. honest (f x)) \<Longrightarrow> honest (bind_call m f)"
  by (fastforce simp: honest_def run_bind split: prod.splits sum.splits)

lemma honest_then [honest_rules]: "honest m \<Longrightarrow> honest n \<Longrightarrow> honest (then_call m n)"
  unfolding then_call_def by (intro honest_bind)

lemma honest_fail [honest_rules]: "honest (if b then fail_step name detail else pure ())"
  by (auto simp: honest_def fail_step_def run_then passed_def)

lemma own_not_assertion: "range AssertionError \<inter> own_errors = {}"
  by (auto simp: own_errors_def)

lemma body_honest:
  assumes "machine_avoids (range AssertionError) k" and "machine_steady k"
  shows "honest (acceptance_body k environ tmp)"
  unfolding acceptance_body_def stage_start_def stage_through_def stage_cached_def stage_direct_def stage_metrics_def
    stage_restart_def Let_def
  by (intro honest_rules; rule honest_avoids;
      intro avoids_rules avoids_machine [OF assms(1)] avoids_helpers [OF assms(1) own_not_assertion]
        avoids_start [OF assms(1) own_not_assertion assms(2)] avoids_stop [OF own_not_assertion])

lemma main_Inr:
  assumes "acceptance_main k environ tmp w = (Inr (code, ls), s')"
  obtains r s where "acceptance_body k environ tmp \<lparr>trial_steps = [], trial_proc = None, trial_results = [], trial_world = w\<rparr> = (r, s)"
    and "r = Inr () \<or> (\<exists>msg. r = Inl (AssertionError msg))"
    and "trial_steps s' = trial_steps s" and "trial_results s' = trial_results s"
    and "code = (if overall (trial_steps s') then 0 else 1)" and "ls = map step_line (trial_steps s')"
proof -
  let ?s = "\<lparr>trial_steps = [], trial_proc = None, trial_results = [], trial_world = w\<rparr>"
  obtain r s where r: "acceptance_body k environ tmp ?s = (r, s)" by force
  obtain q s2 where q: "act (stop_shim k (trial_proc s)) s = (q, s2)" by force
  have s2: "trial_steps s2 = trial_steps s" "trial_results s2 = trial_results s"
    using q by (auto simp: run_act)
  have s': "s' = s2" using assms r q by (auto simp: acceptance_main_def summary_of_def is_assertion_iff split: sum.splits if_splits)
  show thesis
  proof (rule that [OF r])
    show "r = Inr () \<or> (\<exists>msg. r = Inl (AssertionError msg))"
      using assms r q by (auto simp: acceptance_main_def summary_of_def is_assertion_iff split: sum.splits if_splits)
    show "code = (if overall (trial_steps s') then 0 else 1)" "ls = map step_line (trial_steps s')"
      using assms r q by (auto simp: acceptance_main_def summary_of_def is_assertion_iff split: sum.splits if_splits)
  qed (use s2 s' in simp_all)
qed

definition ACCEPTANCE_STEPS :: "string list" where
  "ACCEPTANCE_STEPS =
    [''start shim + healthz'', ''download through shim'', ''Go xorb cache populated'',
     ''direct download byte-identical to via-shim'', ''metrics show hits + wan_bytes_saved after 2nd through-shim download'',
     ''restart reuse: on-disk cache survives restart, LRU reseeded'']"

text \<open>The evidence in the results: the same hash through the shim and directly, a file in the cache, more hits and
  bytes saved after the second download.\<close>

definition shown :: "(string, finding) pydict \<Rightarrow> bool" where
  "shown found \<longleftrightarrow>
    (\<exists>sha. map_of found ''via_shim_sha256'' = Some (Text sha) \<and> map_of found ''direct_sha256'' = Some (Text sha)) \<and>
    (\<exists>n. map_of found ''cache_files_after_first_download'' = Some (Count n) \<and> 0 < n) \<and>
    (\<exists>before after. map_of found ''metrics_before_2nd'' = Some (Counters before) \<and>
      map_of found ''metrics_after_2nd'' = Some (Counters after) \<and> grew before after \<and>
      0 < dict_get ''wan_bytes_saved'' 0 after) \<and>
    (\<exists>baseline after. map_of found ''metrics_after_restart'' = Some (Counters after) \<and> grew baseline after)"

lemma body_shows:
  assumes "acceptance_body k environ tmp \<lparr>trial_steps = [], trial_proc = None, trial_results = [], trial_world = w\<rparr> = (Inr (), s)"
  shows "map fst (trial_steps s) = ACCEPTANCE_STEPS \<and> shown (trial_results s)"
proof -
  let ?s0 = "\<lparr>trial_steps = [], trial_proc = None, trial_results = [], trial_world = w\<rparr>"
  obtain s1 s2 s3 s4 s5 sha where start: "stage_start k environ tmp ?s0 = (Inr (), s1)"
    and through: "stage_through k environ tmp s1 = (Inr sha, s2)" and cached: "stage_cached k tmp s2 = (Inr (), s3)"
    and direct: "stage_direct k environ tmp sha s3 = (Inr (), s4)" and metrics: "stage_metrics k environ tmp s4 = (Inr (), s5)"
    and restart: "stage_restart k environ tmp s5 = (Inr (), s)"
    using assms unfolding acceptance_body_def by (auto elim!: bind_Inr then_Inr)
  obtain b where a2: "adds ''download through shim'' [(''via_shim_sha256'', Text sha), (''via_shim_size'', Bytes b)] s1 s2"
    using stage_through_adds [OF through] by auto
  obtain n where a3: "0 < n" "adds ''Go xorb cache populated'' [(''cache_files_after_first_download'', Count n)] s2 s3"
    using stage_cached_adds [OF cached] by auto
  obtain before after where a5: "grew before after" "0 < dict_get ''wan_bytes_saved'' 0 after"
    "adds ''metrics show hits + wan_bytes_saved after 2nd through-shim download''
      [(''metrics_before_2nd'', Counters before), (''metrics_after_2nd'', Counters after)] s4 s5"
    using stage_metrics_adds [OF metrics] by auto
  obtain baseline again where a6: "grew baseline again"
    "adds ''restart reuse: on-disk cache survives restart, LRU reseeded'' [(''metrics_after_restart'', Counters again)] s5 s"
    using stage_restart_adds [OF restart] by auto
  note steps = stage_start_adds [OF start] a2 a3(2) stage_direct_adds [OF direct] a5(3) a6(2)
  have "map fst (trial_steps s) = ACCEPTANCE_STEPS"
    using steps by (simp add: adds_def ACCEPTANCE_STEPS_def)
  moreover have found: "trial_results s = dict_update [] [(''via_shim_sha256'', Text sha), (''via_shim_size'', Bytes b),
      (''cache_files_after_first_download'', Count n), (''direct_sha256'', Text sha), (''metrics_before_2nd'', Counters before),
      (''metrics_after_2nd'', Counters after), (''metrics_after_restart'', Counters again)]"
    using steps by (simp add: adds_def)
  have "shown (trial_results s)"
    unfolding shown_def found using a3(1) a5(1,2) a6(1) by simp blast
  ultimately show ?thesis by simp
qed


section \<open>No process is left\<close>

text \<open>What is relied on of processes: those that run are the ones that were started and that neither \<open>poll\<close> nor \<open>wait\<close> has seen
  end; nothing else starts any. The health request raises only what \<open>start_shim\<close> catches.\<close>

definition machine_tracked :: "('e, 'h) machine \<Rightarrow> ('e \<Rightarrow> nat set) \<Rightarrow> bool" where
  "machine_tracked k running \<longleftrightarrow>
    (\<forall>env w. case popen k env w of (Inr p, w') \<Rightarrow> running w' \<subseteq> insert p (running w) | (Inl e, w') \<Rightarrow> running w' \<subseteq> running w) \<and>
    (\<forall>p w. case poll_proc k p w of (c, w') \<Rightarrow> running w' \<subseteq> running w - (if c = None then {} else {p})) \<and>
    (\<forall>p w. case wait_proc k p w of (done, w') \<Rightarrow> running w' \<subseteq> running w - (if done then {p} else {})) \<and>
    (\<forall>p w. running (terminate_proc k p w) \<subseteq> running w) \<and> (\<forall>p w. running (kill_proc k p w) \<subseteq> running w) \<and>
    (\<forall>t w. running (nap_for k t w) \<subseteq> running w) \<and>
    (\<forall>w. \<not> isl (fst (shim_health k w)) \<and> running (snd (shim_health k w)) \<subseteq> running w) \<and>
    (\<forall>w. running (snd (go_build k w)) \<subseteq> running w) \<and> (\<forall>p w. running (snd (read_stdout k p w)) \<subseteq> running w) \<and>
    (\<forall>w. running (snd (shim_metrics k w)) \<subseteq> running w) \<and> (\<forall>env w. running (snd (hf_process k env w)) \<subseteq> running w) \<and>
    (\<forall>f w. running (snd (read_file k f w)) \<subseteq> running w) \<and> (\<forall>f w. running (snd (file_size k f w)) \<subseteq> running w) \<and>
    (\<forall>d w. running (snd (dir_entries k d w)) \<subseteq> running w)"

text \<open>Those that a \<open>kill\<close> does not end within five seconds.\<close>

definition unkillable :: "('e, 'h) machine \<Rightarrow> nat set" where
  "unkillable k = {p. \<exists>w. \<not> fst (wait_proc k p (kill_proc k p w))}"

lemma stop_tracked:
  assumes "machine_tracked k running"
  shows "running (snd (stop_shim k (Some p) w)) \<subseteq> running w - ({p} - unkillable k)"
proof -
  have poll: "running (snd (poll_proc k p w)) \<subseteq> running w - (if fst (poll_proc k p w) = None then {} else {p})"
    and wait: "running (snd (wait_proc k p w)) \<subseteq> running w - (if fst (wait_proc k p w) then {p} else {})"
    and signals: "running (terminate_proc k p w) \<subseteq> running w" "running (kill_proc k p w) \<subseteq> running w" for w
    using assms by (simp_all add: machine_tracked_def case_prod_beta)
  obtain c w1 where w1: "poll_proc k p w = (c, w1)" by force
  obtain d2 w2 where w2: "wait_proc k p (terminate_proc k p w1) = (d2, w2)" by force
  obtain d3 w3 where w3: "wait_proc k p (kill_proc k p w2) = (d3, w3)" by force
  have stuck: "\<not> d3 \<Longrightarrow> p \<in> unkillable k" using w3 unfolding unkillable_def by (metis (mono_tags) fst_conv mem_Collect_eq)
  have after: "running w1 \<subseteq> running w - (if c = None then {} else {p})" "running w2 \<subseteq> running w1 - (if d2 then {p} else {})"
    "running w3 \<subseteq> running w2 - (if d3 then {p} else {})"
    using poll [of w] wait [of "terminate_proc k p w1"] wait [of "kill_proc k p w2"] signals [of w1] signals [of w2] w1 w2 w3 by auto
  show ?thesis
  proof (cases c)
    case None
    then show ?thesis using after stuck w1 w2 w3
      by (cases d2; cases d3) (auto simp: stop_shim_def)
  qed (use after w1 in \<open>auto simp: stop_shim_def\<close>)
qed

lemma await_tracked:
  assumes "machine_tracked k running"
  shows "case await_shim k p deadline n w of
      (Inr h, w') \<Rightarrow> running w' \<subseteq> running w
    | (Inl e, w') \<Rightarrow> e \<noteq> OutOfFuel \<longrightarrow> running w' \<subseteq> running w - {p}"
proof (induction n arbitrary: w)
  case (Suc n)
  obtain c w1 where c: "poll_proc k p w = (c, w1)" by force
  have w1: "running w1 \<subseteq> running w - (if c = None then {} else {p})"
    using assms c unfolding machine_tracked_def by (metis (no_types, lifting) case_prod_conv)
  show ?case
  proof (cases "machine_clock k w < deadline")
    case False
    then show ?thesis by (simp add: run_look_bind)
  next
    case True
    show ?thesis
    proof (cases c)
      case (Some code)
      obtain r w2 where r: "read_stdout k p w1 = (r, w2)" by force
      have "running w2 \<subseteq> running w1" using assms r unfolding machine_tracked_def by (metis snd_conv)
      then show ?thesis using True Some c r w1
        by (cases r) (auto simp: run_look_bind run_bind)
    next
      case None
      obtain h w2 where h: "shim_health k w1 = (h, w2)" by force
      have "\<not> isl h" "running w2 \<subseteq> running w1"
        using assms h unfolding machine_tracked_def by (metis fst_conv snd_conv)+
      then obtain status where status: "h = Inr status" by (cases h) auto
      have nap: "running (nap_for k (1 / 5) w2) \<subseteq> running w2" using assms by (simp add: machine_tracked_def)
      show ?thesis
      proof (cases "status = Some 200")
        case True
        then show ?thesis using \<open>machine_clock k w < deadline\<close> None c h status w1 \<open>running w2 \<subseteq> running w1\<close>
          by (auto simp: run_look_bind run_bind)
      next
        case False
        then have "await_shim k p deadline (Suc n) w = await_shim k p deadline n (nap_for k (1 / 5) w2)"
          using True None c h status by (simp add: run_look_bind run_bind run_then)
        then show ?thesis using Suc.IH [of "nap_for k (1 / 5) w2"] nap \<open>running w2 \<subseteq> running w1\<close> w1 None
          by (fastforce split: prod.splits sum.splits)
      qed
    qed
  qed
qed simp

lemma start_tracked:
  assumes "machine_tracked k running" and "machine_steady k" and "machine_avoids {OutOfFuel} k"
  shows "case start_shim k environ dir w of
      (Inr p, w') \<Rightarrow> running w' \<subseteq> insert p (running w) | (Inl e, w') \<Rightarrow> running w' \<subseteq> running w \<union> unkillable k"
proof -
  obtain r w1 where r: "popen k (shim_env environ dir) w = (r, w1)" by force
  have popen: "case popen k (shim_env environ dir) w of (Inr p, w') \<Rightarrow> running w' \<subseteq> insert p (running w)
      | (Inl e, w') \<Rightarrow> running w' \<subseteq> running w"
    by (rule conjunct1 [OF assms(1) [unfolded machine_tracked_def], rule_format])
  show ?thesis
  proof (cases r)
    case (Inl e)
    then show ?thesis using popen r by (auto simp: start_shim_def run_bind)
  next
    case (Inr p)
    let ?deadline = "machine_clock k w1 + 20"
    obtain h w2 where h: "await_shim k p ?deadline SHIM_POLLS w1 = (h, w2)" by force
    have "h \<noteq> Inl OutOfFuel"
      using await_avoids [OF assms(3) _ assms(2), of ?deadline w1 101 p] h
      by (cases h) (auto simp: SHIM_POLLS_def own_errors_def simp del: await_shim.simps)
    then have w2: "case h of Inr b \<Rightarrow> running w2 \<subseteq> running w1 | Inl e \<Rightarrow> running w2 \<subseteq> running w1 - {p}"
      using await_tracked [OF assms(1), where p = p and deadline = ?deadline and n = SHIM_POLLS and w = w1] h by (cases h) auto
    obtain q w3 where q: "stop_shim k (Some p) w2 = (q, w3)" by force
    have w3: "running w3 \<subseteq> running w2 - ({p} - unkillable k)"
      using stop_tracked [OF assms(1), of p w2] q by simp
    have "running w1 \<subseteq> insert p (running w)" using popen r Inr by simp
    then show ?thesis
      using r Inr h w2 q w3
      by (cases h; cases q) (auto simp: start_shim_def run_bind run_then)
  qed
qed

text \<open>The processes that run are those of \<open>Y\<close> and the one that \<open>proc\<close> names.\<close>

definition held :: "('e \<Rightarrow> nat set) \<Rightarrow> nat set \<Rightarrow> 'e trial \<Rightarrow> bool" where
  "held running Y s \<longleftrightarrow> running (trial_world s) \<subseteq> Y \<union> set_option (trial_proc s)"

lemma keeps_act: "(\<And>w. running (snd (m w)) \<subseteq> running w) \<Longrightarrow> keeps (held running Y) (act m)"
  unfolding keeps_def held_def run_act by fastforce

lemma keeps_trial [keeps_intros]:
  "keeps (held running Y) (begin_step name)" "keeps (held running Y) (result key v)"
  "keeps (held running Y) (fail_step name detail)"
  by (simp_all add: keeps_def held_def begin_step_def result_def fail_step_def run_then)

lemma quiet_bind:
  assumes "\<And>w. running (snd (m w)) \<subseteq> running w" and "\<And>x w. running (snd (f x w)) \<subseteq> running w"
  shows "running (snd (bind_call m f w)) \<subseteq> running w"
proof -
  have "keeps (\<lambda>v. running v \<subseteq> running w) (bind_call m f)"
    by (rule keeps_bind) (use assms in \<open>simp_all add: keeps_def, blast+\<close>)
  then show ?thesis by (simp add: keeps_def)
qed

lemma quiet_helpers:
  assumes "machine_tracked k running"
  shows "keeps (held running Y) (act (client_download k environ endpoint cache))" "keeps (held running Y) (act (sha256_of k path))"
    "keeps (held running Y) (act (cached_xorb_files k dir))" "keeps (held running Y) (act (file_size k path))"
    "keeps (held running Y) (act (shim_metrics k))" "keeps (held running Y) (act (go_build k))"
proof -
  have calls: "running (snd (hf_process k env w)) \<subseteq> running w" "running (snd (read_file k f w)) \<subseteq> running w"
      "running (snd (dir_entries k d w)) \<subseteq> running w" "running (snd (file_size k f w)) \<subseteq> running w"
      "running (snd (shim_metrics k w)) \<subseteq> running w" "running (snd (go_build k w)) \<subseteq> running w" for env f d w
    using assms by (simp_all add: machine_tracked_def)
  show "keeps (held running Y) (act (client_download k environ endpoint cache))"
    unfolding client_download_def by (intro keeps_act quiet_bind calls) (auto split: prod.split list.split)
  show "keeps (held running Y) (act (sha256_of k path))" "keeps (held running Y) (act (cached_xorb_files k dir))"
    unfolding sha256_of_def cached_xorb_files_def by (intro keeps_act quiet_bind calls; simp)+
qed (intro keeps_act, use assms in \<open>simp add: machine_tracked_def\<close>)+

lemma start_held:
  assumes "machine_tracked k running" and "machine_steady k" and "machine_avoids {OutOfFuel} k" and "unkillable k \<subseteq> Y"
    and "held running Y s" and "trial_proc s = None" and rest: "\<And>p. keeps (held running Y) (f p)"
  shows "held running Y (snd (bind_call (act (start_shim k environ dir)) (\<lambda>p. then_call (set_proc (Some p)) (f p)) s))"
proof -
  obtain r w1 where r: "start_shim k environ dir (trial_world s) = (r, w1)" by force
  have run: "act (start_shim k environ dir) s = (r, s\<lparr>trial_world := w1\<rparr>)" using r by (simp add: run_act)
  have before: "running (trial_world s) \<subseteq> Y" using assms(5,6) by (simp add: held_def)
  show ?thesis
  proof (cases r)
    case (Inl e)
    then have "running w1 \<subseteq> Y" using start_tracked [OF assms(1-3), where environ = environ and dir = dir and w = "trial_world s"] r before assms(4) by auto
    then show ?thesis using run Inl by (auto simp: run_bind held_def)
  next
    case (Inr p)
    then have "running w1 \<subseteq> insert p Y" using start_tracked [OF assms(1-3), where environ = environ and dir = dir and w = "trial_world s"] r before by auto
    then have "held running Y (s\<lparr>trial_world := w1, trial_proc := Some p\<rparr>)" by (auto simp: held_def)
    from keepsD [OF rest [of p] this] show ?thesis using run Inr by (simp add: run_bind run_then run_set_proc)
  qed
qed

text \<open>Whatever the answer to stopping the process at hand, nothing new runs afterwards.\<close>

lemma stop_shim_held:
  assumes "machine_tracked k running" and "unkillable k \<subseteq> Y" and "held running Y s"
    and "stop_shim k (trial_proc s) (trial_world s) = (q, w1)"
  shows "running w1 \<subseteq> Y"
proof (cases "trial_proc s")
  case None
  then show ?thesis using assms(3,4) by (simp add: stop_shim_def held_def)
next
  case (Some p)
  then show ?thesis using assms(2-4) stop_tracked [OF assms(1), of p "trial_world s"] by (auto simp: held_def)
qed

lemma restart_held:
  assumes "machine_tracked k running" and "machine_steady k" and "machine_avoids {OutOfFuel} k" and "unkillable k \<subseteq> Y"
  shows "keeps (held running Y) (stage_restart k environ tmp)"
proof (rule keepsI)
  fix s assume held: "held running Y s"
  note quiet = keeps_intros quiet_helpers [OF assms(1)]
  let ?s = "s\<lparr>trial_steps := trial_steps s @ [(''restart reuse: on-disk cache survives restart, LRU reseeded'', True, [])]\<rparr>"
  obtain q w1 where q: "stop_shim k (trial_proc s) (trial_world s) = (q, w1)" by force
  note w1 = stop_shim_held [OF assms(1,4) held q]
  show "held running Y (snd (stage_restart k environ tmp s))"
  proof (cases q)
    case (Inl e)
    have "held running Y (?s\<lparr>trial_world := w1\<rparr>)" using held w1 by (auto simp: held_def)
    then show ?thesis using q Inl by (simp add: stage_restart_def Let_def run_then run_begin run_bind run_act)
  next
    case (Inr u)
    have "held running Y (?s\<lparr>trial_world := w1, trial_proc := None\<rparr>)" using w1 by (auto simp: held_def)
    then show ?thesis
      using q Inr unfolding stage_restart_def Let_def
      by (simp add: run_then run_begin run_bind [of "look trial_proc"] run_act run_set_proc)
        (rule start_held [OF assms], simp_all, intro quiet)
  qed
qed

lemma start_stage_held:
  assumes "machine_tracked k running" and "machine_steady k" and "machine_avoids {OutOfFuel} k" and "unkillable k \<subseteq> Y"
    and "held running Y s" and "trial_proc s = None"
  shows "held running Y (snd (stage_start k environ tmp s))"
proof -
  note quiet = keeps_intros quiet_helpers [OF assms(1)]
  obtain r w1 where r: "go_build k (trial_world s) = (r, w1)" by force
  have "running w1 \<subseteq> running (trial_world s)" using assms(1) r unfolding machine_tracked_def by (metis snd_conv)
  then have w1: "running w1 \<subseteq> Y" using assms(5,6) by (auto simp: held_def)
  show ?thesis
  proof (cases r)
    case (Inl e)
    then show ?thesis using assms(6) r w1 by (auto simp: stage_start_def run_then run_act held_def)
  next
    case (Inr u)
    let ?s = "s\<lparr>trial_world := w1, trial_steps := trial_steps s @ [(''start shim + healthz'', True, [])]\<rparr>"
    have "held running Y ?s" using assms(6) w1 by (auto simp: held_def)
    then show ?thesis
      using r Inr assms(6) unfolding stage_start_def
      by (simp add: run_then run_act run_begin) (rule start_held [OF assms(1-4)], simp_all, intro quiet)
  qed
qed

lemma body_held:
  assumes "machine_tracked k running" and "machine_steady k" and "machine_avoids {OutOfFuel} k" and "unkillable k \<subseteq> Y"
    and "held running Y s" and "trial_proc s = None"
  shows "held running Y (snd (acceptance_body k environ tmp s))"
proof -
  have "keeps (held running Y) (bind_call (stage_through k environ tmp) (\<lambda>via_shim_sha.
    then_call (stage_cached k tmp)
   (then_call (stage_direct k environ tmp via_shim_sha)
   (then_call (stage_metrics k environ tmp)
      (stage_restart k environ tmp)))))"
    unfolding stage_through_def stage_cached_def stage_direct_def stage_metrics_def Let_def
    by (intro keeps_intros quiet_helpers [OF assms(1)] restart_held [OF assms(1-4)])
  then show ?thesis
    unfolding acceptance_body_def using start_stage_held [OF assms, of environ tmp]
    by (cases "stage_start k environ tmp s"; cases "fst (stage_start k environ tmp s)") (auto simp: run_then keeps_def)
qed

text \<open>C24: However the acceptance test ends, the processes that run then ran before, but for one that a \<open>kill\<close> does not end.\<close>

theorem acceptance_leaves_no_process:
  assumes "machine_tracked k running" and "machine_steady k" and "machine_avoids {OutOfFuel} k"
  shows "running (trial_world (snd (acceptance_main k environ tmp w))) \<subseteq> running w \<union> unkillable k"
proof -
  let ?Y = "running w \<union> unkillable k"
  let ?s = "\<lparr>trial_steps = [], trial_proc = None, trial_results = [], trial_world = w\<rparr>"
  obtain r s where r: "acceptance_body k environ tmp ?s = (r, s)" by force
  obtain q w' where q: "stop_shim k (trial_proc s) (trial_world s) = (q, w')" by force
  have "held running ?Y (snd (acceptance_body k environ tmp ?s))"
    by (rule body_held [OF assms]) (simp_all add: held_def)
  then have held: "running (trial_world s) \<subseteq> ?Y \<union> set_option (trial_proc s)" using r by (simp add: held_def)
  have "running w' \<subseteq> ?Y"
  proof (cases "trial_proc s")
    case None
    then show ?thesis using held q by (simp add: stop_shim_def)
  next
    case (Some p)
    then show ?thesis using held q stop_tracked [OF assms(1), of p "trial_world s"] by auto
  qed
  moreover have "trial_world (snd (acceptance_main k environ tmp w)) = w'"
    using r q by (simp add: acceptance_main_def run_act split: sum.split)
  ultimately show ?thesis by simp
qed

section \<open>A machine to try it on\<close>

text \<open>Its world is the time and the number of downloads, each of which is a hit; the one process is ended by \<open>terminate\<close>.\<close>

definition good_machine :: "(rat \<times> int, string) machine" where
  "good_machine = \<lparr>go_build = pure (), popen = (\<lambda>env. pure 1), poll_proc = (\<lambda>p w. (None, w)), read_stdout = (\<lambda>p. pure []),
     terminate_proc = (\<lambda>p w. w), kill_proc = (\<lambda>p w. w), wait_proc = (\<lambda>p w. (True, w)), shim_health = pure (Some 200),
     shim_metrics = look (\<lambda>(t, n). [(''hits'', n), (''wan_bytes_saved'', n)]),
     hf_process = (\<lambda>env (t, n). (Inr (0, ''/f'', []), (t, n + 1))), read_file = (\<lambda>f. pure ''weights''),
     file_size = (\<lambda>f. pure 7), dir_entries = (\<lambda>d. pure (Some [(''x'', True), (''manifests'', False)])),
     hash_start = [], hash_update = (\<lambda>h c. h @ c), hash_hex = (\<lambda>h. h), machine_clock = fst,
     nap_for = (\<lambda>d (t, n). (t + d, n))\<rparr>"

lemma good_machine_fits:
  "machine_avoids X good_machine" "machine_steady good_machine" "machine_tracked good_machine (\<lambda>w. {})"
  by (auto simp: machine_avoids_def avoids_def machine_steady_def machine_tracked_def good_machine_def split: prod.split)

lemma chunks_short: "s \<noteq> [] \<Longrightarrow> length s \<le> n \<Longrightarrow> chunks_of n s = [s]"
  by (cases s) (simp_all add: chunks_of.simps [of n "_ # _"] chunks_of.simps [of n "[]"])

lemma good_start: "start_shim good_machine environ dir w = (Inr 1, w)"
proof -
  have polls: "SHIM_POLLS = Suc 101" by (simp add: SHIM_POLLS_def)
  show ?thesis
    unfolding start_shim_def polls await_shim.simps by (simp add: good_machine_def run_bind)
qed

lemma good_sha: "sha256_of good_machine path w = (Inr ''weights'', w)"
  by (simp add: sha256_of_def good_machine_def run_bind chunks_short)

lemma good_download: "client_download good_machine environ endpoint cache (t, n) = (Inr ''/f'', (t, n + 1))"
proof -
  have "split_lines (strip_text ''/f'') = [''/f'']" by code_simp
  then show ?thesis by (simp add: client_download_def good_machine_def run_bind)
qed

lemma good_metrics: "shim_metrics good_machine (t, n) = (Inr [(''hits'', n), (''wan_bytes_saved'', n)], (t, n))"
  and good_files: "cached_xorb_files good_machine dir w = (Inr [''x''], w)"
  and good_calls: "go_build good_machine w = (Inr (), w)" "file_size good_machine path w = (Inr 7, w)"
    "stop_shim good_machine proc w = (Inr (), w)"
  by (cases proc; simp add: good_machine_def cached_xorb_files_def run_bind stop_shim_def)+

lemma good_run:
  "\<exists>s. acceptance_main good_machine environ tmp (0, 0) = (Inr (0, map step_line (trial_steps s)), s)"
  unfolding acceptance_main_def acceptance_body_def stage_start_def stage_through_def stage_cached_def stage_direct_def
    stage_metrics_def stage_restart_def Let_def
  by (simp add: run_then run_bind run_act trial_runs good_start good_sha good_download good_metrics good_files good_calls
      dict_get_def summary_of_def overall_def passed_def)


text \<open>A machine whose shim never becomes healthy and does not react to \<open>terminate\<close>; its world has the processes.\<close>

definition hung_machine :: "(rat \<times> nat set \<times> bool, string) machine" where
  "hung_machine = \<lparr>go_build = pure (), popen = (\<lambda>env (t, ps, killed). (Inr 1, (t, insert 1 ps, killed))),
     poll_proc = (\<lambda>p w. (None, w)), read_stdout = (\<lambda>p. pure []), terminate_proc = (\<lambda>p w. w),
     kill_proc = (\<lambda>p (t, ps, killed). (t, ps, True)),
     wait_proc = (\<lambda>p (t, ps, killed). if killed then (True, (t, ps - {p}, killed)) else (False, (t + 5, ps, killed))),
     shim_health = pure None, shim_metrics = pure [], hf_process = (\<lambda>env. pure (1, [], [])), read_file = (\<lambda>f. pure []),
     file_size = (\<lambda>f. pure 0), dir_entries = (\<lambda>d. pure None), hash_start = [], hash_update = (\<lambda>h c. h @ c),
     hash_hex = (\<lambda>h. h), machine_clock = fst, nap_for = (\<lambda>d (t, ps, killed). (t + d, ps, killed))\<rparr>"

lemma hung_machine_fits:
  "machine_avoids {OutOfFuel} hung_machine" "machine_steady hung_machine"
  "machine_tracked hung_machine (\<lambda>w. fst (snd w))" "unkillable hung_machine = {}"
  by (auto simp: machine_avoids_def avoids_def machine_steady_def machine_tracked_def unkillable_def hung_machine_def
      split: prod.split)

theorem acceptance_leaves_no_process_witness:
  "fst (snd (trial_world (snd (acceptance_main hung_machine [] ''t'' (0, {}, False))))) = {}"
  using acceptance_leaves_no_process [OF hung_machine_fits(3,2,1), of "[]" "''t''" "(0, {}, False)"]
  by (simp add: hung_machine_fits(4))

theorem acceptance_main_returns_witness: "fst (acceptance_main hung_machine [] ''t'' (0, {}, False)) \<noteq> Inl OutOfFuel"
  by (rule acceptance_main_returns [OF hung_machine_fits(1,2)])

end
