(* ===== verification/Sample_Data.thy ===== *)
theory Sample_Data
  imports Locality_Sim Report_Text
begin

text \<open>
  \<open>study/make_sample_data.py\<close>: the sample log and xorb map for the placement-locality simulator.
  numpy's generator is a parameter, its state is threaded through the draws in the order of the
  code.
\<close>

section \<open>The generator\<close>

text \<open>\<open>draw_weighted\<close> is \<open>choice(xs, p = ws)\<close>, \<open>draw_index\<close> is \<open>choice(xs)\<close> without weights: the index of what is chosen.\<close>

record 'g rng =
  draw_index :: "nat \<Rightarrow> 'g \<Rightarrow> nat \<times> 'g"
  draw_weighted :: "rat list \<Rightarrow> 'g \<Rightarrow> nat \<times> 'g"
  draw_integer :: "int \<Rightarrow> int \<Rightarrow> 'g \<Rightarrow> int \<times> 'g"
  draw_unit :: "'g \<Rightarrow> rat \<times> 'g"

definition N_STARTS :: nat where "N_STARTS = 20000"
definition N_MODELS :: nat where "N_MODELS = 60"
definition HOSTS_PER_RACK :: int where "HOSTS_PER_RACK = 10"
definition STICKINESS :: rat where "STICKINESS = 3 / 4"
definition XORB_GIB :: rat where "XORB_GIB = 3 / 2"
definition DEDUP_MODEL_IDX :: nat where "DEDUP_MODEL_IDX = 0"
definition DEDUP_SHARE :: rat where "DEDUP_SHARE = 4 / 5"

definition HOSTS :: "string list" where
  "HOSTS = map (\<lambda>i. ''h'' @ pad_zeros 2 (str_nat i)) [0..<60]"

definition SIZE_CHOICES_GIB :: "int list" where
  "SIZE_CHOICES_GIB = [7, 13, 14, 32, 70, 145]"

definition SIZE_WEIGHTS :: "rat list" where
  "SIZE_WEIGHTS = [1 / 4, 1 / 5, 1 / 5, 1 / 5, 1 / 10, 1 / 20]"

definition rack_of :: "string \<Rightarrow> string res" where
  "rack_of host = res_map (\<lambda>n. ''rack-'' @ str_int (n div HOSTS_PER_RACK)) (int_of_text (drop 1 host))"

section \<open>The catalog\<close>

record entry =
  en_idx :: nat
  en_repo_id :: string
  en_revision :: string
  en_size_gib :: int

definition repo_name :: "nat \<Rightarrow> string" where
  "repo_name i = ''org'' @ str_nat (i mod 7) @ ''/model-'' @ pad_zeros 2 (str_nat i)"

definition revisions_of :: "nat \<Rightarrow> string list" where
  "revisions_of i = (if i = DEDUP_MODEL_IDX then [''r1'', ''r2''] else [''r1''])"

fun catalog_from :: "'g rng \<Rightarrow> nat list \<Rightarrow> 'g \<Rightarrow> entry list \<times> 'g" where
  "catalog_from r [] g = ([], g)"
| "catalog_from r (i # is) g =
    (let (j, g1) = draw_weighted r SIZE_WEIGHTS g;
         (rest, g2) = catalog_from r is g1
     in (map (\<lambda>rvn. \<lparr>en_idx = i, en_repo_id = repo_name i, en_revision = rvn, en_size_gib = SIZE_CHOICES_GIB ! j\<rparr>)
           (revisions_of i) @ rest, g2))"

definition build_catalog :: "'g rng \<Rightarrow> 'g \<Rightarrow> entry list \<times> 'g" where
  "build_catalog r = catalog_from r [0..<N_MODELS]"

definition zipf_weights :: "nat \<Rightarrow> rat list" where
  "zipf_weights n = (let w = map (\<lambda>k. 1 / of_nat k) [1..<n + 1] in map (\<lambda>x. x / sum_list w) w)"

section \<open>The log\<close>

record sample_event = event +
  se_endpoint_id :: string

type_synonym warm_hosts = "(model_key, string list) pydict"

definition entry_key :: "entry \<Rightarrow> model_key" where
  "entry_key e = (en_repo_id e, en_revision e)"

text \<open>The host of a start, and what becomes of \<open>warm_hosts\<close>: a host that is not warm for the model becomes so.\<close>

definition place_anywhere :: "'g rng \<Rightarrow> model_key \<Rightarrow> warm_hosts \<Rightarrow> 'g \<Rightarrow> string \<times> warm_hosts \<times> 'g" where
  "place_anywhere r model warm_hosts g =
    (let (k, g') = draw_index r (length HOSTS) g;
         host = HOSTS ! k;
         known = set_default (model, []) warm_hosts;
         hosts = dict_get model [] known
     in (host, if host \<in> set hosts then known else AList.update model (hosts @ [host]) known, g'))"

definition place :: "'g rng \<Rightarrow> model_key \<Rightarrow> warm_hosts \<Rightarrow> 'g \<Rightarrow> string \<times> warm_hosts \<times> 'g" where
  "place r model warm_hosts g =
    (let warm = dict_get model [] warm_hosts
     in if warm = [] then place_anywhere r model warm_hosts g
        else (let (u, g1) = draw_unit r g
              in if u < STICKINESS then (let (k, g2) = draw_index r (length warm) g1 in (warm ! k, warm_hosts, g2))
                 else place_anywhere r model warm_hosts g1))"

definition event_row :: "entry \<Rightarrow> int \<Rightarrow> string \<Rightarrow> string \<Rightarrow> sample_event" where
  "event_row e ts host rack =
    \<lparr>ev_ts = of_int ts, ev_repo_id = en_repo_id e, ev_revision = en_revision e, ev_host_id = host,
     ev_gpu_type = (if en_size_gib e < 100 then ''H100'' else ''H200''), ev_datacenter = ''US-CA-1'',
     ev_model_size_bytes = en_size_gib e * GIB, ev_cold_pull_bytes = en_size_gib e * GIB,
     ev_pull_duration_s = of_int (en_size_gib e * 8), ev_rack_id = rack,
     se_endpoint_id = ''ep-'' @ last (split_text CHR ''/'' (en_repo_id e))\<rparr>"

fun events_loop ::
  "'g rng \<Rightarrow> entry list \<Rightarrow> rat list \<Rightarrow> nat \<Rightarrow> int \<Rightarrow> warm_hosts \<Rightarrow> 'g \<Rightarrow> sample_event list res"
where
  "events_loop r catalog weights 0 ts warm g = Inr []"
| "events_loop r catalog weights (Suc n) ts warm g =
    (let (d, g1) = draw_integer r 1 120 g;
         (j, g2) = draw_weighted r weights g1;
         e = catalog ! j;
         (host, warm', g3) = place r (entry_key e) warm g2
     in res_bind (rack_of host) (\<lambda>rack.
        res_map (\<lambda>rest. event_row e (ts + d) host rack # rest) (events_loop r catalog weights n (ts + d) warm' g3)))"

definition SAMPLE_COLUMNS :: "string list" where
  "SAMPLE_COLUMNS = [''ts'', ''endpoint_id'', ''repo_id'', ''revision'', ''host_id'', ''gpu_type'', ''datacenter'', ''rack_id'',
     ''model_size_bytes'', ''cold_pull_bytes'', ''pull_duration_s'']"

definition make_events :: "'g rng \<Rightarrow> entry list \<Rightarrow> 'g \<Rightarrow> sample_event frame res" where
  "make_events r catalog g =
    res_map (\<lambda>rws. \<lparr>frame_columns = SAMPLE_COLUMNS, frame_rows = rws\<rparr>)
      (events_loop r catalog (zipf_weights (length catalog)) N_STARTS 1700000000 [] g)"

section \<open>The xorb map\<close>

definition xorb_count :: "entry \<Rightarrow> nat" where
  "xorb_count e = max 1 (nat (round_half_even (of_int (en_size_gib e) / XORB_GIB)))"

definition reused :: "entry \<Rightarrow> nat \<Rightarrow> bool" where
  "reused e i \<longleftrightarrow> en_idx e = DEDUP_MODEL_IDX \<and> en_revision e = ''r2'' \<and> int i < \<lfloor>of_nat (xorb_count e) * DEDUP_SHARE\<rfloor>"

definition xorb_name :: "entry \<Rightarrow> nat \<Rightarrow> string" where
  "xorb_name e i = en_repo_id e @ '':'' @ (if reused e i then ''r1'' else en_revision e) @ '':'' @ str_nat i"

definition entry_xorbs :: "entry \<Rightarrow> xorb_row list" where
  "entry_xorbs e = map (\<lambda>i. \<lparr>xr_repo_id = en_repo_id e, xr_revision = en_revision e, xr_hash = xorb_name e i,
     xr_size_bytes = \<lfloor>XORB_GIB * of_int GIB\<rfloor>\<rparr>) [0..<xorb_count e]"

definition make_xorb_map :: "entry list \<Rightarrow> xorb_row frame" where
  "make_xorb_map catalog = \<lparr>frame_columns = XORB_MAP_COLUMNS, frame_rows = concat (map entry_xorbs catalog)\<rparr>"

text \<open>\<open>main\<close>: the two files that are written, and the working set that is printed.\<close>

definition sample_main :: "'g rng \<Rightarrow> 'g \<Rightarrow> (sample_event frame \<times> xorb_row frame \<times> int) res" where
  "sample_main r g =
    (let (catalog, g1) = build_catalog r g
     in res_map (\<lambda>events. (events, make_xorb_map catalog, sum_list (map en_size_gib catalog))) (make_events r catalog g1))"

section \<open>The catalog whatever is drawn\<close>

text \<open>What numpy guarantees: an index into what it chooses from when the weights are a distribution, an integer in
  the half-open interval.\<close>

definition rng_ok :: "'g rng \<Rightarrow> bool" where
  "rng_ok r \<longleftrightarrow> (\<forall>n g. 0 < n \<longrightarrow> fst (draw_index r n g) < n) \<and>
    (\<forall>ws g. ws \<noteq> [] \<and> list_all (\<lambda>w. 0 \<le> w) ws \<and> sum_list ws = 1 \<longrightarrow> fst (draw_weighted r ws g) < length ws) \<and>
    (\<forall>a b g. a < b \<longrightarrow> a \<le> fst (draw_integer r a b g) \<and> fst (draw_integer r a b g) < b)"

lemma rng_index: "rng_ok r \<Longrightarrow> 0 < n \<Longrightarrow> fst (draw_index r n g) < n"
  and rng_weighted: "rng_ok r \<Longrightarrow> ws \<noteq> [] \<Longrightarrow> list_all (\<lambda>w. 0 \<le> w) ws \<Longrightarrow> sum_list ws = 1 \<Longrightarrow>
    fst (draw_weighted r ws g) < length ws"
  and rng_integer: "rng_ok r \<Longrightarrow> a < b \<Longrightarrow> a \<le> fst (draw_integer r a b g) \<and> fst (draw_integer r a b g) < b"
  unfolding rng_ok_def by blast+

lemma size_weights: "SIZE_WEIGHTS \<noteq> []" "list_all (\<lambda>w. 0 \<le> w) SIZE_WEIGHTS" "sum_list SIZE_WEIGHTS = 1"
  "length SIZE_WEIGHTS = length SIZE_CHOICES_GIB"
  by (simp_all add: SIZE_WEIGHTS_def SIZE_CHOICES_GIB_def)

lemma zipf_distribution:
  assumes "0 < n"
  shows "zipf_weights n \<noteq> []" "list_all (\<lambda>w. 0 \<le> w) (zipf_weights n)" "sum_list (zipf_weights n) = 1"
    "length (zipf_weights n) = n"
proof -
  let ?w = "map (\<lambda>k. 1 / of_nat k :: rat) [1..<n + 1]"
  have pos: "0 < sum_list ?w"
  proof -
    have "?w = 1 # map (\<lambda>k. 1 / of_nat k) [2..<n + 1]"
      using assms by (simp add: upt_conv_Cons numeral_2_eq_2 del: upt_Suc)
    moreover have "0 \<le> sum_list (map (\<lambda>k. 1 / of_nat k :: rat) [2..<n + 1])"
      by (rule sum_list_nonneg) auto
    ultimately show ?thesis by simp
  qed
  have divide: "sum_list (map (\<lambda>x. x / s) xs) = sum_list xs / s" for xs and s :: rat
    by (induction xs) (simp_all add: add_divide_distrib)
  have "sum_list (map (\<lambda>x. x / sum_list ?w) ?w) = 1"
    unfolding divide using pos by simp
  then show "sum_list (zipf_weights n) = 1" unfolding zipf_weights_def Let_def .
  show "zipf_weights n \<noteq> []" "length (zipf_weights n) = n"
    using assms by (simp_all add: zipf_weights_def Let_def)
  show "list_all (\<lambda>w. 0 \<le> w) (zipf_weights n)"
    using pos by (auto simp: zipf_weights_def Let_def list_all_iff simp del: upt_Suc intro!: divide_nonneg_nonneg)
qed

lemma catalog_keys: "map entry_key (fst (catalog_from r is g)) = concat (map (\<lambda>i. map (Pair (repo_name i)) (revisions_of i)) is)"
  by (induction "is" arbitrary: g) (auto simp: entry_key_def split: prod.split simp: Let_def case_prod_beta)

lemma catalog_distinct: "distinct (map entry_key (fst (build_catalog r g)))"
proof -
  have "distinct (concat (map (\<lambda>i. map (Pair (repo_name i)) (revisions_of i)) [0..<N_MODELS]))" by code_simp
  then show ?thesis by (simp only: build_catalog_def catalog_keys)
qed

lemma catalog_entries:
  assumes "rng_ok r" and "e \<in> set (fst (build_catalog r g))"
  shows "en_size_gib e \<in> set SIZE_CHOICES_GIB" and "en_idx e < N_MODELS" and "en_repo_id e = repo_name (en_idx e)"
    and "en_revision e \<in> set (revisions_of (en_idx e))"
proof -
  have "en_size_gib e \<in> set SIZE_CHOICES_GIB \<and> en_idx e \<in> set is \<and> en_repo_id e = repo_name (en_idx e) \<and>
      en_revision e \<in> set (revisions_of (en_idx e))" if "e \<in> set (fst (catalog_from r is g))" for "is" g
    using that
  proof (induction "is" arbitrary: g)
    case (Cons i "is")
    obtain j g1 where j: "draw_weighted r SIZE_WEIGHTS g = (j, g1)" by force
    have "fst (draw_weighted r SIZE_WEIGHTS g) < length SIZE_WEIGHTS"
      by (rule rng_weighted [OF assms(1) size_weights(1-3)])
    then have "SIZE_CHOICES_GIB ! j \<in> set SIZE_CHOICES_GIB" using j size_weights(4) by simp
    then show ?case using Cons j by (auto simp: case_prod_beta)
  qed simp
  from this [of "[0..<N_MODELS]" g] assms(2)
  show "en_size_gib e \<in> set SIZE_CHOICES_GIB" "en_idx e < N_MODELS" "en_repo_id e = repo_name (en_idx e)"
    "en_revision e \<in> set (revisions_of (en_idx e))"
    by (simp_all add: build_catalog_def)
qed

lemma catalog_nonempty: "fst (build_catalog r g) \<noteq> []"
proof -
  have models: "[0..<N_MODELS] = 0 # [Suc 0..<N_MODELS]" by (rule upt_conv_Cons) (simp add: N_MODELS_def)
  have "map entry_key (fst (build_catalog r g)) \<noteq> []"
    unfolding build_catalog_def catalog_keys models by (simp add: revisions_of_def)
  then show ?thesis by auto
qed

text \<open>The hosts stand in six racks.\<close>

lemma hosts_in_racks: "list_all (\<lambda>h. case rack_of h of Inl e \<Rightarrow> False | Inr rack \<Rightarrow> rack \<in> set (map (\<lambda>n. ''rack-'' @ str_nat n) [0..<6])) HOSTS"
  by code_simp

lemma rack_of_host:
  assumes "h \<in> set HOSTS"
  obtains rack where "rack_of h = Inr rack" and "rack \<in> set (map (\<lambda>n. ''rack-'' @ str_nat n) [0..<6])"
  using hosts_in_racks assms by (cases "rack_of h") (auto simp: list_all_iff)

text \<open>A start of the sample: of a model of the catalog, on a host, in the rack of this host.\<close>

definition start_of :: "entry list \<Rightarrow> sample_event \<Rightarrow> bool" where
  "start_of catalog row \<longleftrightarrow> (\<exists>e \<in> set catalog. \<exists>ts host rack. host \<in> set HOSTS \<and> rack_of host = Inr rack \<and>
     row = event_row e ts host rack)"

definition warm_hosts_ok :: "warm_hosts \<Rightarrow> bool" where
  "warm_hosts_ok warm \<longleftrightarrow> (\<forall>m. set (dict_get m [] warm) \<subseteq> set HOSTS)"

lemma dict_get_update: "dict_get m v (AList.update k x d) = (if m = k then x else dict_get m v d)"
  by (simp add: dict_get_def update_conv')

lemma dict_get_default: "dict_get m [] (set_default (k, []) d) = dict_get m [] d"
  by (auto simp: dict_get_def set_default_def map_add_def split: option.split)

lemma place_anywhere_ok:
  assumes "rng_ok r" and "warm_hosts_ok warm" and "place_anywhere r model warm g = (host, warm', g')"
  shows "host \<in> set HOSTS \<and> warm_hosts_ok warm'"
proof -
  have "fst (draw_index r (length HOSTS) g) < length HOSTS" by (rule rng_index [OF assms(1)]) (simp add: HOSTS_def)
  then have host: "host \<in> set HOSTS" using assms(3) by (auto simp: place_anywhere_def Let_def case_prod_beta)
  have "set (dict_get m [] warm') \<subseteq> insert host (set (dict_get m [] warm))" for m
    using assms(3)
    by (auto simp: place_anywhere_def Let_def case_prod_beta dict_get_update dict_get_default split: if_splits)
  then show ?thesis using host assms(2) unfolding warm_hosts_ok_def by blast
qed

lemma place_ok:
  assumes "rng_ok r" and "warm_hosts_ok warm" and "place r model warm g = (host, warm', g')"
  shows "host \<in> set HOSTS \<and> warm_hosts_ok warm'"
proof (cases "dict_get model [] warm = [] \<or> \<not> fst (draw_unit r g) < STICKINESS")
  case True
  then obtain h where "place_anywhere r model warm h = (host, warm', g')"
    using assms(3) by (cases "draw_unit r g") (auto simp: place_def Let_def split: if_splits)
  then show ?thesis by (rule place_anywhere_ok [OF assms(1,2)])
next
  case False
  let ?warm = "dict_get model [] warm"
  obtain u g1 where u: "draw_unit r g = (u, g1)" by force
  have "fst (draw_index r (length ?warm) g1) < length ?warm" by (rule rng_index [OF assms(1)]) (use False in simp)
  moreover have "host = ?warm ! fst (draw_index r (length ?warm) g1)" "warm' = warm"
    using False u assms(3) by (auto simp: place_def Let_def case_prod_beta)
  moreover have "set ?warm \<subseteq> set HOSTS" using assms(2) unfolding warm_hosts_ok_def by blast
  ultimately show ?thesis using assms(2) by (meson nth_mem subsetD)
qed

lemma events_loop_ok:
  assumes "rng_ok r" and "catalog \<noteq> []"
  shows "warm_hosts_ok warm \<Longrightarrow> \<exists>rws. events_loop r catalog (zipf_weights (length catalog)) n ts warm g = Inr rws \<and>
    length rws = n \<and> list_all (start_of catalog) rws \<and> sorted_wrt (<) (of_int ts # map ev_ts rws)"
proof (induction n arbitrary: ts warm g)
  case (Suc n)
  let ?w = "zipf_weights (length catalog)"
  obtain d g1 where d: "draw_integer r 1 120 g = (d, g1)" by force
  obtain j g2 where j: "draw_weighted r ?w g1 = (j, g2)" by force
  obtain host warm' g3 where host: "place r (entry_key (catalog ! j)) warm g2 = (host, warm', g3)" by (metis surj_pair)
  have h: "host \<in> set HOSTS" "warm_hosts_ok warm'" using place_ok [OF assms(1) Suc.prems host] by simp_all
  obtain rack where rack: "rack_of host = Inr rack" by (rule rack_of_host [OF h(1)])
  have "1 \<le> fst (draw_integer r 1 120 g)" using rng_integer [OF assms(1), of 1 120 g] by simp
  then have "ts < ts + d" using d by simp
  have "fst (draw_weighted r ?w g1) < length ?w"
    by (intro rng_weighted [OF assms(1)] zipf_distribution) (use assms(2) in simp_all)
  then have e: "catalog ! j \<in> set catalog" using j assms(2) zipf_distribution(4) [of "length catalog"] by simp
  obtain rws where rws: "events_loop r catalog ?w n (ts + d) warm' g3 = Inr rws" "length rws = n"
      "list_all (start_of catalog) rws" "sorted_wrt (<) (of_int (ts + d) # map ev_ts rws)"
    using Suc.IH [OF h(2)] by blast
  let ?row = "event_row (catalog ! j) (ts + d) host rack"
  have "start_of catalog ?row" unfolding start_of_def using e h(1) rack by blast
  moreover have "ev_ts ?row = of_int (ts + d)" by (simp add: event_row_def)
  moreover have "events_loop r catalog ?w (Suc n) ts warm g = Inr (?row # rws)"
    using d j host rack rws(1) by simp
  moreover have "sorted_wrt (<) (of_int ts # map ev_ts (?row # rws))"
  proof -
    have "(of_int ts :: rat) < of_int (ts + d)" using \<open>ts < ts + d\<close> by (simp only: of_int_less_iff)
    then show ?thesis
      using rws(4) \<open>ev_ts ?row = of_int (ts + d)\<close> by (auto simp del: of_int_add intro: less_trans)
  qed
  ultimately show ?case using rws(2,3) by (intro exI [of _ "?row # rws"]) simp
qed simp

lemma sample_main_ok:
  assumes "rng_ok r"
  obtains catalog g' rws where "build_catalog r g = (catalog, g')"
    and "sample_main r g = Inr (\<lparr>frame_columns = SAMPLE_COLUMNS, frame_rows = rws\<rparr>, make_xorb_map catalog,
      sum_list (map en_size_gib catalog))"
    and "length rws = N_STARTS" and "list_all (start_of catalog) rws" and "sorted_wrt (<) (map ev_ts rws)"
proof -
  obtain catalog g' where c: "build_catalog r g = (catalog, g')" by force
  then have "catalog \<noteq> []" using catalog_nonempty [of r g] by simp
  moreover have "warm_hosts_ok []" by (simp add: warm_hosts_ok_def dict_get_def)
  ultimately obtain rws where loop: "events_loop r catalog (zipf_weights (length catalog)) N_STARTS 1700000000 [] g' = Inr rws"
      and len: "length rws = N_STARTS" and starts: "list_all (start_of catalog) rws"
      and "sorted_wrt (<) (of_int 1700000000 # map ev_ts rws)"
    using events_loop_ok [OF assms] by blast
  then have "sorted_wrt (<) (map ev_ts rws)" by (simp only: sorted_wrt.simps)
  moreover have "sample_main r g = Inr (\<lparr>frame_columns = SAMPLE_COLUMNS, frame_rows = rws\<rparr>, make_xorb_map catalog,
      sum_list (map en_size_gib catalog))"
    using c loop by (simp add: sample_main_def make_events_def)
  ultimately show thesis using that [OF c _ len starts] by blast
qed

section \<open>The sample is well typed\<close>

definition sample_row_ok :: "sample_event \<Rightarrow> bool" where
  "sample_row_ok row \<longleftrightarrow> ev_host_id row \<in> set HOSTS \<and> rack_of (ev_host_id row) = Inr (ev_rack_id row) \<and>
     ev_gpu_type row \<in> {''H100'', ''H200''} \<and> ev_datacenter row = ''US-CA-1'' \<and> 0 < ev_model_size_bytes row \<and>
     ev_cold_pull_bytes row = ev_model_size_bytes row \<and> 0 < ev_pull_duration_s row \<and>
     (\<exists>i < N_MODELS. ev_repo_id row = repo_name i \<and> ev_revision row \<in> set (revisions_of i))"

definition xorb_row_ok :: "xorb_row \<Rightarrow> bool" where
  "xorb_row_ok x \<longleftrightarrow> xr_size_bytes x = 1610612736 \<and>
     (\<exists>i < N_MODELS. xr_repo_id x = repo_name i \<and> xr_revision x \<in> set (revisions_of i))"

lemma size_positive: "s \<in> set SIZE_CHOICES_GIB \<Longrightarrow> 0 < s"
  by (auto simp: SIZE_CHOICES_GIB_def)

lemma start_row_ok:
  assumes "rng_ok r" and "build_catalog r g = (catalog, g')" and "start_of catalog row"
  shows "sample_row_ok row"
proof -
  obtain e ts host rack where e: "e \<in> set catalog" and host: "host \<in> set HOSTS" "rack_of host = Inr rack"
    and row: "row = event_row e ts host rack"
    using assms(3) unfolding start_of_def by blast
  have "e \<in> set (fst (build_catalog r g))" using e assms(2) by simp
  note facts = catalog_entries [OF assms(1) this]
  have "0 < en_size_gib e" by (rule size_positive [OF facts(1)])
  then show ?thesis
    using host facts(2-4) by (auto simp: sample_row_ok_def row event_row_def GIB_def)
qed

lemma entry_row_ok:
  assumes "rng_ok r" and "build_catalog r g = (catalog, g')" and "e \<in> set catalog" and "x \<in> set (entry_xorbs e)"
  shows "xorb_row_ok x"
proof -
  have "e \<in> set (fst (build_catalog r g))" using assms(2,3) by simp
  note facts = catalog_entries [OF assms(1) this]
  have "\<lfloor>XORB_GIB * of_int GIB\<rfloor> = 1610612736" by (simp add: XORB_GIB_def GIB_def)
  then show ?thesis using assms(4) facts(2-4) by (auto simp: xorb_row_ok_def entry_xorbs_def)
qed


text \<open>A generator that always draws the least.\<close>

definition least_rng :: "unit rng" where
  "least_rng = \<lparr>draw_index = (\<lambda>n g. (0, g)), draw_weighted = (\<lambda>ws g. (0, g)), draw_integer = (\<lambda>a b g. (a, g)),
     draw_unit = (\<lambda>g. (0, g))\<rparr>"

lemma least_rng_ok: "rng_ok least_rng"
  by (simp add: rng_ok_def least_rng_def)


section \<open>The simulator replays the sample\<close>

text \<open>The file as the simulator reads it, which does not look at the endpoints.\<close>

definition plain :: "sample_event frame \<Rightarrow> event frame" where
  "plain f = \<lparr>frame_columns = frame_columns f, frame_rows = map event.truncate (frame_rows f)\<rparr>"

lemma truncate_fields:
  "ev_ts (event.truncate e) = ev_ts e" "event_model (event.truncate e) = (ev_repo_id e, ev_revision e)"
  "ev_model_size_bytes (event.truncate e) = ev_model_size_bytes e"
  by (simp_all add: event.truncate_def event_model_def)

definition catalog_size :: "entry list \<Rightarrow> model_key \<Rightarrow> int" where
  "catalog_size catalog m = (case map_of (map (\<lambda>e. (entry_key e, en_size_gib e)) catalog) m of None \<Rightarrow> 0 | Some s \<Rightarrow> s * GIB)"

lemma catalog_size_entry:
  assumes "distinct (map entry_key catalog)" and "e \<in> set catalog"
  shows "catalog_size catalog (entry_key e) = en_size_gib e * GIB"
proof -
  have "map_of (map (\<lambda>e. (entry_key e, en_size_gib e)) catalog) (entry_key e) = Some (en_size_gib e)"
    using assms by (intro map_of_is_SomeI) (auto simp: comp_def)
  then show ?thesis by (simp add: catalog_size_def)
qed

lemma add_xorb_sizes:
  assumes "xorb_sizes (\<lambda>_. c) m" and "xr_size_bytes x = c"
  shows "xorb_sizes (\<lambda>_. c) (add_xorb x m)"
proof -
  let ?key = "(xr_repo_id x, xr_revision x)"
  have "s = c" if "(h, s) \<in> set (dict_get ?key [] m)" for h s
  proof (cases "map_of m ?key")
    case (Some xorbs)
    then have "(?key, xorbs) \<in> set m" by (rule map_of_SomeD)
    then show ?thesis using that Some assms(1) by (fastforce simp: xorb_sizes_def dict_get_def)
  qed (use that in \<open>simp add: dict_get_def\<close>)
  then have new: "\<forall>(h, s) \<in> set (dict_get ?key [] m @ [(xr_hash x, xr_size_bytes x)]). s = c" using assms(2) by auto
  have "set (add_xorb x m) \<subseteq> insert (?key, dict_get ?key [] m @ [(xr_hash x, xr_size_bytes x)]) (set m)"
    unfolding add_xorb_def Let_def by (rule set_update_subset)
  then show ?thesis using new assms(1) unfolding xorb_sizes_def by blast
qed

lemma load_sample_xorbs:
  assumes "list_all xorb_row_ok (frame_rows f)" and "load_xorb_map f = Inr xm"
  shows "xorb_sizes (\<lambda>_. 1610612736) xm"
proof -
  have "xorb_sizes (\<lambda>_. 1610612736) (fold add_xorb rws m)"
    if "list_all xorb_row_ok rws" "xorb_sizes (\<lambda>_. 1610612736) m" for rws m
    using that by (induction rws arbitrary: m) (simp_all add: add_xorb_sizes xorb_row_ok_def)
  from this [OF assms(1), of "[]"] show ?thesis
    using assms(2) by (auto simp: load_xorb_map_def xorb_sizes_def Let_def split: if_splits)
qed

text \<open>Whatever is drawn, the simulator reads the sample as it was written, and neither replay raises: every model and every xorb
  has one size.\<close>

theorem sample_replays:
  assumes "rng_ok r" and "sample_main r g = Inr (events, xorbs, gib)" and "scope \<in> set scopes" and "0 \<le> cap"
  shows "load_events (plain events) = Inr (plain events) \<and> (\<exists>hits. simulate (plain events) scope cap ttl = Inr hits) \<and>
    (\<exists>xm bytes. load_xorb_map xorbs = Inr xm \<and> simulate_tier2 (plain events) xm scope cap ttl = Inr bytes)"
proof (rule sample_main_ok [OF assms(1), of g])
  fix catalog g' rws
  assume c: "build_catalog r g = (catalog, g')"
    and run: "sample_main r g = Inr (\<lparr>frame_columns = SAMPLE_COLUMNS, frame_rows = rws\<rparr>, make_xorb_map catalog,
      sum_list (map en_size_gib catalog))"
    and starts: "list_all (start_of catalog) rws" and sorted: "sorted_wrt (<) (map ev_ts rws)"
  have events: "events = \<lparr>frame_columns = SAMPLE_COLUMNS, frame_rows = rws\<rparr>" and xorbs: "xorbs = make_xorb_map catalog"
    using run assms(2) by simp_all
  have rows: "frame_rows (plain events) = map event.truncate rws" by (simp add: plain_def events)
  have "sorted (map ev_ts (map event.truncate rws))"
    using sorted by (simp add: comp_def truncate_fields strict_sorted_imp_sorted)
  then have "sort_key ev_ts (map event.truncate rws) = map event.truncate rws" by (rule sort_key_id_if_sorted)
  then have load: "load_events (plain events) = Inr (plain events)"
    by (simp add: load_events_def plain_def events REQUIRED_COLUMNS_def SAMPLE_COLUMNS_def)
  have distinct: "distinct (map entry_key catalog)" using catalog_distinct [of r g] c by simp
  have in_catalog: "e \<in> set (fst (build_catalog r g))" if "e \<in> set catalog" for e using that c by simp
  have "model_sizes (catalog_size catalog) (frame_rows (plain events))"
    unfolding model_sizes_def rows
  proof
    fix e assume "e \<in> set (map event.truncate rws)"
    then obtain row where row: "row \<in> set rws" "e = event.truncate row" by auto
    then obtain en ts host rack where "en \<in> set catalog" "row = event_row en ts host rack"
      using starts unfolding list_all_iff start_of_def by blast
    then show "ev_model_size_bytes e = catalog_size catalog (event_model e)"
      using catalog_size_entry [OF distinct] row(2) by (simp add: truncate_fields event_row_def entry_key_def)
  qed
  moreover have "0 \<le> catalog_size catalog m" for m
  proof (cases "map_of (map (\<lambda>e. (entry_key e, en_size_gib e)) catalog) m")
    case (Some s)
    then obtain en where "en \<in> set catalog" "s = en_size_gib en" by (auto dest!: map_of_SomeD)
    then have "0 < s" using catalog_entries(1) [OF assms(1) in_catalog] size_positive by simp
    then show ?thesis using Some by (simp add: catalog_size_def GIB_def)
  qed (simp add: catalog_size_def)
  ultimately have tier1: "\<exists>hits. simulate (plain events) scope cap ttl = Inr hits"
    using simulate_never_raises [OF assms(3,4), of "catalog_size catalog" "plain events" ttl] by blast
  obtain xm where xm: "load_xorb_map xorbs = Inr xm"
    by (simp add: load_xorb_map_def xorbs make_xorb_map_def)
  have "list_all xorb_row_ok (frame_rows xorbs)"
    using entry_row_ok [OF assms(1) c] by (auto simp: list_all_iff xorbs make_xorb_map_def)
  then have sizes: "xorb_sizes (\<lambda>_. 1610612736) xm" by (rule load_sample_xorbs [OF _ xm])
  have "cache_ok (\<lambda>_. 1610612736) (node_cache (new_lru cap ttl) Map.empty n)" for n :: string
    using assms(4) by simp
  then obtain bytes where "simulate_tier2_loop (frame_columns (plain events)) xm scope cap ttl (frame_rows (plain events)) Map.empty = Inr bytes"
    using simulate_tier2_loop_total [OF assms(3) _ sizes] by fastforce
  then show ?thesis using load tier1 xm by (simp add: simulate_tier2_def)
qed

theorem sample_replays_witness:
  "\<exists>events xorbs gib hits. sample_main least_rng () = Inr (events, xorbs, gib) \<and>
     simulate (plain events) ''rack'' 10 None = Inr hits"
proof (rule sample_main_ok [OF least_rng_ok, of "()"])
  fix catalog g' rws
  assume "sample_main least_rng () = Inr (\<lparr>frame_columns = SAMPLE_COLUMNS, frame_rows = rws\<rparr>, make_xorb_map catalog,
      sum_list (map en_size_gib catalog))"
  from sample_replays [OF least_rng_ok this, of "''rack''" 10 None] this show ?thesis by (auto simp: scopes_def)
qed

text \<open>C38: Whatever is drawn and whatever is asked for (in known scopes and with sizes that are not negative), the simulator
  prints the table of a generated sample: the log is read as it was written, no replay of either tier raises, and
  there is a line for every scope and cache size, in this order.\<close>

theorem study_of_sample:
  assumes "rng_ok r" and "sample_main r g = Inr (events, xorbs, gib)" and "set (sa_scopes args) \<subseteq> set scopes"
    and "list_all (\<lambda>size_gib. 0 \<le> size_gib) (sa_cache_sizes args)" and "sa_tier2 args \<Longrightarrow> sa_xorb_map args \<noteq> None"
  shows "\<exists>table. sim_main (\<lambda>p. Inr (plain events)) (\<lambda>p. Inr xorbs) path args = Inr table \<and>
    table_points table = List.product (sa_scopes args) (sa_cache_sizes args)"
proof -
  have cap: "0 \<le> size_gib * GIB" if "size_gib \<in> set (sa_cache_sizes args)" for size_gib
    using assms(4) that by (simp add: list_all_iff GIB_def)
  have load: "load_events (plain events) = Inr (plain events)"
    using sample_replays [OF assms(1,2), of "''host''" 0] by (simp add: scopes_def)
  obtain xm where xm: "load_xorb_map xorbs = Inr xm"
    using sample_replays [OF assms(1,2), of "''host''" 0] by (auto simp: scopes_def)
  have known: "scope \<in> set scopes" if "scope \<in> set (sa_scopes args)" for scope using assms(3) that by blast
  have tier1: "\<exists>hits. simulate (plain events) scope (size_gib * GIB) ttl = Inr hits"
    and tier2: "\<exists>result. simulate_tier2 (plain events) xm scope (size_gib * GIB) ttl = Inr result"
    if "scope \<in> set (sa_scopes args)" "size_gib \<in> set (sa_cache_sizes args)" for scope size_gib ttl
    using sample_replays [OF assms(1,2) known [OF that(1)] cap [OF that(2)], of ttl] xm by auto
  show ?thesis
  proof (cases "sa_tier2 args")
    case True
    then obtain p where "sa_xorb_map args = Some p" using assms(5) by blast
    then show ?thesis
      using tier2_sweep_points [of "sa_scopes args" "sa_cache_sizes args" "plain events" xm "sa_ttl_hours args"] tier2 True
      by (auto simp: sim_main_def load xm)
  next
    case False
    then show ?thesis
      using tier1_sweep_points [of "sa_scopes args" "plain events" "sa_ttl_hours args" "sa_cache_sizes args"] tier1
        baseline_total [OF known] by (auto simp: sim_main_def load)
  qed
qed

theorem study_of_sample_witness:
  "\<exists>events xorbs gib table. sample_main least_rng () = Inr (events, xorbs, gib) \<and>
     sim_main (\<lambda>p. Inr (plain events)) (\<lambda>p. Inr xorbs) ''events.parquet'' default_args = Inr table \<and> length (table_points table) = 15"
proof (rule sample_main_ok [OF least_rng_ok, of "()"])
  fix catalog g' rws
  assume run: "sample_main least_rng () = Inr (\<lparr>frame_columns = SAMPLE_COLUMNS, frame_rows = rws\<rparr>, make_xorb_map catalog,
      sum_list (map en_size_gib catalog))"
  have args: "set (sa_scopes default_args) \<subseteq> set scopes" "list_all (\<lambda>size_gib. 0 \<le> size_gib) (sa_cache_sizes default_args)"
      "sa_tier2 default_args \<Longrightarrow> sa_xorb_map default_args \<noteq> None"
      "length (List.product (sa_scopes default_args) (sa_cache_sizes default_args)) = 15"
    by (simp_all add: default_args_def scopes_def)
  from study_of_sample [OF least_rng_ok run args(1-3)] args(4) run show ?thesis by metis
qed

section \<open>The two revisions of the first model\<close>

lemma catalog_same_size:
  "distinct is \<Longrightarrow> e \<in> set (fst (catalog_from r is g)) \<Longrightarrow> e' \<in> set (fst (catalog_from r is g)) \<Longrightarrow> en_idx e = en_idx e' \<Longrightarrow>
    en_size_gib e = en_size_gib e'"
proof (induction "is" arbitrary: g)
  case (Cons i "is")
  have "en_idx d \<in> set is" if "d \<in> set (fst (catalog_from r is g))" for d g
    using that by (induction "is" arbitrary: g) (auto simp: case_prod_beta)
  then show ?case using Cons by (fastforce simp: case_prod_beta)
qed simp

text \<open>The second revision of the first model has as many xorbs as the first, and shares with it exactly the share that is meant,
  rounded down.\<close>

theorem sample_dedup_share:
  assumes "build_catalog r g = (catalog, g')" and "e1 \<in> set catalog" and "e2 \<in> set catalog"
    and "en_idx e1 = DEDUP_MODEL_IDX" "en_revision e1 = ''r1''" and "en_idx e2 = DEDUP_MODEL_IDX" "en_revision e2 = ''r2''"
    and "en_repo_id e1 = en_repo_id e2"
  shows "length (entry_xorbs e1) = length (entry_xorbs e2) \<and>
    int (length (filter (\<lambda>x. xr_hash x \<in> xr_hash ` set (entry_xorbs e1)) (entry_xorbs e2))) =
      \<lfloor>of_nat (length (entry_xorbs e2)) * DEDUP_SHARE\<rfloor>"
proof -
  let ?n = "xorb_count e2" and ?k = "nat \<lfloor>of_nat (xorb_count e2) * DEDUP_SHARE\<rfloor>"
  have "en_size_gib e1 = en_size_gib e2"
    by (rule catalog_same_size [of "[0..<N_MODELS]" e1 r g]) (use assms in \<open>simp_all add: build_catalog_def\<close>)
  then have same: "xorb_count e1 = ?n" by (simp add: xorb_count_def)
  have bound: "0 \<le> \<lfloor>of_nat ?n * DEDUP_SHARE\<rfloor>" "\<lfloor>of_nat ?n * DEDUP_SHARE\<rfloor> \<le> int ?n"
  proof -
    have "of_nat ?n * DEDUP_SHARE \<le> (of_nat ?n :: rat)" by (simp add: DEDUP_SHARE_def)
    then show "\<lfloor>of_nat ?n * DEDUP_SHARE\<rfloor> \<le> int ?n" by (metis floor_mono floor_of_nat)
  qed (simp add: DEDUP_SHARE_def)
  have fresh: "\<not> reused e1 i" for i using assms(5) by (simp add: reused_def)
  have hash: "xorb_name e2 i \<in> xorb_name e1 ` {0..<?n} \<longleftrightarrow> reused e2 i" if "i < ?n" for i
  proof
    assume "reused e2 i"
    then have "xorb_name e2 i = xorb_name e1 i" using fresh assms(5,8) by (simp add: xorb_name_def)
    then show "xorb_name e2 i \<in> xorb_name e1 ` {0..<?n}" using that by auto
  next
    assume "xorb_name e2 i \<in> xorb_name e1 ` {0..<?n}"
    then obtain j where "xorb_name e2 i = xorb_name e1 j" by auto
    then show "reused e2 i" using fresh [of j] assms(5,7,8) by (cases "reused e2 i") (simp_all add: xorb_name_def)
  qed
  have "filter (\<lambda>i. xorb_name e2 i \<in> xorb_name e1 ` {0..<?n}) [0..<?n] = filter (\<lambda>i. int i < \<lfloor>of_nat ?n * DEDUP_SHARE\<rfloor>) [0..<?n]"
    by (rule filter_cong) (use hash assms(6,7) in \<open>auto simp: reused_def\<close>)
  moreover have "length (filter (\<lambda>i. int i < \<lfloor>of_nat ?n * DEDUP_SHARE\<rfloor>) [0..<?n]) = ?k"
  proof -
    have "length (filter (\<lambda>i. i < k) [0..<n]) = min k n" for k n :: nat
      by (induction n) auto
    moreover have "int i < \<lfloor>of_nat ?n * DEDUP_SHARE\<rfloor> \<longleftrightarrow> i < ?k" for i using bound(1) by linarith
    ultimately show ?thesis using bound by simp
  qed
  ultimately show ?thesis
    using bound(1) same by (simp add: entry_xorbs_def filter_map comp_def image_image)
qed

definition first_entry :: "string \<Rightarrow> entry" where
  "first_entry rvn = \<lparr>en_idx = 0, en_repo_id = repo_name 0, en_revision = rvn, en_size_gib = 7\<rparr>"

theorem sample_dedup_share_witness:
  "int (length (filter (\<lambda>x. xr_hash x \<in> xr_hash ` set (entry_xorbs (first_entry ''r1''))) (entry_xorbs (first_entry ''r2'')))) = 4"
proof -
  have "[0..<N_MODELS] = 0 # [Suc 0..<N_MODELS]" by (rule upt_conv_Cons) (simp add: N_MODELS_def)
  then have first: "first_entry ''r1'' \<in> set (fst (build_catalog least_rng ()))" "first_entry ''r2'' \<in> set (fst (build_catalog least_rng ()))"
    by (simp_all add: build_catalog_def revisions_of_def DEDUP_MODEL_IDX_def first_entry_def least_rng_def SIZE_CHOICES_GIB_def case_prod_beta)
  have "length (entry_xorbs (first_entry ''r2'')) = 5" by code_simp
  then show ?thesis
    using sample_dedup_share [OF surjective_pairing first] by (simp add: first_entry_def DEDUP_MODEL_IDX_def DEDUP_SHARE_def)
qed

end
