(* ===== verification/E2e.thy ===== *)
theory E2e
  imports Scrape Report_Text
begin

text \<open>
  \<open>deploy/e2e\<close>: the harness that boots a stack of cache nodes, the scenarios that drive
  downloads through it, the report that collects their checks, and \<open>main\<close>. Docker, the
  worker process, the metrics and health requests and the clocks are parameters; what is
  printed to the console is left out, the report is not.
\<close>

section \<open>The harness\<close>

text \<open>\<open>run_command\<close> is \<open>sh\<close> (the flag is \<open>check\<close>), \<open>port_health\<close> gives \<open>None\<close> for the exceptions that
  \<open>wait_healthy\<close> catches, \<open>wipe\<close> is the container that empties a cache.\<close>

record 'e stack =
  run_command :: "string list \<Rightarrow> bool \<Rightarrow> ('e, string) io"
  run_worker :: "string list \<Rightarrow> ('e, int \<times> string \<times> string) io"
  port_metrics :: "int \<Rightarrow> ('e, (string, json) pydict) io"
  port_health :: "int \<Rightarrow> ('e, int option) io"
  wipe :: "string \<Rightarrow> ('e, unit) io"
  stack_clock :: "'e \<Rightarrow> rat"
  monotonic :: "'e \<Rightarrow> rat"
  pause :: "rat \<Rightarrow> ('e, unit) io"
  repo_commits :: "string \<Rightarrow> string \<Rightarrow> ('e, string list) io"
  loads_dict :: "string \<Rightarrow> (string, string) pydict res"

definition SMOL_REPO :: string where
  "SMOL_REPO = ''HuggingFaceTB/SmolLM2-1.7B-Instruct''"

definition E2E_REV :: string where "E2E_REV = ''main''"
definition E2E_FILE :: string where "E2E_FILE = ''model.safetensors''"
definition QWEN_REPO :: string where "QWEN_REPO = ''Qwen/Qwen2.5-3B-Instruct''"

definition NODES :: "(string, int) pydict" where
  "NODES = [(''node-a'', 8001), (''node-b'', 8002), (''node-c'', 8003), (''node-evict'', 8004)]"

definition compose :: "string list \<Rightarrow> string list" where
  "compose args = [''docker'', ''compose'', ''-f'', ''docker-compose.yml''] @ args"

definition worker :: "'e stack \<Rightarrow> string list \<Rightarrow> ('e, string) io" where
  "worker k args =
    bind_call (run_worker k args) (\<lambda>(code, out, err).
      if code \<noteq> 0 then throw (RuntimeError (hd args @ '' ('' @ join_text '', '' (map py_repr (tl args)) @ '') failed:'' @ [CHR 0x0A] @ err))
      else case split_lines (strip_text out) of
             [] \<Rightarrow> throw IndexError
           | ls \<Rightarrow> pure (last ls))"

definition download :: "'e stack \<Rightarrow> string \<Rightarrow> string \<Rightarrow> ('e, string) io" where
  "download k endpoint rvn = worker k [''--file'', SMOL_REPO, rvn, E2E_FILE, endpoint]"

definition timed_download :: "'e stack \<Rightarrow> string \<Rightarrow> string \<Rightarrow> ('e, string \<times> rat) io" where
  "timed_download k endpoint rvn =
    bind_call (look (monotonic k)) (\<lambda>t0.
    bind_call (download k endpoint rvn) (\<lambda>sha.
    bind_call (look (monotonic k)) (\<lambda>t1. pure (sha, t1 - t0))))"

definition snapshot :: "'e stack \<Rightarrow> string \<Rightarrow> string \<Rightarrow> string \<Rightarrow> ('e, (string, string) pydict) io" where
  "snapshot k endpoint repo rvn =
    bind_call (worker k [''--snapshot'', repo, rvn, endpoint]) (\<lambda>line. lift_res (loads_dict k line))"

definition metric_delta :: "(string, json) pydict \<Rightarrow> (string, json) pydict \<Rightarrow> string \<Rightarrow> int res" where
  "metric_delta before after key =
    res_bind (json_int (dict_get key (JInt 0) after)) (\<lambda>a.
    res_bind (json_int (dict_get key (JInt 0) before)) (\<lambda>b. Inr (a - b)))"

text \<open>\<open>f"{n:,}"\<close> of digits, and \<open>rate\<close>.\<close>

fun commas_rev :: "string \<Rightarrow> string" where
  "commas_rev (a # b # c # d # s) = a # b # c # CHR '','' # commas_rev (d # s)"
| "commas_rev s = s"

definition rate :: "int \<Rightarrow> rat \<Rightarrow> string" where
  "rate nbytes seconds =
    (let mbps = of_int nbytes / max seconds (1 / 1000000) / 1000000
     in fixed_text 1 seconds @ ''s ('' @
        (if mbps < 0 then ''-'' else []) @ rev (commas_rev (rev (fixed_text 0 \<bar>mbps\<bar>))) @ '' MB/s)'')"

definition reset_cache :: "'e stack \<Rightarrow> string \<Rightarrow> ('e, unit) io" where
  "reset_cache k node = wipe k (if starts_with ''node-'' node then drop 5 node else node)"

text \<open>60 seconds in steps of one, for all nodes together (\<open>poll_until\<close> looks at the clock after a failure).\<close>

definition HEALTH_POLLS :: nat where
  "HEALTH_POLLS = 62"

definition never_healthy :: "string \<Rightarrow> int \<Rightarrow> pyerr" where
  "never_healthy name port = TimeoutError (name @ '' (port '' @ str_int port @ '') never became healthy'')"

definition wait_node :: "'e stack \<Rightarrow> rat \<Rightarrow> string \<times> int \<Rightarrow> ('e, unit) io" where
  "wait_node k deadline np =
    poll_until HEALTH_POLLS (stack_clock k) deadline
      (bind_call (port_health k (snd np)) (\<lambda>status.
        pure (if status = Some 200 then Inr () else Inl (never_healthy (fst np) (snd np)))))
      (pause k 1)"

definition wait_healthy :: "'e stack \<Rightarrow> string list \<Rightarrow> ('e, unit) io" where
  "wait_healthy k nodes =
    bind_call (lift_res (if nodes = [] then Inr NODES
        else res_map (dict_update []) (map_res (\<lambda>n. res_map (\<lambda>p. (n, p)) (dict_item n NODES)) nodes))) (\<lambda>targets.
    bind_call (look (stack_clock k)) (\<lambda>t0.
      for_each (wait_node k (t0 + 60)) targets))"

definition bring_up :: "'e stack \<Rightarrow> string list \<Rightarrow> ('e, unit) io" where
  "bring_up k nodes =
    then_call (bind_call (run_command k (compose ([''up'', ''-d''] @ nodes)) True) (\<lambda>_. pure ())) (wait_healthy k nodes)"

section \<open>The report\<close>

record 'e run_report =
  report_rows :: "(string \<times> bool \<times> string) list"
  report_notes :: "string list"
  stack_world :: 'e

definition within_stack :: "('e, 'a) io \<Rightarrow> ('e run_report, 'a) io" where
  "within_stack m = (\<lambda>s. case m (stack_world s) of (r, w) \<Rightarrow> (r, s\<lparr>stack_world := w\<rparr>))"

definition check :: "string \<Rightarrow> bool \<Rightarrow> string \<Rightarrow> ('e run_report, unit) io" where
  "check name ok detail = change (\<lambda>s. s\<lparr>report_rows := report_rows s @ [(name, ok, detail)]\<rparr>)"

definition add_note :: "string \<Rightarrow> ('e run_report, unit) io" where
  "add_note line = change (\<lambda>s. s\<lparr>report_notes := report_notes s @ [line]\<rparr>)"

definition report_ok :: "(string \<times> bool \<times> string) list \<Rightarrow> bool" where
  "report_ok rws \<longleftrightarrow> list_all (\<lambda>(name, ok, detail). ok) rws"

definition pass_fail :: "bool \<Rightarrow> string" where
  "pass_fail ok = (if ok then ''PASS'' else ''FAIL'')"

definition to_markdown ::
  "string \<Rightarrow> string \<Rightarrow> string list \<Rightarrow> (string \<times> bool \<times> string) list \<Rightarrow> string list \<Rightarrow> string list" where
  "to_markdown ts model scenarios rws notes =
    [''# xet-dc-cache e2e report '' @ em_dash @ '' '' @ ts, [],
     ''- **RESULT: '' @ pass_fail (report_ok rws) @ ''** ('' @ str_nat (length (filter (\<lambda>(n, ok, d). ok) rws)) @ ''/'' @
       str_nat (length rws) @ '' checks passed)'',
     ''- Primary model: '' @ model, ''- Scenarios: '' @ join_text '', '' scenarios, []] @
    (if notes \<noteq> [] then [''## Timing'', [], ''```''] @ notes @ [''```'', []] else []) @
    [''## Checks'', [], ''| check | result | detail |'', ''|---|---|---|''] @
    map (\<lambda>(n, ok, d). ''| '' @ n @ '' | '' @ pass_fail ok @ '' | '' @ d @ '' |'') rws @ [[]]"

definition bytes_detail :: "string \<Rightarrow> int \<Rightarrow> string" where
  "bytes_detail key n = key @ '' +'' @ str_int n"

section \<open>The scenarios\<close>

text \<open>\<open>d == e\<close> of dictionaries: the same keys with the same values, in any order.\<close>

definition dict_eq :: "(string, string) pydict \<Rightarrow> (string, string) pydict \<Rightarrow> bool" where
  "dict_eq d e \<longleftrightarrow> list_all (\<lambda>(k, v). map_of e k = Some v) d \<and> list_all (\<lambda>(k, v). map_of d k = Some v) e"

definition node_url :: "int \<Rightarrow> string" where
  "node_url port = ''http://127.0.0.1:'' @ str_int port"

definition snapshot_run :: "'e stack \<Rightarrow> ('e run_report, unit) io" where
  "snapshot_run k =
    bind_call (within_stack (snapshot k ''DIRECT'' SMOL_REPO E2E_REV)) (\<lambda>truth.
    then_call (within_stack (bring_up k [''node-a'']))
   (then_call (within_stack (reset_cache k ''node-a''))
   (bind_call (within_stack (port_metrics k 8001)) (\<lambda>before.
    bind_call (try_call (bind_call (within_stack (snapshot k (node_url 8001) SMOL_REPO E2E_REV)) (\<lambda>got. pure (Some got)))
        (\<lambda>e. then_call (check ''s#1 snapshot completed through shim'' False (take 200 (err_text e))) (pure None)))
      (\<lambda>got. case got of
          None \<Rightarrow> pure ()
        | Some files \<Rightarrow>
            bind_call (within_stack (port_metrics k 8001)) (\<lambda>after.
            then_call (check ''s#1 snapshot completed through shim'' True [])
           (then_call (check ''s#1 every file byte-identical incl non-LFS companions''
                (dict_eq files truth) (str_nat (length files) @ '' files''))
           (bind_call (lift_res (metric_delta before after ''wan_bytes'')) (\<lambda>d_wan.
              check ''s#1 LFS bytes flowed through the shim'' (0 < d_wan) (bytes_detail ''wan_bytes'' d_wan))))))))))"

text \<open>The downloads of the pool all run; the first exception, in the order of the callers, is raised after that.\<close>

definition pool_downloads :: "'e stack \<Rightarrow> nat \<Rightarrow> ('e, string list) io" where
  "pool_downloads k n =
    bind_call (map_each (\<lambda>i. try_call (bind_call (download k (node_url 8001) E2E_REV) (\<lambda>sha. pure (Inr sha)))
        (\<lambda>e. pure (Inl e))) [0..<n]) (\<lambda>rs. lift_res (map_res (\<lambda>r. r) rs))"

definition CALLERS :: nat where "CALLERS = 6"

definition concurrency_run :: "'e stack \<Rightarrow> ('e run_report, unit) io" where
  "concurrency_run k =
    bind_call (within_stack (download k ''DIRECT'' E2E_REV)) (\<lambda>truth.
    then_call (within_stack (bring_up k [''node-a'']))
   (then_call (within_stack (reset_cache k ''node-a''))
   (bind_call (within_stack (port_metrics k 8001)) (\<lambda>before.
    bind_call (within_stack (pool_downloads k CALLERS)) (\<lambda>shas.
    bind_call (within_stack (port_metrics k 8001)) (\<lambda>after.
    bind_call (lift_res (metric_delta before after ''wan_bytes'')) (\<lambda>d_wan.
    bind_call (lift_res (metric_delta before after ''served_bytes'')) (\<lambda>d_served.
    then_call (check (''s#3 all '' @ str_nat CALLERS @ '' callers got identical bytes'') (list_all (\<lambda>s. s = truth) shas) [])
      (check ''s#3 concurrent cold fetches collapsed (wan << served)'' (0 < d_wan \<and> 2 * d_wan \<le> d_served)
        (bytes_detail ''wan_bytes'' d_wan @ '' vs '' @ bytes_detail ''served_bytes'' d_served))))))))))"

definition eviction_run :: "'e stack \<Rightarrow> ('e run_report, unit) io" where
  "eviction_run k =
    bind_call (within_stack (download k ''DIRECT'' E2E_REV)) (\<lambda>truth.
    then_call (within_stack (bring_up k [''node-evict'']))
   (then_call (within_stack (reset_cache k ''node-evict''))
   (bind_call (within_stack (download k (node_url 8004) E2E_REV)) (\<lambda>sha1.
    then_call (check ''s#4 first pull byte-identical'' (sha1 = truth) [])
   (bind_call (within_stack (port_metrics k 8004)) (\<lambda>before.
    bind_call (within_stack (download k (node_url 8004) E2E_REV)) (\<lambda>sha2.
    bind_call (within_stack (port_metrics k 8004)) (\<lambda>after.
    bind_call (lift_res (metric_delta before after ''misses'')) (\<lambda>d_miss.
    then_call (check ''s#4 re-pull re-fetched evicted xorbs (eviction happened)'' (0 < d_miss) (bytes_detail ''misses'' d_miss))
      (check ''s#4 bytes still identical after eviction (no false HIT)'' (sha2 = truth) []))))))))))"

definition sharded_run :: "'e stack \<Rightarrow> ('e run_report, unit) io" where
  "sharded_run k =
    (let nodes = [''node-a'', ''node-b'', ''node-c'']
     in bind_call (within_stack (snapshot k ''DIRECT'' QWEN_REPO ''main'')) (\<lambda>truth.
        then_call (within_stack (bring_up k nodes))
       (then_call (within_stack (for_each (reset_cache k) nodes))
       (bind_call (within_stack (port_metrics k 8003)) (\<lambda>before.
        bind_call (within_stack (snapshot k (node_url 8003) QWEN_REPO ''main'')) (\<lambda>cold.
        bind_call (within_stack (port_metrics k 8003)) (\<lambda>after.
        then_call (check ''s#2 cold manifest byte-identical'' (dict_eq cold truth) (str_nat (length cold) @ '' files''))
       (bind_call (lift_res (metric_delta before after ''wan_bytes'')) (\<lambda>d_wan.
        then_call (check ''s#2 cold pulled shard bytes from WAN'' (0 < d_wan) (bytes_detail ''wan_bytes'' d_wan))
       (bind_call (lift_res (metric_delta before after ''peer_bytes'')) (\<lambda>d_peer.
        then_call (check ''s#2 cold took nothing from a peer'' (d_peer = 0) [])
       (bind_call (within_stack (port_metrics k 8001)) (\<lambda>before2.
        bind_call (within_stack (snapshot k (node_url 8001) QWEN_REPO ''main'')) (\<lambda>warm.
        bind_call (within_stack (port_metrics k 8001)) (\<lambda>after2.
        then_call (check ''s#2 peer manifest byte-identical'' (dict_eq warm truth) [])
       (bind_call (lift_res (metric_delta before2 after2 ''peer_bytes'')) (\<lambda>d_peer2.
          check ''s#2 shards served from a peer'' (0 < d_peer2) (bytes_detail ''peer_bytes'' d_peer2))))))))))))))))))"

text \<open>Peering: the four parts, each from the two metrics readings around its pull.\<close>

definition older_identical_rev :: "'e stack \<Rightarrow> ('e, string option) io" where
  "older_identical_rev k =
    bind_call (repo_commits k SMOL_REPO E2E_REV) (\<lambda>cs. pure (case tl cs of [] \<Rightarrow> None | c # _ \<Rightarrow> Some c))"

definition peering_wan :: "'e stack \<Rightarrow> string \<Rightarrow> ('e run_report, int \<times> rat) io" where
  "peering_wan k truth =
    bind_call (within_stack (port_metrics k 8003)) (\<lambda>before.
    bind_call (within_stack (timed_download k (node_url 8003) E2E_REV)) (\<lambda>(sha, dt_wan).
    bind_call (within_stack (port_metrics k 8003)) (\<lambda>after.
    bind_call (lift_res (metric_delta before after ''wan_bytes'')) (\<lambda>d_wan.
    bind_call (lift_res (metric_delta before after ''peer_misses'')) (\<lambda>d_miss.
    bind_call (lift_res (metric_delta before after ''peer_bytes'')) (\<lambda>d_peer.
    then_call (check ''s1 bytes identical'' (sha = truth) [])
   (then_call (check ''s1 pulled from WAN'' (0 < d_wan) (bytes_detail ''wan_bytes'' d_wan))
   (then_call (check ''s1 peers probed and missed'' (0 < d_miss) (bytes_detail ''peer_misses'' d_miss))
   (then_call (check ''s1 nothing came from a peer'' (d_peer = 0) (bytes_detail ''peer_bytes'' d_peer))
      (pure (d_wan, dt_wan)))))))))))"

definition peering_warm :: "'e stack \<Rightarrow> string \<Rightarrow> ('e run_report, rat) io" where
  "peering_warm k truth =
    bind_call (within_stack (port_metrics k 8001)) (\<lambda>before.
    bind_call (within_stack (timed_download k (node_url 8001) E2E_REV)) (\<lambda>(sha, dt_peer).
    bind_call (within_stack (port_metrics k 8001)) (\<lambda>after.
    bind_call (lift_res (metric_delta before after ''peer_bytes'')) (\<lambda>d_peer.
    bind_call (lift_res (metric_delta before after ''wan_bytes'')) (\<lambda>d_wan.
    then_call (check ''s2 bytes identical'' (sha = truth) [])
   (then_call (check ''s2 served from a peer'' (0 < d_peer) (bytes_detail ''peer_bytes'' d_peer))
   (then_call (check ''s2 peer displaced WAN (peer_bytes >= wan_bytes)'' (d_wan \<le> d_peer)
        (bytes_detail ''peer_bytes'' d_peer @ '' vs '' @ bytes_detail ''wan_bytes'' d_wan))
      (pure dt_peer))))))))"

definition peering_resilience :: "'e stack \<Rightarrow> string \<Rightarrow> ('e run_report, unit) io" where
  "peering_resilience k truth =
    bind_call (within_stack (run_command k (compose [''stop'', ''node-b'', ''node-c'']) True)) (\<lambda>_.
    then_call (within_stack (reset_cache k ''node-a''))
   (bind_call (within_stack (port_metrics k 8001)) (\<lambda>before.
    bind_call (within_stack (download k (node_url 8001) E2E_REV)) (\<lambda>sha.
    bind_call (within_stack (port_metrics k 8001)) (\<lambda>after.
    bind_call (lift_res (metric_delta before after ''wan_bytes'')) (\<lambda>d_wan.
    bind_call (lift_res (metric_delta before after ''peer_bytes'')) (\<lambda>d_peer.
    then_call (check ''s3 completed with peers down'' (sha = truth) [])
   (then_call (check ''s3 fell back to WAN'' (0 < d_wan) (bytes_detail ''wan_bytes'' d_wan))
      (check ''s3 got nothing from (dead) peers'' (d_peer = 0) (bytes_detail ''peer_bytes'' d_peer))))))))))"

definition peering_revision :: "'e stack \<Rightarrow> string \<Rightarrow> ('e run_report, rat option) io" where
  "peering_revision k truth =
    bind_call (within_stack (older_identical_rev k)) (\<lambda>other. case other of
        None \<Rightarrow> then_call (check ''s4 has an earlier revision to test'' False (SMOL_REPO @ '' has only one commit''))
                  (pure None)
      | Some rvn \<Rightarrow>
          bind_call (within_stack (port_metrics k 8001)) (\<lambda>before.
          bind_call (within_stack (timed_download k (node_url 8001) rvn)) (\<lambda>(sha, dt_cache).
          bind_call (within_stack (port_metrics k 8001)) (\<lambda>after.
          bind_call (lift_res (metric_delta before after ''wan_bytes'')) (\<lambda>d_wan.
          bind_call (lift_res (metric_delta before after ''hits'')) (\<lambda>d_hits.
          bind_call (lift_res (metric_delta before after ''peer_bytes'')) (\<lambda>d_peer.
          then_call (check ''s4 same bytes at a different revision'' (sha = truth)
              (''rev '' @ take 10 rvn @ '' identical to '' @ E2E_REV))
         (then_call (check (''s4 served from cache -- zero new WAN'') (d_wan = 0) (bytes_detail ''wan_bytes'' d_wan))
         (then_call (check ''s4 registered shim cache hits'' (0 < d_hits) (bytes_detail ''hits'' d_hits))
         (then_call (check (''s4 was the shim'' @ [CHR 0x27] @ ''s own cache, not a peer'') (d_peer = 0) (bytes_detail ''peer_bytes'' d_peer))
            (pure (Some dt_cache))))))))))))"

definition timing_lines :: "int \<Rightarrow> rat \<Rightarrow> rat \<Rightarrow> rat option \<Rightarrow> string list" where
  "timing_lines size_b dt_wan dt_peer dt_cache =
    (let faster = (\<lambda>dt. ''   -> '' @ fixed_text 1 (dt_wan / max dt (1 / 1000000)) @ ''x faster than WAN'')
     in [''timing ('' @ fixed_text 2 (of_int size_b / 2 ^ 30) @ '' GiB file, same bytes each pull):'',
         ''  WAN cold pull (s1):   '' @ rate size_b dt_wan,
         ''  peer warm hit (s2):   '' @ rate size_b dt_peer @ faster dt_peer] @
        (case dt_cache of None \<Rightarrow> [] | Some dt \<Rightarrow> [''  local cache hit (s4): '' @ rate size_b dt @ faster dt]) @
        [''  (local loopback overstates LAN speed vs a real DC backbone,'' @ '' but the direction '' @ em_dash @
         '' cache/peer >> WAN '' @ em_dash @ '' is the point.)''])"

definition peering_run :: "'e stack \<Rightarrow> ('e run_report, unit) io" where
  "peering_run k =
    (let nodes = [''node-a'', ''node-b'', ''node-c'']
     in then_call (within_stack (bring_up k nodes))
       (then_call (within_stack (for_each (reset_cache k) nodes))
       (bind_call (within_stack (download k ''DIRECT'' E2E_REV)) (\<lambda>truth.
        bind_call (peering_wan k truth) (\<lambda>(size_b, dt_wan).
        bind_call (peering_warm k truth) (\<lambda>dt_peer.
        then_call (peering_resilience k truth)
       (bind_call (peering_revision k truth) (\<lambda>dt_cache.
          for_each add_note (timing_lines size_b dt_wan dt_peer dt_cache)))))))))"

section \<open>Selecting scenarios\<close>

definition SCENARIO_NAMES :: "string list" where
  "SCENARIO_NAMES = [''peering'', ''snapshot'', ''sharded'', ''concurrency'', ''eviction'']"

definition scenario_order :: "'e stack \<Rightarrow> (string \<times> ('e run_report, unit) io) list" where
  "scenario_order k = [(''peering'', peering_run k), (''snapshot'', snapshot_run k), (''sharded'', sharded_run k),
     (''concurrency'', concurrency_run k), (''eviction'', eviction_run k)]"

definition parse_scenarios :: "string option \<Rightarrow> string list res" where
  "parse_scenarios env =
    (case env of
       None \<Rightarrow> Inr SCENARIO_NAMES
     | Some t \<Rightarrow>
         if strip_text t = [] then Inr SCENARIO_NAMES
         else (let selected = filter (\<lambda>s. s \<noteq> []) (map strip_text (split_text CHR '','' t));
                   unknown = filter (\<lambda>s. s \<notin> set SCENARIO_NAMES) selected
               in if unknown \<noteq> []
                  then Inl (ValueError (''unknown E2E_SCENARIOS: '' @ join_text '', '' unknown @ ''; valid: '' @
                         join_text '', '' SCENARIO_NAMES))
                  else Inr selected))"

section \<open>A run\<close>

text \<open>\<open>stdout.split()\<close>.\<close>

fun words_from :: "string \<Rightarrow> string \<Rightarrow> string list" where
  "words_from cur [] = (if cur = [] then [] else [cur])"
| "words_from cur (x # s) =
    (if is_space x then (if cur = [] then words_from [] s else cur # words_from [] s) else words_from (cur @ [x]) s)"

definition run_scenarios :: "'e stack \<Rightarrow> string list \<Rightarrow> ('e run_report, unit) io" where
  "run_scenarios k selected = for_each snd (filter (\<lambda>ns. fst ns \<in> set selected) (scenario_order k))"

text \<open>The \<open>try\<close> of \<open>main\<close> in two parts: up to \<open>started = True\<close>, and from there, which is what the \<open>finally\<close> undoes.\<close>

definition start_stack :: "'e stack \<Rightarrow> ('e run_report, string list) io" where
  "start_stack k =
    bind_call (within_stack (run_command k (compose [''config'', ''--services'']) True)) (\<lambda>out.
      let active = words_from [] out; nodes = filter (\<lambda>n. n \<in> set active) (dict_keys NODES)
      in then_call (for_each (\<lambda>n. within_stack (reset_cache k n)) nodes)
        (bind_call (within_stack (run_command k (compose [''up'', ''-d'', ''--build'']) True)) (\<lambda>_. pure nodes)))"

definition drive_stack :: "'e stack \<Rightarrow> string list \<Rightarrow> string list \<Rightarrow> ('e run_report, nat) io" where
  "drive_stack k selected nodes =
    then_call (within_stack (wait_healthy k nodes))
   (then_call (run_scenarios k selected)
     (look (\<lambda>s. if report_ok (report_rows s) then 0 else 1)))"

definition stop_stack :: "'e stack \<Rightarrow> ('e run_report, string) io" where
  "stop_stack k = within_stack (run_command k (compose [''down'']) False)"

definition e2e_main :: "'e stack \<Rightarrow> string option \<Rightarrow> ('e run_report, nat) io" where
  "e2e_main k env =
    bind_call (lift_res (parse_scenarios env)) (\<lambda>selected.
    bind_call (start_stack k) (\<lambda>nodes s.
      case drive_stack k selected nodes s of
        (r, s') \<Rightarrow> (case stop_stack k s' of (Inl e, s'') \<Rightarrow> (Inl e, s'') | (Inr _, s'') \<Rightarrow> (r, s''))))"

section \<open>What a run says\<close>

lemma rows_within: "report_rows (snd (within_stack m s)) = report_rows s"
  by (simp add: within_stack_def split: prod.split)

text \<open>No scenario takes a check back: the rows of a report only grow.\<close>

definition rows_from :: "(string \<times> bool \<times> string) list \<Rightarrow> 'e run_report \<Rightarrow> bool" where
  "rows_from rws s \<longleftrightarrow> prefix rws (report_rows s)"

lemma rows_kept [keeps_intros]: "keeps (rows_from rws) (within_stack m)"
  and check_kept [keeps_intros]: "keeps (rows_from rws) (check name ok detail)"
  and note_kept [keeps_intros]: "keeps (rows_from rws) (add_note line)"
  by (auto simp: keeps_def rows_from_def rows_within check_def add_note_def)

lemma keeps_option [keeps_intros]:
  "keeps P m \<Longrightarrow> (\<And>x. keeps P (f x)) \<Longrightarrow> keeps P (case o' of None \<Rightarrow> m | Some x \<Rightarrow> f x)"
  by (cases o') simp_all

lemma scenarios_keep_rows:
  "keeps (rows_from rws) (snapshot_run k)" "keeps (rows_from rws) (concurrency_run k)"
  "keeps (rows_from rws) (eviction_run k)" "keeps (rows_from rws) (sharded_run k)"
  "keeps (rows_from rws) (peering_wan k t)" "keeps (rows_from rws) (peering_warm k t)"
  "keeps (rows_from rws) (peering_resilience k t)" "keeps (rows_from rws) (peering_revision k t)"
  unfolding snapshot_run_def concurrency_run_def eviction_run_def sharded_run_def peering_wan_def peering_warm_def
    peering_resilience_def peering_revision_def Let_def case_prod_unfold
  by (intro keeps_intros)+

lemma drive_result:
  assumes "drive_stack k selected nodes s = (Inr code, s')"
  shows "code = (if report_ok (report_rows s') then 0 else 1)"
  using assms by (auto simp: drive_stack_def run_then split: prod.splits sum.splits)


text \<open>A snapshot through the shim that fails is a failed check, not the end of the run.\<close>

theorem snapshot_failure_recorded:
  assumes "snapshot k ''DIRECT'' SMOL_REPO E2E_REV (stack_world s) = (Inr truth, w1)"
    and "bring_up k [''node-a''] w1 = (Inr (), w2)" and "reset_cache k ''node-a'' w2 = (Inr (), w3)"
    and "port_metrics k 8001 w3 = (Inr before, w4)"
    and "snapshot k (node_url 8001) SMOL_REPO E2E_REV w4 = (Inl e, w5)"
  shows "\<exists>s'. snapshot_run k s = (Inr (), s') \<and> \<not> report_ok (report_rows s') \<and> stack_world s' = w5"
  using assms
  by (simp add: snapshot_run_def run_bind run_then run_try within_stack_def check_def report_ok_def)

section \<open>A run comes to an end\<close>

text \<open>What a run takes of the stack: every request is answered, with a value or an exception, and the clock does not go back
  and moves on by a second at each pause.\<close>

definition stack_answers :: "'e stack \<Rightarrow> bool" where
  "stack_answers k \<longleftrightarrow> (\<forall>args chk. answers (run_command k args chk)) \<and> (\<forall>args. answers (run_worker k args)) \<and>
    (\<forall>p. answers (port_metrics k p)) \<and> (\<forall>d. answers (wipe k d)) \<and> (\<forall>r v. answers (repo_commits k r v)) \<and>
    (\<forall>t. fine (loads_dict k t)) \<and>
    (\<forall>p. moves_on (stack_clock k) 0 (port_health k p)) \<and> moves_on (stack_clock k) 1 (pause k 1)"

lemma health_moves_on:
  assumes "stack_answers k"
  shows "moves_on (stack_clock k) 0 (bind_call (port_health k (snd np)) (\<lambda>status.
    pure (if status = Some 200 then Inr () else Inl (never_healthy (fst np) (snd np)))))"
  by (intro moves_on_intros) (use assms in \<open>simp add: stack_answers_def\<close>)

lemma wait_node_returns:
  assumes "stack_answers k" and "t0 \<le> stack_clock k w"
  shows "fst (wait_node k (t0 + 60) np w) \<noteq> Inl OutOfFuel"
proof -
  have polls: "HEALTH_POLLS = Suc 61" by (simp add: HEALTH_POLLS_def)
  show ?thesis
    unfolding wait_node_def polls
  proof (rule poll_until_returns [where step = 1])
    fix w e w'
    assume "bind_call (port_health k (snd np)) (\<lambda>status.
      pure (if status = Some 200 then Inr () else Inl (never_healthy (fst np) (snd np)))) w = (Inr (Inl e), w')"
    then show "e \<noteq> OutOfFuel"
      by (auto simp: run_bind never_healthy_def split: prod.splits sum.splits if_splits)
  qed (use assms in \<open>simp_all add: health_moves_on, simp add: stack_answers_def\<close>)
qed

lemma moves_on_keeps: "moves_on clock s m \<Longrightarrow> 0 \<le> s \<Longrightarrow> keeps (\<lambda>w. t \<le> clock w) m"
  unfolding keeps_def moves_on_def by (meson add_increasing2 order_refl order_trans)

lemma wait_nodes_return:
  assumes "stack_answers k"
  shows "t0 \<le> stack_clock k w \<Longrightarrow> fst (for_each (wait_node k (t0 + 60)) targets w) \<noteq> Inl OutOfFuel"
proof (induction targets arbitrary: w)
  case (Cons np targets)
  obtain r w1 where w1: "wait_node k (t0 + 60) np w = (r, w1)" by force
  have "keeps (\<lambda>w. t0 \<le> stack_clock k w) (wait_node k (t0 + 60) np)"
    unfolding wait_node_def
    by (rule keeps_poll_until; rule moves_on_keeps)
      (use assms in \<open>auto intro: health_moves_on simp: stack_answers_def\<close>)
  then have "t0 \<le> stack_clock k w1" using Cons.prems w1 by (metis keeps_def snd_conv)
  then show ?case
    using Cons.IH [of w1] wait_node_returns [OF assms Cons.prems, of np] w1 by (cases r) (simp_all add: run_then)
qed simp

lemma wait_healthy_answers:
  assumes "stack_answers k"
  shows "answers (wait_healthy k nodes)"
proof -
  have "fine (res_map f r)" if "fine r" for f :: "'b \<Rightarrow> 'c" and r
    using that by (cases r) (simp_all add: fine_def)
  then have "fine (if nodes = [] then Inr NODES
        else res_map (dict_update []) (map_res (\<lambda>n. res_map (\<lambda>p. (n, p)) (dict_item n NODES)) nodes))"
    by (auto intro: fuel_free)
  then show ?thesis
    unfolding wait_healthy_def
    by (rule answers_bind [OF answers_lift]) (simp add: answers_def run_look_bind wait_nodes_return [OF assms])
qed

lemma answers_within: "answers m \<Longrightarrow> answers (within_stack m)"
  by (auto simp: answers_def within_stack_def split: prod.splits) (metis fst_conv)

lemma answers_report: "answers (check name ok detail)" "answers (add_note line)"
  by (simp_all add: answers_def check_def add_note_def)

lemma fine_metric_delta: "fine (metric_delta before after key)"
  unfolding metric_delta_def by (intro fuel_free)

lemma map_each_results:
  assumes "\<And>x w y w'. f x w = (Inr y, w') \<Longrightarrow> P y"
  shows "map_each f xs w = (Inr ys, w') \<Longrightarrow> list_all P ys"
  using assms by (induction xs arbitrary: ys w) (auto elim!: bind_Inr)

lemma fine_map_res_id: "list_all fine rs \<Longrightarrow> fine (map_res (\<lambda>r. r) rs)"
  by (induction rs) (auto intro: fuel_free)

text \<open>The calls of the harness.\<close>

lemma harness_answers:
  assumes "stack_answers k"
  shows "answers (download k e v)" "answers (snapshot k e r v)" "answers (timed_download k e v)" "answers (reset_cache k n)"
    "answers (bring_up k nodes)" "answers (port_metrics k p)" "answers (run_command k args chk)" "answers (older_identical_rev k)"
    "answers (pool_downloads k n')"
proof -
  note stack = assms [unfolded stack_answers_def]
  have worker: "answers (worker k args)" for args
    unfolding worker_def
    by (auto intro!: answers_intros answers_throw split: list.split) (use stack in simp)
  show download: "answers (download k e v)" for e v unfolding download_def by (rule worker)
  show "answers (snapshot k e r v)"
    unfolding snapshot_def by (intro answers_intros worker) (use stack in simp)
  show "answers (timed_download k e v)"
    unfolding timed_download_def by (intro answers_intros download)
  show "answers (reset_cache k n)" "answers (port_metrics k p)" and command: "answers (run_command k args chk)" for args chk
    using stack by (simp_all add: reset_cache_def)
  show "answers (bring_up k nodes)"
    unfolding bring_up_def by (intro answers_intros command wait_healthy_answers [OF assms])
  show "answers (older_identical_rev k)"
    unfolding older_identical_rev_def by (intro answers_intros) (use stack in simp)
  show "answers (pool_downloads k n')"
    unfolding answers_def pool_downloads_def
  proof (intro allI bind_fuel)
    fix w
    let ?call = "\<lambda>i::nat. try_call (bind_call (download k (node_url 8001) E2E_REV) (\<lambda>sha. pure (Inr sha))) (\<lambda>e. pure (Inl e))"
    show "fst (map_each ?call [0..<n'] w) \<noteq> Inl OutOfFuel"
    proof -
      have "answers (map_each ?call [0..<n'])" by (intro answers_intros answers_try download)
      then show ?thesis by (simp add: answers_def)
    qed
    fix rs w'
    assume run: "map_each ?call [0..<n'] w = (Inr rs, w')"
    have "fine r" if "?call i v = (Inr r, v')" for i v r v'
      using that download [of "node_url 8001" E2E_REV, unfolded answers_def, rule_format, of v]
      by (auto simp: run_try run_bind fine_def split: prod.splits sum.splits)
    then have "list_all fine rs" by (rule map_each_results [OF _ run])
    then show "fst (lift_res (map_res (\<lambda>r. r) rs) w') \<noteq> Inl OutOfFuel"
      using fine_map_res_id [of rs] by (simp add: fine_def)
  qed
qed

lemma scenarios_answer:
  assumes "stack_answers k"
  shows "answers (snapshot_run k)" "answers (concurrency_run k)" "answers (eviction_run k)" "answers (sharded_run k)"
    "answers (peering_run k)"
proof -
  note calls = harness_answers [OF assms]
  note here = answers_intros answers_within answers_report fine_metric_delta calls
  show "answers (concurrency_run k)" "answers (eviction_run k)" "answers (sharded_run k)"
    unfolding concurrency_run_def eviction_run_def sharded_run_def Let_def by (intro here)+
  show "answers (snapshot_run k)"
    unfolding snapshot_run_def by (intro here answers_try) (auto intro!: here split: option.split)
  have wan: "answers (peering_wan k t)" and warm: "answers (peering_warm k t)"
    and resilience: "answers (peering_resilience k t)" for t
    unfolding peering_wan_def peering_warm_def peering_resilience_def case_prod_unfold by (intro here)+
  have "answers (peering_revision k t)" for t
    unfolding peering_revision_def case_prod_unfold
    by (intro answers_bind) (auto intro!: here split: option.split)
  then show "answers (peering_run k)"
    unfolding peering_run_def Let_def case_prod_unfold by (intro here wan warm resilience)
qed

text \<open>On a stack that answers, the end-to-end run comes to its end: no wait for a node outlasts its 60 seconds.\<close>

theorem e2e_main_returns:
  assumes "stack_answers k"
  shows "fst (e2e_main k env s) \<noteq> Inl OutOfFuel"
proof -
  have scenarios: "answers (run_scenarios k selected)" for selected
  proof -
    have "\<forall>sc \<in> set xs. answers (snd sc) \<Longrightarrow> answers (for_each snd xs)" for xs :: "(string \<times> ('e run_report, unit) io) list"
      by (induction xs) (auto intro: answers_then answers_pure)
    moreover have "\<forall>sc \<in> set (scenario_order k). answers (snd sc)"
      using scenarios_answer [OF assms] by (simp add: scenario_order_def)
    ultimately show ?thesis unfolding run_scenarios_def by (meson filter_is_subset subsetD)
  qed
  have start: "answers (start_stack k)" and stop: "answers (stop_stack k)"
    unfolding start_stack_def stop_stack_def Let_def
    by (intro answers_intros answers_within harness_answers [OF assms])+
  have drive: "answers (drive_stack k selected nodes)" for selected nodes
    unfolding drive_stack_def by (intro answers_intros answers_within wait_healthy_answers [OF assms] scenarios)
  have "fine (parse_scenarios env)"
    by (simp add: parse_scenarios_def fine_def Let_def split: option.split)
  then show ?thesis
    unfolding e2e_main_def
  proof (intro bind_fuel)
    fix selected w nodes w'
    obtain r s' where r: "drive_stack k selected nodes w' = (r, s')" by force
    obtain q s'' where q: "stop_stack k s' = (q, s'')" by force
    have "r \<noteq> Inl OutOfFuel" "q \<noteq> Inl OutOfFuel"
      using drive [of selected nodes] stop r q unfolding answers_def by (metis fst_conv)+
    then show "fst (case drive_stack k selected nodes w' of
        (r, s') \<Rightarrow> (case stop_stack k s' of (Inl e, s'') \<Rightarrow> (Inl e, s'') | (Inr _, s'') \<Rightarrow> (r, s''))) \<noteq> Inl OutOfFuel"
      using r q by (cases q) simp_all
  qed (use start in \<open>simp_all add: fine_def answers_def\<close>)
qed

text \<open>A stack whose world is the clock: nothing is ever healthy.\<close>

definition dead_stack :: "rat stack" where
  "dead_stack = \<lparr>run_command = (\<lambda>args chk. pure ''node-a node-b''), run_worker = (\<lambda>args. pure (1, [], ''boom'')),
     port_metrics = (\<lambda>p. pure []), port_health = (\<lambda>p. pure None), wipe = (\<lambda>d. pure ()),
     stack_clock = (\<lambda>t. t), monotonic = (\<lambda>t. t), pause = (\<lambda>d. change (\<lambda>t. t + d)),
     repo_commits = (\<lambda>r v. pure []), loads_dict = (\<lambda>t. Inr [])\<rparr>"

theorem e2e_main_returns_witness:
  "fst (e2e_main dead_stack None \<lparr>report_rows = [], report_notes = [], stack_world = 0\<rparr>) \<noteq> Inl OutOfFuel"
  by (rule e2e_main_returns)
    (simp add: stack_answers_def dead_stack_def answers_def moves_on_def fine_def)

section \<open>Which scenarios run\<close>

text \<open>Only scenarios that exist are selected; without a selection all of them are.\<close>

theorem parse_scenarios_sound:
  "case parse_scenarios env of
     Inl e \<Rightarrow> \<exists>t s. env = Some t \<and> s \<in> set (map strip_text (split_text CHR '','' t)) \<and> s \<noteq> [] \<and> s \<notin> set SCENARIO_NAMES
   | Inr selected \<Rightarrow> set selected \<subseteq> set SCENARIO_NAMES"
proof (cases env)
  case (Some t)
  let ?selected = "filter (\<lambda>s. s \<noteq> []) (map strip_text (split_text CHR '','' t))"
  show ?thesis
  proof (cases "filter (\<lambda>s. s \<notin> set SCENARIO_NAMES) ?selected")
    case Nil
    then show ?thesis using Some by (auto simp: parse_scenarios_def Let_def filter_empty_conv)
  next
    case (Cons u us)
    then have "u \<in> set (filter (\<lambda>s. s \<notin> set SCENARIO_NAMES) ?selected)" by simp
    then have "u \<in> set (map strip_text (split_text CHR '','' t)) \<and> u \<noteq> [] \<and> u \<notin> set SCENARIO_NAMES" by simp
    then show ?thesis using Some Cons by (auto simp: parse_scenarios_def Let_def simp del: set_map)
  qed
qed (simp add: parse_scenarios_def)

text \<open>A selection of commas is not one of the empty ones, and selects nothing: with a stack that starts, becomes healthy and
  stops, the run passes without a single check.\<close>

theorem comma_selection_passes:
  assumes "start_stack k s = (Inr nodes, s1)" and "wait_healthy k nodes (stack_world s1) = (Inr (), w)"
    and "stop_stack k (s1\<lparr>stack_world := w\<rparr>) = (Inr out, s2)" and "report_rows s1 = []"
  shows "e2e_main k (Some '','') s = (Inr 0, s2) \<and> report_rows s2 = []"
proof -
  have "parse_scenarios (Some '','') = Inr []" by code_simp
  moreover have "run_scenarios k [] = pure ()" by (simp add: run_scenarios_def)
  moreover have "within_stack (wait_healthy k nodes) s1 = (Inr (), s1\<lparr>stack_world := w\<rparr>)"
    using assms(2) by (simp add: within_stack_def)
  moreover have "report_rows s2 = report_rows (s1\<lparr>stack_world := w\<rparr>)"
    using assms(3) rows_within [of "run_command k (compose [''down'']) False" "s1\<lparr>stack_world := w\<rparr>"] by (simp add: stop_stack_def)
  ultimately show ?thesis
    using assms by (simp add: e2e_main_def run_bind drive_stack_def run_then report_ok_def)
qed

section \<open>A stack to try it on\<close>

definition quiet_stack :: "unit stack" where
  "quiet_stack = \<lparr>run_command = (\<lambda>args chk w. (Inr ''node-a'', w)), run_worker = (\<lambda>args w. (Inr (1, [], ''boom''), w)),
     port_metrics = (\<lambda>p w. (Inr [], w)), port_health = (\<lambda>p w. (Inr (Some 200), w)), wipe = (\<lambda>d w. (Inr (), w)),
     stack_clock = (\<lambda>w. 0), monotonic = (\<lambda>w. 0), pause = (\<lambda>t w. (Inr (), w)),
     repo_commits = (\<lambda>r v w. (Inr [], w)), loads_dict = (\<lambda>t. Inr [])\<rparr>"

definition empty_report :: "unit run_report" where
  "empty_report = \<lparr>report_rows = [], report_notes = [], stack_world = ()\<rparr>"

lemma quiet_start: "start_stack quiet_stack empty_report = (Inr [''node-a''], empty_report)"
proof -
  have active: "words_from [] ''node-a'' = [''node-a'']" by code_simp
  have nodes: "filter (\<lambda>n. n \<in> set [''node-a'']) (dict_keys NODES) = [''node-a'']" by code_simp
  show ?thesis
    unfolding start_stack_def Let_def
    by (simp add: run_bind run_then within_stack_def quiet_stack_def reset_cache_def active nodes [simplified] del: words_from.simps)
qed

lemma quiet_health: "wait_healthy quiet_stack [''node-a''] () = (Inr (), ())"
proof -
  have "wait_node quiet_stack d np () = (Inr (), ())" for d np
  proof -
    have polls: "HEALTH_POLLS = Suc 61" by (simp add: HEALTH_POLLS_def)
    show ?thesis unfolding wait_node_def polls poll_until.simps by (simp add: run_bind quiet_stack_def)
  qed
  moreover have "dict_item ''node-a'' NODES = Inr 8001" by code_simp
  ultimately show ?thesis
    by (simp add: wait_healthy_def run_bind run_then)
qed

lemma quiet_stop: "stop_stack quiet_stack empty_report = (Inr ''node-a'', empty_report)"
  by (simp add: stop_stack_def within_stack_def quiet_stack_def)

theorem comma_selection_passes_witness:
  "e2e_main quiet_stack (Some '','') empty_report = (Inr 0, empty_report)"
proof -
  have same: "empty_report\<lparr>stack_world := ()\<rparr> = empty_report" by simp
  show ?thesis
    using comma_selection_passes [of quiet_stack empty_report "[''node-a'']" empty_report "()" "''node-a''" empty_report]
      quiet_start quiet_health quiet_stop by (simp add: same) (simp add: empty_report_def)
qed


end
