(* ===== verification/Netem.thy ===== *)
theory Netem
  imports E2e Pod_Leaks
begin

text \<open>
  \<open>experiments/netem_tcp.py\<close>: the link of the loopback device is shaped with \<open>tc\<close>, transfers are
  measured over it for every congestion control and buffer size, and the shaping is taken back.
  \<open>tc\<close>, the sockets and the clock are parameters.
\<close>

section \<open>The experiment\<close>

text \<open>\<open>tc_call\<close> gives the exit code and the errors of a command, or the exception of starting it. \<open>start_server\<close> is
  the listener with its thread (payload, buffer, congestion control; its port), \<open>open_client\<close> the client's socket.\<close>

record 'e netlab =
  tc_call :: "string list \<Rightarrow> ('e, int \<times> string) io"
  read_proc :: "('e, string option) io"
  start_server :: "nat \<Rightarrow> nat \<Rightarrow> string \<Rightarrow> ('e, nat) io"
  open_client :: "nat \<Rightarrow> string \<Rightarrow> ('e, unit) io"
  connect_to :: "nat \<Rightarrow> ('e, unit) io"
  recv_bytes :: "nat \<Rightarrow> ('e, nat) io"
  close_sockets :: "('e, unit) io"
  lab_clock :: "'e \<Rightarrow> rat"

definition LARGE_BUF :: nat where
  "LARGE_BUF = 16 * 2 ^ 20"

definition called_process :: "string list \<Rightarrow> int \<Rightarrow> string" where
  "called_process cmd code =
    ''Command '' @ quoted (repr_list cmd) @ '' returned non-zero exit status '' @ str_int code @ ''.''"

definition run_tc :: "'e netlab \<Rightarrow> string list \<Rightarrow> bool \<Rightarrow> ('e, unit) io" where
  "run_tc k cmd chk = bind_call (tc_call k cmd) (\<lambda>(code, err).
     if chk \<and> code \<noteq> 0 then throw (OtherError (called_process cmd code)) else pure ())"

definition ADD_NOOP :: "string list" where
  "ADD_NOOP = [''tc'', ''qdisc'', ''add'', ''dev'', ''lo'', ''root'', ''netem'', ''delay'', ''0ms'']"

definition DEL_ROOT :: "string list" where
  "DEL_ROOT = [''tc'', ''qdisc'', ''del'', ''dev'', ''lo'', ''root'']"

definition have_netadmin :: "'e netlab \<Rightarrow> ('e, bool \<times> string) io" where
  "have_netadmin k = try_call
    (bind_call (tc_call k ADD_NOOP) (\<lambda>(code, err).
       if code \<noteq> 0 then pure (False, strip_text (if err \<noteq> [] then err else called_process ADD_NOOP code))
       else then_call (run_tc k DEL_ROOT False) (pure (True, []))))
    (\<lambda>e. case e of FileNotFoundError f \<Rightarrow> pure (False, ''`tc` not found (install iproute2)'') | _ \<Rightarrow> throw e)"

definition available_cc :: "'e netlab \<Rightarrow> ('e, string list) io" where
  "available_cc k = bind_call (read_proc k) (\<lambda>r. pure (case r of None \<Rightarrow> [] | Some t \<Rightarrow> words_from [] t))"

text \<open>The text of \<open>loss_pct\<close> is that of the float.\<close>

definition set_netem :: "'e netlab \<Rightarrow> int \<Rightarrow> int \<Rightarrow> rat \<Rightarrow> string \<Rightarrow> ('e, unit) io" where
  "set_netem k delay_ms rate_mbit loss_pct loss_text =
    then_call (run_tc k DEL_ROOT False)
      (run_tc k ([''tc'', ''qdisc'', ''add'', ''dev'', ''lo'', ''root'', ''netem'', ''delay'', str_int delay_ms @ ''ms''] @
         (if rate_mbit \<noteq> 0 then [''rate'', str_int rate_mbit @ ''mbit''] else []) @
         (if loss_pct \<noteq> 0 then [''loss'', loss_text @ ''%''] else [])) True)"

definition clear_netem :: "'e netlab \<Rightarrow> ('e, unit) io" where
  "clear_netem k = run_tc k DEL_ROOT False"

text \<open>The receiving loop; every round but the last receives a byte, so that as many rounds as bytes are enough.\<close>

fun receive :: "'e netlab \<Rightarrow> nat \<Rightarrow> nat \<Rightarrow> nat \<Rightarrow> ('e, nat) io" where
  "receive k payload 0 got = (if got < payload then throw OutOfFuel else pure got)"
| "receive k payload (Suc n) got =
    (if got < payload
     then bind_call (recv_bytes k (2 ^ 20)) (\<lambda>chunk. if chunk = 0 then pure got else receive k payload n (got + chunk))
     else pure got)"

definition measure_transfer :: "'e netlab \<Rightarrow> nat \<Rightarrow> nat \<Rightarrow> string \<Rightarrow> ('e, rat) io" where
  "measure_transfer k size_mb sockbuf cc =
    (let payload = size_mb * 2 ^ 20
     in bind_call (start_server k payload sockbuf cc) (\<lambda>port.
        then_call (open_client k sockbuf cc)
       (bind_call (look (lab_clock k)) (\<lambda>t0.
        then_call (connect_to k port)
       (bind_call (receive k payload payload 0) (\<lambda>got.
        bind_call (look (lab_clock k)) (\<lambda>t1.
        then_call (close_sockets k)
          (pure (let elapsed = t1 - t0 in if 0 < elapsed then (of_nat got / 2 ^ 20) / elapsed else 0)))))))))"

record netem_args =
  na_delay_ms :: int
  na_rate_mbit :: int
  na_loss_pct :: rat
  na_loss_text :: string
  na_size_mb :: nat
  na_reps :: nat

type_synonym netem_row = "string \<times> string \<times> rat"

definition BUFFERS :: "(nat \<times> string) list" where
  "BUFFERS = [(0, ''default''), (LARGE_BUF, ''16MiB'')]"

text \<open>\<open>runs[len(runs)//2]\<close> of the sorted runs.\<close>

definition middle :: "rat list \<Rightarrow> rat res" where
  "middle runs = py_nth (sort runs) (int (length runs div 2))"

definition measure_row :: "'e netlab \<Rightarrow> netem_args \<Rightarrow> string \<times> nat \<times> string \<Rightarrow> ('e, netem_row) io" where
  "measure_row k args point = (case point of (cc, sockbuf, label) \<Rightarrow>
     bind_call (map_each (\<lambda>_. measure_transfer k (na_size_mb args) sockbuf cc) [0..<na_reps args]) (\<lambda>runs.
     bind_call (lift_res (middle runs)) (\<lambda>m. pure (cc, label, m))))"

definition netem_body :: "'e netlab \<Rightarrow> netem_args \<Rightarrow> string list \<Rightarrow> ('e, netem_row list) io" where
  "netem_body k args ccs =
    then_call (set_netem k (na_delay_ms args) (na_rate_mbit args) (na_loss_pct args) (na_loss_text args))
      (map_each (measure_row k args) (concat (map (\<lambda>cc. map (\<lambda>b. (cc, b)) BUFFERS) ccs)))"

definition congestion_controls :: "string list \<Rightarrow> string list" where
  "congestion_controls available = (if ''bbr'' \<in> set available then [''cubic'', ''bbr''] else [''cubic''])"

text \<open>\<open>main\<close>: the exit status and the rows that are printed; the \<open>finally\<close> clears the shaping.\<close>

definition netem_main :: "'e netlab \<Rightarrow> netem_args \<Rightarrow> ('e, nat \<times> netem_row list) io" where
  "netem_main k args =
    bind_call (have_netadmin k) (\<lambda>(ok, why).
      if \<not> ok then pure (2, [])
      else bind_call (available_cc k) (\<lambda>available w.
        case netem_body k args (congestion_controls available) w of
          (r, w1) \<Rightarrow> (case clear_netem k w1 of
              (Inl e, w2) \<Rightarrow> (Inl e, w2)
            | (Inr _, w2) \<Rightarrow> (case r of Inl e \<Rightarrow> (Inl e, w2) | Inr rws \<Rightarrow> (Inr (0, rws), w2)))))"

section \<open>The shaping is taken back\<close>

text \<open>What is relied on of \<open>tc\<close> and the rest: \<open>tc\<close> is installed, deleting the root discipline removes the shaping, a
  command that fails changes nothing, and nothing else shapes the link.\<close>

definition tc_tracked :: "'e netlab \<Rightarrow> ('e \<Rightarrow> bool) \<Rightarrow> bool" where
  "tc_tracked k shaped \<longleftrightarrow> (\<forall>cmd w. \<not> isl (fst (tc_call k cmd w))) \<and>
    (\<forall>w. \<not> shaped (snd (tc_call k DEL_ROOT w))) \<and>
    (\<forall>cmd w code err w'. tc_call k cmd w = (Inr (code, err), w') \<and> code \<noteq> 0 \<and> cmd \<noteq> DEL_ROOT \<longrightarrow> shaped w' = shaped w) \<and>
    (\<forall>w. shaped (snd (read_proc k w)) = shaped w)"

lemma del_root:
  assumes "tc_tracked k shaped"
  obtains w' where "run_tc k DEL_ROOT False w = (Inr (), w')" and "\<not> shaped w'"
proof -
  obtain r w' where r: "tc_call k DEL_ROOT w = (r, w')" by force
  have "\<not> isl r" "\<not> shaped w'" using assms r unfolding tc_tracked_def by (metis fst_conv snd_conv)+
  then show thesis using r that [of w'] by (cases r) (auto simp: run_tc_def run_bind split: prod.split)
qed


text \<open>A laboratory whose world is whether the link is shaped; connections are refused.\<close>

definition refusing_lab :: "bool netlab" where
  "refusing_lab = \<lparr>tc_call = (\<lambda>cmd s. (Inr (0, []), cmd \<noteq> DEL_ROOT)), read_proc = pure (Some ''reno cubic bbr''),
     start_server = (\<lambda>n b cc. pure 5000), open_client = (\<lambda>b cc. pure ()),
     connect_to = (\<lambda>p. throw (OtherError ''Connection refused'')), recv_bytes = (\<lambda>n. pure 0), close_sockets = pure (),
     lab_clock = (\<lambda>s. 0)\<rparr>"

definition quick_args :: netem_args where
  "quick_args = \<lparr>na_delay_ms = 25, na_rate_mbit = 1000, na_loss_pct = 0, na_loss_text = ''0.0'', na_size_mb = 0, na_reps = 1\<rparr>"


section \<open>What is measured\<close>

lemma receive_total:
  assumes "\<And>w. fst (recv_bytes k (2 ^ 20) w) \<noteq> Inl OutOfFuel" and "payload - got \<le> n"
  shows "fst (receive k payload n got w) \<noteq> Inl OutOfFuel"
  using assms(2)
proof (induction n arbitrary: got w)
  case (Suc n)
  obtain r w1 where r: "recv_bytes k (2 ^ 20) w = (r, w1)" by force
  then have "r \<noteq> Inl OutOfFuel" using assms(1) [of w] by simp
  then show ?case using r Suc.prems Suc.IH [of "got + projr r" w1] by (cases r) (auto simp: run_bind)
qed simp

lemma map_each_keys:
  assumes "\<And>x w y w'. f x w = (Inr y, w') \<Longrightarrow> g y = h x"
  shows "map_each f xs w = (Inr ys, w') \<Longrightarrow> map g ys = map h xs"
  using assms by (induction xs arbitrary: ys w) (auto elim!: bind_Inr)

text \<open>A run that ends well has a row for every congestion control and buffer size, in this order; without repetitions
  it raises instead, having shaped the link and cleared it.\<close>

theorem netem_main_rows:
  assumes "netem_main k args w = (Inr (0, rws), w')"
  shows "map (\<lambda>(cc, label, m). (cc, label)) rws \<in>
      {[(''cubic'', ''default''), (''cubic'', ''16MiB'')],
       [(''cubic'', ''default''), (''cubic'', ''16MiB''), (''bbr'', ''default''), (''bbr'', ''16MiB'')]} \<and> 0 < na_reps args"
proof -
  obtain ccs w1 w2 where body: "netem_body k args ccs w1 = (Inr rws, w2)" and ccs: "ccs \<in> {[''cubic''], [''cubic'', ''bbr'']}"
    using assms
    by (auto simp: netem_main_def congestion_controls_def elim!: bind_Inr split: prod.splits sum.splits if_splits)
  let ?points = "concat (map (\<lambda>cc. map (\<lambda>b. (cc, b)) BUFFERS) ccs)"
  obtain w3 where rows: "map_each (measure_row k args) ?points w3 = (Inr rws, w2)"
    using body unfolding netem_body_def by (auto elim: then_Inr)
  have "map (\<lambda>(cc, label, m). (cc, label)) rws = map (\<lambda>(cc, sockbuf, label). (cc, label)) ?points"
    by (rule map_each_keys [OF _ rows]) (auto simp: measure_row_def elim!: bind_Inr)
  moreover have "0 < na_reps args"
  proof (rule ccontr)
    assume "\<not> 0 < na_reps args"
    then have "measure_row k args p v = (Inl IndexError, v)" for p v
      by (cases p) (simp add: measure_row_def run_bind middle_def py_nth_def py_index_def)
    then show False using rows ccs by (auto simp: BUFFERS_def run_bind)
  qed
  ultimately show ?thesis using ccs by (auto simp: BUFFERS_def)
qed

definition open_lab :: "bool netlab" where
  "open_lab = refusing_lab\<lparr>connect_to := (\<lambda>p. pure ())\<rparr>"

theorem netem_main_rows_witness: "\<exists>rws. netem_main open_lab quick_args False = (Inr (0, rws), False) \<and> length rws \<le> 4"
proof -
  have tc: "run_tc open_lab cmd chk v = (Inr (), cmd \<noteq> DEL_ROOT)" "tc_call open_lab cmd v = (Inr (0, []), cmd \<noteq> DEL_ROOT)"
    for cmd chk v by (simp_all add: run_tc_def open_lab_def refusing_lab_def run_bind)
  have available: "\<exists>xs. available_cc open_lab v = (Inr xs, v)" for v
    by (simp add: available_cc_def open_lab_def refusing_lab_def run_bind del: words_from.simps)
  have transfer: "measure_transfer open_lab 0 b cc v = (Inr 0, v)" for b cc v
    by (simp add: measure_transfer_def open_lab_def refusing_lab_def run_bind run_then)
  have row: "measure_row open_lab quick_args p v = (Inr (fst p, snd (snd p), 0), v)" for p v
    by (cases p) (simp add: measure_row_def quick_args_def run_bind transfer middle_def py_nth_def py_index_def)
  have "\<exists>rws. map_each (measure_row open_lab quick_args) ps v = (Inr rws, v)" for ps v
    by (induction ps) (auto simp: row run_bind)
  moreover have "\<exists>v1. set_netem open_lab a b c d v = (Inr (), v1)" for a b c d v
    by (simp add: set_netem_def tc run_then)
  ultimately have "\<exists>rws v'. netem_body open_lab quick_args ccs v = (Inr rws, v')" for ccs v
    unfolding netem_body_def run_then by (metis (no_types, lifting) case_prod_conv sum.case(2))
  moreover obtain xs where "available_cc open_lab False = (Inr xs, False)" using available by blast
  ultimately obtain rws v' where xs: "available_cc open_lab False = (Inr xs, False)"
    and body: "netem_body open_lab quick_args (congestion_controls xs) False = (Inr rws, v')" by blast
  have "have_netadmin open_lab False = (Inr (True, []), False)"
    by (simp add: have_netadmin_def tc run_bind run_then run_try)
  then have run: "netem_main open_lab quick_args False = (Inr (0, rws), False)"
    using xs body by (simp add: netem_main_def clear_netem_def tc run_bind)
  from netem_main_rows [OF run] have "length (map (\<lambda>(cc, label, m). (cc, label)) rws) \<le> 4"
    by (elim conjE insertE) (simp_all del: length_map)
  then show ?thesis using run by auto
qed

end
