(* ===== verification/Hf_Worker.thy ===== *)
theory Hf_Worker
  imports E2e "HOL-Library.List_Lexorder" "HOL-Library.Char_ord"
begin

text \<open>
  \<open>deploy/e2e/hf_worker.py\<close>: the process of one download of the end-to-end harness, which prints the
  hash of a file or the manifest of a snapshot. Hugging Face, the file system and sha256 are
  parameters.
\<close>

section \<open>The worker\<close>

definition SNAPSHOT_IGNORE :: "string list" where
  "SNAPSHOT_IGNORE = [''onnx/*'', ''*.onnx'', ''*.onnx_data'', ''*.gguf'', ''*.msgpack'', ''*.h5'', ''coreml/*'', ''*.mlmodel'',
     ''*.tflite'']"

text \<open>An entry below a directory: the parts of its relative path, and the contents if it is a file. \<open>hub_file\<close> and
  \<open>hub_snapshot\<close> see the environment, which huggingface_hub reads when it is imported; they give a path.\<close>

type_synonym tree_entry = "string list \<times> string option"

record 'e hub_client =
  hub_file :: "environment \<Rightarrow> string \<Rightarrow> string \<Rightarrow> string \<Rightarrow> ('e, string) io"
  hub_snapshot :: "environment \<Rightarrow> string \<Rightarrow> string \<Rightarrow> string list \<Rightarrow> ('e, string) io"
  read_path :: "string \<Rightarrow> ('e, string) io"
  walk_path :: "string \<Rightarrow> ('e, string list \<times> tree_entry list) io"
  sha256_hex :: "string \<Rightarrow> string"
  dumps_dict :: "(string, string) pydict \<Rightarrow> string"
  temp_dir :: string

definition manifest_step :: "(string \<Rightarrow> string) \<Rightarrow> string list \<Rightarrow> tree_entry \<Rightarrow> (string, string) pydict \<Rightarrow> (string, string) pydict" where
  "manifest_step sha top_parts entry out = (case entry of
     (rel, Some body) \<Rightarrow> if ''.cache'' \<notin> set (top_parts @ rel) then AList.update (join_text ''/'' rel) (sha body) out else out
   | (rel, None) \<Rightarrow> out)"

definition sha_manifest :: "(string \<Rightarrow> string) \<Rightarrow> string list \<Rightarrow> tree_entry list \<Rightarrow> (string, string) pydict" where
  "sha_manifest sha top_parts entries = fold (manifest_step sha top_parts) (sort_key fst entries) []"

definition prep_env :: "string \<Rightarrow> environment \<Rightarrow> environment" where
  "prep_env endpoint environ =
    (let env = AList.update ''HF_HUB_DISABLE_TELEMETRY'' ''1'' environ
     in if endpoint \<noteq> ''DIRECT'' then AList.update ''HF_ENDPOINT'' endpoint env else env)"

definition worker_env :: "'e hub_client \<Rightarrow> environment \<Rightarrow> string \<Rightarrow> environment" where
  "worker_env k environ endpoint = prep_env endpoint (AList.update ''HF_HOME'' (temp_dir k) environ)"

text \<open>The two modes, with what they print.\<close>

definition worker_file :: "'e hub_client \<Rightarrow> environment \<Rightarrow> string \<Rightarrow> string \<Rightarrow> string \<Rightarrow> string \<Rightarrow> ('e, string) io" where
  "worker_file k environ repo rvn filename endpoint =
    bind_call (hub_file k (worker_env k environ endpoint) repo rvn filename) (\<lambda>path.
    bind_call (read_path k path) (\<lambda>body. pure (sha256_hex k body @ [CHR 0x0A])))"

definition worker_snapshot :: "'e hub_client \<Rightarrow> environment \<Rightarrow> string \<Rightarrow> string \<Rightarrow> string \<Rightarrow> ('e, string) io" where
  "worker_snapshot k environ repo rvn endpoint =
    bind_call (hub_snapshot k (worker_env k environ endpoint) repo rvn SNAPSHOT_IGNORE) (\<lambda>path.
    bind_call (walk_path k path) (\<lambda>(top_parts, entries).
      pure (dumps_dict k (sha_manifest (sha256_hex k) top_parts entries) @ [CHR 0x0A])))"

text \<open>The program, from its arguments: the exit status, the output, the errors.\<close>

definition wrong_arguments :: pyerr where
  "wrong_arguments = TypeError ''wrong number of positional arguments''"

definition worker_program :: "'e hub_client \<Rightarrow> environment \<Rightarrow> string list \<Rightarrow> ('e, string) io" where
  "worker_program k environ argv = (case argv of
     [] \<Rightarrow> throw IndexError
   | mode # args \<Rightarrow>
       if mode = ''--file'' then (case args of
           [repo, rvn, filename, endpoint] \<Rightarrow> worker_file k environ repo rvn filename endpoint
         | _ \<Rightarrow> throw wrong_arguments)
       else if mode = ''--snapshot'' then (case args of
           [repo, rvn, endpoint] \<Rightarrow> worker_snapshot k environ repo rvn endpoint
         | _ \<Rightarrow> throw wrong_arguments)
       else throw (OtherError (''unknown mode '' @ py_repr mode)))"

text \<open>As a process: an exception is exit code 1 with its text in the errors.\<close>

definition worker_process_of :: "'e hub_client \<Rightarrow> environment \<Rightarrow> string list \<Rightarrow> ('e, int \<times> string \<times> string) io" where
  "worker_process_of k environ argv = try_call
    (bind_call (worker_program k environ argv) (\<lambda>out. pure (0, out, [])))
    (\<lambda>e. pure (1, [], err_text e))"

section \<open>The manifest\<close>

definition tree_ok :: "tree_entry list \<Rightarrow> bool" where
  "tree_ok entries \<longleftrightarrow> distinct (map fst entries) \<and> list_all (\<lambda>(rel, c). rel \<noteq> [] \<and> list_all (\<lambda>p. CHR ''/'' \<notin> set p) rel) entries"

lemma join_rel_inj:
  assumes "rel \<noteq> []" "list_all (\<lambda>p. CHR ''/'' \<notin> set p) rel" and "rel' \<noteq> []" "list_all (\<lambda>p. CHR ''/'' \<notin> set p) rel'"
    and "join_text ''/'' rel = join_text ''/'' rel'"
  shows "rel = rel'"
  by (metis split_join [OF assms(1,2)] split_join [OF assms(3,4)] assms(5))

definition in_manifest :: "string list \<Rightarrow> string list \<Rightarrow> bool" where
  "in_manifest top_parts rel \<longleftrightarrow> ''.cache'' \<notin> set (top_parts @ rel)"

lemma fold_manifest:
  assumes "tree_ok entries" and "rel \<noteq> []" "list_all (\<lambda>p. CHR ''/'' \<notin> set p) rel"
  shows "map_of (fold (manifest_step sha top_parts) entries out) (join_text ''/'' rel) =
    (case map_of entries rel of
       Some (Some body) \<Rightarrow> if in_manifest top_parts rel then Some (sha body) else map_of out (join_text ''/'' rel)
     | _ \<Rightarrow> map_of out (join_text ''/'' rel))"
  using assms(1)
proof (induction entries arbitrary: out)
  case (Cons en entries)
  obtain r c where en: "en = (r, c)" by force
  have r: "r \<noteq> []" "list_all (\<lambda>p. CHR ''/'' \<notin> set p) r" and ok: "tree_ok entries" and new: "r \<notin> fst ` set entries"
    using Cons.prems en by (auto simp: tree_ok_def)
  have same: "join_text ''/'' r = join_text ''/'' rel \<longleftrightarrow> r = rel" using join_rel_inj [OF r assms(2,3)] by auto
  show ?case
  proof (cases "r = rel")
    case True
    then have "map_of entries rel = None" using new by (metis map_of_eq_None_iff)
    then show ?thesis using Cons.IH [OF ok] True en
      by (cases c) (simp_all add: manifest_step_def in_manifest_def update_conv')
  next
    case False
    then have "map_of (manifest_step sha top_parts en out) (join_text ''/'' rel) = map_of out (join_text ''/'' rel)"
      using same en by (cases c) (simp_all add: manifest_step_def update_conv')
    then show ?thesis using Cons.IH [OF ok] False en by (simp split: option.split)
  qed
qed simp

text \<open>The manifest of a directory has exactly its files that are in no \<open>.cache\<close>, under their relative paths, each with the
  hash of its contents; the order in which the directory is walked does not matter.\<close>

theorem sha_manifest_files:
  assumes "tree_ok entries" and "(rel, c) \<in> set entries"
  shows "map_of (sha_manifest sha top_parts entries) (join_text ''/'' rel) =
    (case c of None \<Rightarrow> None | Some body \<Rightarrow> if ''.cache'' \<in> set top_parts \<or> ''.cache'' \<in> set rel then None else Some (sha body))"
proof -
  let ?sorted = "sort_key fst entries"
  have ok: "tree_ok ?sorted"
    using assms(1) by (auto simp: tree_ok_def list_all_iff distinct_map)
  have rel: "rel \<noteq> []" "list_all (\<lambda>p. CHR ''/'' \<notin> set p) rel"
    using assms unfolding tree_ok_def list_all_iff by fastforce+
  have "map_of ?sorted rel = Some c"
    using ok assms(2) by (simp add: tree_ok_def map_of_eq_Some_iff)
  then show ?thesis
    unfolding sha_manifest_def fold_manifest [OF ok rel]
    by (auto simp: in_manifest_def split: option.split)
qed

theorem sha_manifest_files_witness:
  "map_of (sha_manifest (\<lambda>b. b) [''tmp''] [([''sub''], None), ([''sub'', ''w''], Some ''x''), ([''.cache'', ''j''], Some ''y'')]) ''sub/w''
    = Some ''x''"
proof -
  have "tree_ok [([''sub''], None), ([''sub'', ''w''], Some ''x''), ([''.cache'', ''j''], Some ''y'')]"
    by (simp add: tree_ok_def)
  from sha_manifest_files [OF this, of "[''sub'', ''w'']" "Some ''x''" "\<lambda>b. b" "[''tmp'']"] show ?thesis by simp
qed

section \<open>Which endpoint is used\<close>

text \<open>A download that is said to be direct uses the endpoint of the surrounding environment, where there is one.\<close>

theorem direct_inherits_endpoint:
  "map_of (worker_env k environ ''DIRECT'') ''HF_ENDPOINT'' = map_of environ ''HF_ENDPOINT'' \<and>
   (endpoint = ''DIRECT'' \<or> map_of (worker_env k environ endpoint) ''HF_ENDPOINT'' = Some endpoint)"
  by (cases "endpoint = ''DIRECT''") (simp_all add: worker_env_def prep_env_def Let_def update_conv')

section \<open>The harness and its worker\<close>

lemma lines_whole: "list_all (\<lambda>x. \<not> is_break x) s \<Longrightarrow> lines_from cur s = (if cur @ s = [] then [] else [cur @ s])"
  by (induction s arbitrary: cur) auto

lemma printed_line:
  assumes "s \<noteq> []" and "list_all (\<lambda>x. \<not> is_space x) s"
  shows "split_lines (strip_text (s @ [CHR 0x0A])) = [s]"
proof -
  have space: "is_break x \<Longrightarrow> is_space x" for x by (auto simp: is_break_def is_space_def Let_def)
  have "dropWhile is_space (s @ [CHR 0x0A]) = s @ [CHR 0x0A]" using assms by (cases s) auto
  moreover have "dropWhile is_space (rev s) = rev s"
    using assms by (cases "rev s") (auto simp: list_all_iff dest: arg_cong [of _ _ set])
  moreover have "is_space CHR 0x0A" by (simp add: is_space_def)
  ultimately have strip: "strip_text (s @ [CHR 0x0A]) = s" by (simp add: strip_text_def)
  have "list_all (\<lambda>x. \<not> is_break x) s" using assms(2) space by (auto simp: list_all_iff)
  then show ?thesis using assms(1) strip by (simp add: split_lines_def lines_whole)
qed

text \<open>Through the process of the worker the harness gets the hash of the file that Hugging Face gave the worker under the
  endpoint that was asked for.\<close>

theorem harness_download_hash:
  assumes "run_worker k = worker_process_of hub environ" and "\<And>b. sha256_hex hub b \<noteq> [] \<and> list_all (\<lambda>x. \<not> is_space x) (sha256_hex hub b)"
    and "hub_file hub (worker_env hub environ endpoint) SMOL_REPO rvn E2E_FILE w = (Inr path, w1)"
    and "read_path hub path w1 = (Inr body, w2)"
  shows "download k endpoint rvn w = (Inr (sha256_hex hub body), w2)"
proof -
  have "run_worker k [''--file'', SMOL_REPO, rvn, E2E_FILE, endpoint] w = (Inr (0, sha256_hex hub body @ [CHR 0x0A], []), w2)"
    using assms(1,3,4) by (simp add: worker_process_of_def worker_program_def worker_file_def run_bind run_try)
  moreover have "split_lines (strip_text (sha256_hex hub body @ [CHR 0x0A])) = [sha256_hex hub body]"
    by (rule printed_line) (use assms(2) in simp_all)
  ultimately show ?thesis by (simp add: download_def worker_def run_bind)
qed

definition echo_hub :: "unit hub_client" where
  "echo_hub = \<lparr>hub_file = (\<lambda>env repo rvn f. pure (dict_get ''HF_ENDPOINT'' ''hf'' env)), hub_snapshot = (\<lambda>env repo rvn ig. pure ''d''),
     read_path = (\<lambda>p. pure p), walk_path = (\<lambda>p. pure ([], [])), sha256_hex = (\<lambda>b. ''abc''), dumps_dict = (\<lambda>d. ''{}''),
     temp_dir = ''/tmp/h''\<rparr>"

definition worker_stack :: "unit stack" where
  "worker_stack = quiet_stack\<lparr>run_worker := worker_process_of echo_hub []\<rparr>"

theorem harness_download_hash_witness: "download worker_stack ''http://shim'' ''main'' () = (Inr ''abc'', ())"
proof -
  have "sha256_hex echo_hub b \<noteq> [] \<and> list_all (\<lambda>x. \<not> is_space x) (sha256_hex echo_hub b)" for b
    by (simp add: echo_hub_def is_space_def)
  from harness_download_hash [OF _ this, of worker_stack "[]" "''http://shim''" "''main''" "()"]
  show ?thesis by (simp add: worker_stack_def echo_hub_def)
qed

end
